theory Spec2Isabelle
  imports Main "HOL-Library.Sublist"
begin

section \<open>The index of a block-based document store: a shallow embedding\<close>

text \<open>
  The development follows the Go package \<open>sql\<close> of the kernel (the file
  \<open>src/unnamed/part_000\<close>): the extraction of blocks, attributes and references from a
  document tree, the sort weights, the template functions, and the statements that keep the
  tables of the store in step.

  Go strings are byte strings: they are modelled as \<open>string\<close>, a list of 8-bit characters.
\<close>

subsection \<open>Functions of the Go standard library on strings\<close>

text \<open>\<open>strings.Split(s, sep)\<close> for a separator of one byte. \<open>Split("", sep)\<close> is the list
  holding the empty string.\<close>

fun Split :: "string \<Rightarrow> char \<Rightarrow> string list" where
  "Split [] sep = [[]]"
| "Split (c # cs) sep =
     (if c = sep then [] # Split cs sep
      else (case Split cs sep of [] \<Rightarrow> [[c]] | w # ws \<Rightarrow> (c # w) # ws))"

text \<open>\<open>strings.HasPrefix(s, prefix)\<close>.\<close>

definition HasPrefix :: "string \<Rightarrow> string \<Rightarrow> bool" where
  "HasPrefix s p = prefix p s"

text \<open>\<open>strings.Contains(s, substr)\<close>.\<close>

fun Contains :: "string \<Rightarrow> string \<Rightarrow> bool" where
  "Contains [] sub = (sub = [])"
| "Contains (c # cs) sub = (prefix sub (c # cs) \<or> Contains cs sub)"

text \<open>\<open>strings.LastIndex(s, sep)\<close> for a separator of one byte: the index of its last
  occurrence, \<open>-1\<close> when there is none. The loop keeps the running index and the last hit.\<close>

fun LastIndex_from :: "string \<Rightarrow> char \<Rightarrow> int \<Rightarrow> int \<Rightarrow> int" where
  "LastIndex_from [] sep i found = found"
| "LastIndex_from (c # cs) sep i found =
     LastIndex_from cs sep (i + 1) (if c = sep then i else found)"

definition LastIndex :: "string \<Rightarrow> char \<Rightarrow> int" where
  "LastIndex s sep = LastIndex_from s sep 0 (- 1)"

text \<open>\<open>strings.Replace(s, old, new, 1)\<close>: the first occurrence of \<open>old\<close> is replaced, and
  \<open>s\<close> is returned as it is when \<open>old\<close> does not occur. An empty \<open>old\<close> matches at the
  start of the string.\<close>

fun Replace1 :: "string \<Rightarrow> string \<Rightarrow> string \<Rightarrow> string" where
  "Replace1 [] old new = (if old = [] then new else [])"
| "Replace1 (c # cs) old new =
     (if prefix old (c # cs) then new @ drop (length old) (c # cs)
      else c # Replace1 cs old new)"

text \<open>\<open>strings.ReplaceAll(s, old, new)\<close> for a non-empty \<open>old\<close>: the occurrences are
  found from the left and do not overlap. (For an empty \<open>old\<close> Go inserts \<open>new\<close> around
  every rune; the package never calls it so, and the model gives no equation for it.)\<close>

function ReplaceAll :: "string \<Rightarrow> string \<Rightarrow> string \<Rightarrow> string" where
  "ReplaceAll [] (b # bs) new = []"
| "ReplaceAll (c # cs) (b # bs) new =
     (if prefix (b # bs) (c # cs)
      then new @ ReplaceAll (drop (length (b # bs)) (c # cs)) (b # bs) new
      else c # ReplaceAll cs (b # bs) new)"
| "ReplaceAll s [] new = undefined"
  by pat_completeness auto
termination
  by (relation "measure (\<lambda>(s, old, new). length s)") auto

text \<open>\<open>utf8.RuneCountInString\<close>. The width of the rune that starts a non-empty string
  follows the decoder of the standard library: an ASCII byte is one rune; a lead byte
  \<open>0xC2..0xF4\<close> followed by the continuation bytes its range asks for is one rune of two,
  three or four bytes; every other byte is an invalid rune of width one.\<close>

definition cont_byte :: "nat \<Rightarrow> bool" where
  "cont_byte b = (128 \<le> b \<and> b \<le> 191)"

definition second_ok :: "nat \<Rightarrow> nat \<Rightarrow> bool" where
  "second_ok lead b =
     (if lead = 224 then 160 \<le> b \<and> b \<le> 191
      else if lead = 237 then 128 \<le> b \<and> b \<le> 159
      else if lead = 240 then 144 \<le> b \<and> b \<le> 191
      else if lead = 244 then 128 \<le> b \<and> b \<le> 143
      else cont_byte b)"

definition rune_width :: "nat list \<Rightarrow> nat" where
  "rune_width bs =
     (case bs of
        [] \<Rightarrow> 1
      | c # rest \<Rightarrow>
          (if c < 128 then 1
           else if c < 194 \<or> 244 < c then 1
           else
             (let size = (if c < 224 then 2 else if c < 240 then 3 else 4 :: nat) in
              if length bs < size then 1
              else if \<not> second_ok c (rest ! 0) then 1
              else if size = 2 then 2
              else if \<not> cont_byte (rest ! 1) then 1
              else if size = 3 then 3
              else if \<not> cont_byte (rest ! 2) then 1
              else 4)))"

function RuneCount :: "nat list \<Rightarrow> nat" where
  "RuneCount [] = 0"
| "RuneCount (b # bs) = Suc (RuneCount (drop (rune_width (b # bs)) (b # bs)))"
  by pat_completeness auto
termination
  by (relation "measure length") (auto simp: rune_width_def Let_def)

definition RuneCountInString :: "string \<Rightarrow> int" where
  "RuneCountInString s = int (RuneCount (map of_char s))"

text \<open>\<open>editor.Zwsp\<close>, the zero-width space U+200B, in UTF-8.\<close>

definition Zwsp :: string where
  "Zwsp = [CHR 0xE2, CHR 0x80, CHR 0x8B]"

subsection \<open>Document trees\<close>

text \<open>The node types of the parser that the package names; every other type of the
  parser is \<open>NodeOther\<close> with its number.\<close>

datatype NodeType =
    NodeDocument | NodeHeading | NodeParagraph | NodeCodeBlock | NodeMathBlock | NodeTable
  | NodeHTMLBlock | NodeList | NodeListItem | NodeBlockquote | NodeSuperBlock
  | NodeAttributeView | NodeText | NodeTextMark | NodeImage | NodeInlineHTML | NodeIFrame
  | NodeWidget | NodeAudio | NodeVideo | NodeKramdownSpanIAL | NodeKramdownBlockIAL
  | NodeLinkDest | NodeLinkTitle | NodeOther nat

text \<open>
  The fields of an \<open>ast.Node\<close> that the package reads, and what the node's place in the
  tree gives: \<open>Parent\<close> is the ID of \<open>n.Parent\<close>, \<open>ParentBlock\<close> the ID of
  \<open>treenode.ParentBlock(n)\<close> and \<open>HeadingParent\<close> the ID of \<open>treenode.HeadingParent(n)\<close>,
  each \<open>None\<close> when the pointer is nil.
\<close>

record NodeData =
  Type :: NodeType
  ID :: string
  KramdownIAL :: "(string \<times> string) list"
  TextMarkType :: string
  TextMarkFileAnnotationRefID :: string
  TextMarkTextContent :: string
  Parent :: "string option"
  ParentBlock :: "string option"
  HeadingParent :: "string option"

datatype Node = Node (data: NodeData) (children: "Node list")

text \<open>\<open>n.IsTextMarkType(typ)\<close>: a text mark carries its types separated by spaces.\<close>

definition IsTextMarkType :: "NodeData \<Rightarrow> string \<Rightarrow> bool" where
  "IsTextMarkType n typ =
     (if NodeData.Type n \<noteq> NodeTextMark then False
      else typ \<in> set (Split (TextMarkType n) CHR '' ''))"

text \<open>\<open>n.IALAttr(name)\<close>: the value of the first pair of the attribute list with that
  name, the empty string when there is none.\<close>

fun IALAttr_of :: "(string \<times> string) list \<Rightarrow> string \<Rightarrow> string" where
  "IALAttr_of [] name = []"
| "IALAttr_of (kv # kvs) name = (if name = fst kv then snd kv else IALAttr_of kvs name)"

definition IALAttr :: "NodeData \<Rightarrow> string \<Rightarrow> string" where
  "IALAttr n name = IALAttr_of (KramdownIAL n) name"

subsection \<open>Sort weights\<close>

definition nSort :: "NodeData \<Rightarrow> int" where
  "nSort n =
     (case NodeData.Type n of
        NodeHeading \<Rightarrow> 5
      | NodeParagraph \<Rightarrow> 10
      | NodeCodeBlock \<Rightarrow> 10
      | NodeMathBlock \<Rightarrow> 10
      | NodeTable \<Rightarrow> 10
      | NodeHTMLBlock \<Rightarrow> 10
      | NodeList \<Rightarrow> 20
      | NodeListItem \<Rightarrow> 20
      | NodeBlockquote \<Rightarrow> 20
      | NodeSuperBlock \<Rightarrow> 30
      | NodeAttributeView \<Rightarrow> 30
      | NodeDocument \<Rightarrow> 0
      | NodeText \<Rightarrow> (if IsTextMarkType n ''tag'' then 205 else 200)
      | NodeTextMark \<Rightarrow> (if IsTextMarkType n ''tag'' then 205 else 200)
      | _ \<Rightarrow> 100)"

text \<open>A node with nothing set, from which the examples are built.\<close>

definition blank_node :: NodeData where
  "blank_node =
     \<lparr>NodeData.Type = NodeOther 0, NodeData.ID = [], KramdownIAL = [], TextMarkType = [],
      TextMarkFileAnnotationRefID = [], TextMarkTextContent = [], Parent = None,
      ParentBlock = None, HeadingParent = None\<rparr>"

subsection \<open>The collaborators of the extraction\<close>

text \<open>An entry of the block-location index (\<open>treenode.BlockTree\<close>): the fields read
  here.\<close>

record BlockTree =
  ParentID :: string
  RootID :: string
  Path :: string

text \<open>\<open>parse.Tree\<close>.\<close>

record Tree =
  Root :: Node
  ID :: string
  Box :: string
  Path :: string
  HPath :: string

text \<open>
  The functions of the parser (\<open>ast\<close>, \<open>parse\<close>, \<open>html\<close>), of \<open>treenode\<close> and of
  \<open>util\<close> that the extraction calls and whose code is outside this package. They are
  parameters of the model: a theorem about the extraction holds for every choice of them.
  \<open>NewNodeID k\<close> is the \<open>k\<close>-th identifier \<open>ast.NewNodeID()\<close> mints; \<open>IALValMap\<close> and
  \<open>IAL2Map\<close> give the pairs of the Go map in the order the \<open>range\<close> loop meets them;
  \<open>NodeStaticContent n b\<close> is \<open>NodeStaticContent(n, nil, true, b, true)\<close>;
  \<open>TypeAbbr t\<close> is \<open>treenode.TypeAbbr(t.String())\<close>.
\<close>

record env =
  NewNodeID :: "nat \<Rightarrow> string"
  UnescapeString :: "string \<Rightarrow> string"
  TrimSpace :: "string \<Rightarrow> string"
  TimeFromID :: "string \<Rightarrow> string"
  TypeAbbr :: "NodeType \<Rightarrow> string"
  SubTypeAbbr :: "NodeData \<Rightarrow> string"
  IALStr :: "NodeData \<Rightarrow> string"
  IALValMap :: "NodeData \<Rightarrow> (string \<times> string) list"
  IAL2Map :: "(string \<times> string) list \<Rightarrow> (string \<times> string) list"
  NodeHash :: "Node \<Rightarrow> Tree \<Rightarrow> string"
  ExportNodeStdMd :: "Node \<Rightarrow> string"
  NodeStaticContent :: "Node \<Rightarrow> bool \<Rightarrow> string"
  NodeContent :: "Node \<Rightarrow> string"
  FirstLeafBlock :: "Node \<Rightarrow> Node"
  IsNodeOCRed :: "Node \<Rightarrow> bool"
  IsContainerBlock :: "NodeData \<Rightarrow> bool"
  GetBlockTree :: "string \<Rightarrow> BlockTree option"
  IsBlockRef :: "NodeData \<Rightarrow> bool"
  IsFileAnnotationRef :: "NodeData \<Rightarrow> bool"
  IsEmbedBlockRef :: "NodeData \<Rightarrow> bool"
  GetBlockRef :: "NodeData \<Rightarrow> string \<times> string \<times> string"
  GetEmbedBlockRef :: "NodeData \<Rightarrow> string"

text \<open>What the extraction changes outside its results: the identifiers minted so far and
  the queue of \<open>util.PushNodeOCRQueue\<close>.\<close>

record xstate =
  minted :: nat
  ocr_queue :: "Node list"

definition mint :: "env \<Rightarrow> xstate \<Rightarrow> string \<times> xstate" where
  "mint e xs = (NewNodeID e (minted xs), xs\<lparr>minted := Suc (minted xs)\<rparr>)"

text \<open>Reading a field through a nil pointer panics, and so does a type assertion on a
  value of another type.\<close>

datatype panic = NilPointerDereference | InterfaceConversion

subsection \<open>Walking a tree\<close>

datatype WalkStatus = WalkStop | WalkSkipChildren | WalkContinue

text \<open>
  \<open>ast.Walk(n, walker)\<close>: the walker is called on entering \<open>n\<close>; unless it answers
  \<open>WalkSkipChildren\<close> the children are walked from the first to the last; the walker is
  called again on leaving \<open>n\<close>. \<open>WalkStop\<close> on entering returns from the walk of \<open>n\<close>.
  The walker's closure variables are the state \<open>s\<close>; a panic of the walker ends the walk.
\<close>

fun Walk :: "(Node \<Rightarrow> bool \<Rightarrow> 's \<Rightarrow> panic + (WalkStatus \<times> 's)) \<Rightarrow> Node \<Rightarrow> 's \<Rightarrow> panic + 's"
  and WalkChildren ::
    "(Node \<Rightarrow> bool \<Rightarrow> 's \<Rightarrow> panic + (WalkStatus \<times> 's)) \<Rightarrow> Node list \<Rightarrow> 's \<Rightarrow> panic + 's"
  where
  "Walk walker (Node d cs) s =
     (case walker (Node d cs) True s of
        Inl p \<Rightarrow> Inl p
      | Inr (status, s1) \<Rightarrow>
          if status = WalkStop then Inr s1
          else
            (case (if status \<noteq> WalkSkipChildren then WalkChildren walker cs s1 else Inr s1) of
               Inl p \<Rightarrow> Inl p
             | Inr s2 \<Rightarrow>
                 (case walker (Node d cs) False s2 of
                    Inl p \<Rightarrow> Inl p
                  | Inr (status', s3) \<Rightarrow> Inr s3)))"
| "WalkChildren walker [] s = Inr s"
| "WalkChildren walker (c # cs) s =
     (case Walk walker c s of Inl p \<Rightarrow> Inl p | Inr s' \<Rightarrow> WalkChildren walker cs s')"

subsection \<open>References\<close>

record Ref =
  ID :: string
  DefBlockID :: string
  DefBlockParentID :: string
  DefBlockRootID :: string
  DefBlockPath :: string
  BlockID :: string
  RootID :: string
  Box :: string
  Path :: string
  Content :: string
  Markdown :: string
  Type :: string

record FileAnnotationRef =
  ID :: string
  FilePath :: string
  AnnotationID :: string
  BlockID :: string
  RootID :: string
  Box :: string
  Path :: string
  Content :: string
  Type :: string

fun isRepeatedRef :: "Ref list \<Rightarrow> Ref \<Rightarrow> bool" where
  "isRepeatedRef [] ref = False"
| "isRepeatedRef (r # refs) ref =
     (if Ref.DefBlockID r = Ref.DefBlockID ref \<and> Ref.BlockID r = Ref.BlockID ref then True
      else isRepeatedRef refs ref)"

text \<open>The location of the defining block, from the block-location index; the three
  fields stay empty when the block is not indexed.\<close>

definition defBlockLocation :: "env \<Rightarrow> string \<Rightarrow> string \<times> string \<times> string" where
  "defBlockLocation e defBlockID =
     (case GetBlockTree e defBlockID of
        None \<Rightarrow> ([], [], [])
      | Some defBlock \<Rightarrow>
          (BlockTree.ParentID defBlock, BlockTree.RootID defBlock, BlockTree.Path defBlock))"

text \<open>\<open>buildRef\<close> renders the node with the single text mark type \<open>block-ref\<close> and puts
  the node's own type back.\<close>

definition buildRef :: "env \<Rightarrow> Tree \<Rightarrow> Node \<Rightarrow> xstate \<Rightarrow> panic + (Ref \<times> xstate)" where
  "buildRef e tree refNode xs =
     (let n = data refNode;
          markdown = ExportNodeStdMd e (Node (n\<lparr>TextMarkType := ''block-ref''\<rparr>) (children refNode));
          (defBlockID, text, subtype) = GetBlockRef e n;
          (defBlockParentID, defBlockRootID, defBlockPath) = defBlockLocation e defBlockID;
          (newID, xs') = mint e xs
      in case ParentBlock n of
           None \<Rightarrow> Inl NilPointerDereference
         | Some parentBlockID \<Rightarrow>
             Inr (\<lparr>Ref.ID = newID, Ref.DefBlockID = defBlockID,
                   Ref.DefBlockParentID = defBlockParentID,
                   Ref.DefBlockRootID = defBlockRootID, Ref.DefBlockPath = defBlockPath,
                   Ref.BlockID = parentBlockID, Ref.RootID = Tree.ID tree,
                   Ref.Box = Tree.Box tree, Ref.Path = Tree.Path tree, Ref.Content = text,
                   Ref.Markdown = markdown, Ref.Type = TypeAbbr e (NodeData.Type n)\<rparr>, xs'))"

definition getEmbedRef :: "env \<Rightarrow> Node \<Rightarrow> string" where
  "getEmbedRef e embedNode = GetEmbedBlockRef e (data embedNode)"

definition buildEmbedRef :: "env \<Rightarrow> Tree \<Rightarrow> Node \<Rightarrow> xstate \<Rightarrow> Ref \<times> xstate" where
  "buildEmbedRef e tree embedNode xs =
     (let n = data embedNode;
          defBlockID = getEmbedRef e embedNode;
          (defBlockParentID, defBlockRootID, defBlockPath) = defBlockLocation e defBlockID;
          (newID, xs') = mint e xs
      in (\<lparr>Ref.ID = newID, Ref.DefBlockID = defBlockID,
            Ref.DefBlockParentID = defBlockParentID,
            Ref.DefBlockRootID = defBlockRootID, Ref.DefBlockPath = defBlockPath,
            Ref.BlockID = NodeData.ID n, Ref.RootID = Tree.ID tree,
            Ref.Box = Tree.Box tree, Ref.Path = Tree.Path tree, Ref.Content = [],
            Ref.Markdown = [], Ref.Type = TypeAbbr e (NodeData.Type n)\<rparr>, xs'))"

text \<open>The variables the walker of \<open>refsFromTree\<close> closes over.\<close>

record refs_acc =
  refs :: "Ref list"
  fileAnnotationRefs :: "FileAnnotationRef list"
  xst :: xstate

definition refsWalker ::
  "env \<Rightarrow> Tree \<Rightarrow> Node \<Rightarrow> bool \<Rightarrow> refs_acc \<Rightarrow> panic + (WalkStatus \<times> refs_acc)" where
  "refsWalker e tree node entering st =
     (let n = data node in
      if entering then Inr (WalkContinue, st)
      else if IsBlockRef e n then
        (case buildRef e tree node (xst st) of
           Inl p \<Rightarrow> Inl p
         | Inr (ref, xs') \<Rightarrow>
             Inr (WalkContinue,
                  if \<not> isRepeatedRef (refs st) ref
                  then st\<lparr>refs := refs st @ [ref], xst := xs'\<rparr>
                  else st\<lparr>xst := xs'\<rparr>))
      else if IsFileAnnotationRef e n then
        (let pathID = TextMarkFileAnnotationRefID n;
             idx = LastIndex pathID CHR ''/''
         in if - 1 = idx then Inr (WalkContinue, st)
            else
              (let filePath = take (nat idx) pathID;
                   annotationID = drop (nat (idx + 1)) pathID;
                   anchor = TextMarkTextContent n;
                   text = (if [] \<noteq> anchor then anchor else filePath);
                   (newID, xs') = mint e (xst st)
               in case ParentBlock n of
                    None \<Rightarrow> Inl NilPointerDereference
                  | Some parentBlockID \<Rightarrow>
                      Inr (WalkContinue,
                           st\<lparr>fileAnnotationRefs := fileAnnotationRefs st @
                                 [\<lparr>FileAnnotationRef.ID = newID,
                                   FileAnnotationRef.FilePath = filePath,
                                   FileAnnotationRef.AnnotationID = annotationID,
                                   FileAnnotationRef.BlockID = parentBlockID,
                                   FileAnnotationRef.RootID = Tree.ID tree,
                                   FileAnnotationRef.Box = Tree.Box tree,
                                   FileAnnotationRef.Path = Tree.Path tree,
                                   FileAnnotationRef.Content = text,
                                   FileAnnotationRef.Type = TypeAbbr e (NodeData.Type n)\<rparr>],
                               xst := xs'\<rparr>)))
      else if IsEmbedBlockRef e n then
        (let (ref, xs') = buildEmbedRef e tree node (xst st)
         in Inr (WalkContinue,
                 if \<not> isRepeatedRef (refs st) ref
                 then st\<lparr>refs := refs st @ [ref], xst := xs'\<rparr>
                 else st\<lparr>xst := xs'\<rparr>))
      else Inr (WalkContinue, st))"

definition refsFromTree ::
  "env \<Rightarrow> Tree \<Rightarrow> xstate \<Rightarrow> panic + ((Ref list \<times> FileAnnotationRef list) \<times> xstate)" where
  "refsFromTree e tree xs =
     (case Walk (refsWalker e tree) (Root tree)
             \<lparr>refs = [], fileAnnotationRefs = [], xst = xs\<rparr> of
        Inl p \<Rightarrow> Inl p
      | Inr st \<Rightarrow> Inr ((refs st, fileAnnotationRefs st), xst st))"

subsection \<open>Attributes\<close>

record Attribute =
  ID :: string
  Name :: string
  Value :: string
  Type :: string
  BlockID :: string
  RootID :: string
  Box :: string
  Path :: string

definition isAttr :: "string \<Rightarrow> bool" where
  "isAttr name =
     (HasPrefix name ''custom-'' \<or> ''name'' = name \<or> ''alias'' = name \<or> ''memo'' = name
      \<or> ''bookmark'' = name \<or> ''fold'' = name \<or> ''heading-fold'' = name \<or> ''style'' = name)"

text \<open>
  The loop \<open>for name, val := range attrs\<close>, which \<open>buildAttributeFromNode\<close> has twice and
  \<open>buildBlockFromNode\<close> once: the three differ in the type flag and in the block that owns
  the attribute. The owning block is \<open>None\<close> when its pointer is nil; the loop panics when
  it first reads its ID, that is at the first name that passes \<open>isAttr\<close>.
\<close>

fun attrsLoop ::
  "env \<Rightarrow> string \<Rightarrow> string option \<Rightarrow> string \<Rightarrow> string \<Rightarrow> string \<Rightarrow> (string \<times> string) list
     \<Rightarrow> Attribute list \<Rightarrow> xstate \<Rightarrow> panic + (Attribute list \<times> xstate)" where
  "attrsLoop e typ blockID rootID boxID p [] attributes xs = Inr (attributes, xs)"
| "attrsLoop e typ blockID rootID boxID p (kv # attrs) attributes xs =
     (if \<not> isAttr (fst kv) then attrsLoop e typ blockID rootID boxID p attrs attributes xs
      else
        (let (newID, xs') = mint e xs
         in case blockID of
              None \<Rightarrow> Inl NilPointerDereference
            | Some bid \<Rightarrow>
                attrsLoop e typ blockID rootID boxID p attrs
                  (attributes @
                     [\<lparr>Attribute.ID = newID, Attribute.Name = fst kv,
                       Attribute.Value = snd kv, Attribute.Type = typ,
                       Attribute.BlockID = bid, Attribute.RootID = rootID,
                       Attribute.Box = boxID, Attribute.Path = p\<rparr>])
                  xs'))"

definition buildAttributeFromNode ::
  "env \<Rightarrow> NodeData \<Rightarrow> string \<Rightarrow> string \<Rightarrow> string \<Rightarrow> xstate
     \<Rightarrow> panic + (Attribute list \<times> xstate)" where
  "buildAttributeFromNode e n rootID boxID p xs =
     (case NodeData.Type n of
        NodeKramdownSpanIAL \<Rightarrow>
          attrsLoop e ''s'' (ParentBlock n) rootID boxID p (IALValMap e n) [] xs
      | NodeKramdownBlockIAL \<Rightarrow>
          attrsLoop e ''b'' (Some (NodeData.ID n)) rootID boxID p (IALValMap e n) [] xs
      | _ \<Rightarrow> Inr ([], xs))"

subsection \<open>Blocks\<close>

record Block =
  ID :: string
  ParentID :: string
  RootID :: string
  Hash :: string
  Box :: string
  Path :: string
  HPath :: string
  Name :: string
  Alias :: string
  Memo :: string
  Tag :: string
  Content :: string
  FContent :: string
  Markdown :: string
  Length :: int
  Type :: string
  SubType :: string
  IAL :: string
  Sort :: int
  Created :: string
  Updated :: string

text \<open>\<open>tagFromNode\<close>: the tags of a document come from its attribute \<open>tags\<close>, those of
  another node from the text marks of type \<open>tag\<close> below it. The buffer \<open>tagBuilder\<close> is
  the state of the loop and of the walk.\<close>

fun docTags :: "env \<Rightarrow> string list \<Rightarrow> string \<Rightarrow> string" where
  "docTags e [] tagBuilder = tagBuilder"
| "docTags e (t # tags) tagBuilder =
     (let t' = TrimSpace e t
      in if [] = t' then docTags e tags tagBuilder
         else docTags e tags (tagBuilder @ ''#'' @ t' @ ''# ''))"

definition tagWalker :: "env \<Rightarrow> Node \<Rightarrow> bool \<Rightarrow> string \<Rightarrow> panic + (WalkStatus \<times> string)" where
  "tagWalker e n entering tagBuilder =
     (if \<not> entering then Inr (WalkContinue, tagBuilder)
      else if IsTextMarkType (data n) ''tag''
      then Inr (WalkContinue, tagBuilder @ ''#'' @ NodeContent e n @ ''# '')
      else Inr (WalkContinue, tagBuilder))"

definition tagFromNode :: "env \<Rightarrow> Node \<Rightarrow> panic + string" where
  "tagFromNode e node =
     (if NodeDocument = NodeData.Type (data node)
      then
        (let tagIAL = UnescapeString e (IALAttr (data node) ''tags'');
             tags = Split tagIAL CHR '',''
         in Inr (TrimSpace e (docTags e tags [])))
      else
        (case Walk (tagWalker e) node [] of
           Inl p \<Rightarrow> Inl p
         | Inr tagBuilder \<Rightarrow> Inr (TrimSpace e tagBuilder)))"

text \<open>\<open>if !treenode.IsNodeOCRed(n) { util.PushNodeOCRQueue(n) }\<close>.\<close>

definition pushUnlessOCRed :: "env \<Rightarrow> Node \<Rightarrow> xstate \<Rightarrow> xstate" where
  "pushUnlessOCRed e n xs =
     (if \<not> IsNodeOCRed e n then xs\<lparr>ocr_queue := ocr_queue xs @ [n]\<rparr> else xs)"

text \<open>\<open>parentID = n.Parent.ID\<close>, replaced by the heading's ID when the node stands below a
  heading.\<close>

definition parentIDOf :: "NodeData \<Rightarrow> panic + string" where
  "parentIDOf n =
     (case Parent n of
        None \<Rightarrow> Inl NilPointerDereference
      | Some parentID \<Rightarrow>
          Inr (case HeadingParent n of None \<Rightarrow> parentID | Some h \<Rightarrow> h))"

text \<open>
  The three branches of \<open>buildBlockFromNode\<close> that fill \<open>content\<close>, \<open>fcontent\<close>,
  \<open>markdown\<close>, \<open>parentID\<close> and \<open>length\<close> (in this order in the result; \<open>len\<close>
  stands for the variable \<open>length\<close>), before the zero-width spaces are stripped.
\<close>

definition blockTexts ::
  "env \<Rightarrow> bool \<Rightarrow> Node \<Rightarrow> xstate
     \<Rightarrow> panic + ((string \<times> string \<times> string \<times> string \<times> int) \<times> xstate)" where
  "blockTexts e indexAssetPath node xs =
     (let n = data node in
      if NodeDocument = NodeData.Type n then
        (let content = IALAttr n ''title'';
             fcontent = content;
             len = RuneCountInString fcontent
         in Inr ((content, fcontent, [], [], len), xs))
      else if IsContainerBlock e n then
        (let markdown = ExportNodeStdMd e node;
             xs1 = pushUnlessOCRed e node xs;
             content = NodeStaticContent e node indexAssetPath;
             fc = FirstLeafBlock e node;
             xs2 = pushUnlessOCRed e fc xs1;
             fcontent = NodeStaticContent e fc False
         in case parentIDOf n of
              Inl p \<Rightarrow> Inl p
            | Inr parentID \<Rightarrow>
                Inr ((content, fcontent, markdown, parentID, RuneCountInString fcontent), xs2))
      else
        (let markdown = ExportNodeStdMd e node;
             xs1 = pushUnlessOCRed e node xs;
             content = NodeStaticContent e node indexAssetPath
         in case parentIDOf n of
              Inl p \<Rightarrow> Inl p
            | Inr parentID \<Rightarrow>
                Inr ((content, [], markdown, parentID, RuneCountInString content), xs1)))"

definition buildBlockFromNode ::
  "env \<Rightarrow> bool \<Rightarrow> Node \<Rightarrow> Tree \<Rightarrow> xstate \<Rightarrow> panic + ((Block \<times> Attribute list) \<times> xstate)" where
  "buildBlockFromNode e indexAssetPath node tree xs =
     (let n = data node;
          boxID = Tree.Box tree;
          p = Tree.Path tree;
          rootID = NodeData.ID (data (Root tree));
          name = UnescapeString e (IALAttr n ''name'');
          alias = UnescapeString e (IALAttr n ''alias'');
          memo = UnescapeString e (IALAttr n ''memo'')
      in case tagFromNode e node of
           Inl pn \<Rightarrow> Inl pn
         | Inr tag \<Rightarrow>
             (let ialContent = IALStr e n;
                  hash = NodeHash e node tree
              in case blockTexts e indexAssetPath node xs of
                   Inl pn \<Rightarrow> Inl pn
                 | Inr ((content0, fcontent0, markdown0, parentID, len), xs1) \<Rightarrow>
                     (let fcontent = ReplaceAll fcontent0 Zwsp [];
                          content = ReplaceAll content0 Zwsp [];
                          markdown = ReplaceAll markdown0 Zwsp [];
                          block =
                            \<lparr>Block.ID = NodeData.ID n, Block.ParentID = parentID,
                             Block.RootID = rootID, Block.Hash = hash, Block.Box = boxID,
                             Block.Path = p, Block.HPath = Tree.HPath tree,
                             Block.Name = name, Block.Alias = alias, Block.Memo = memo,
                             Block.Tag = tag, Block.Content = content,
                             Block.FContent = fcontent, Block.Markdown = markdown,
                             Block.Length = len,
                             Block.Type = TypeAbbr e (NodeData.Type n),
                             Block.SubType = SubTypeAbbr e n, Block.IAL = ialContent,
                             Block.Sort = nSort n,
                             Block.Created = TimeFromID e (NodeData.ID n),
                             Block.Updated = IALAttr n ''updated''\<rparr>
                      in case attrsLoop e ''b'' (Some (NodeData.ID n)) rootID boxID p
                                (IAL2Map e (KramdownIAL n)) [] xs1 of
                           Inl pn \<Rightarrow> Inl pn
                         | Inr (attributes, xs2) \<Rightarrow> Inr ((block, attributes), xs2))))"

subsection \<open>A small document for the examples\<close>

text \<open>One choice of the collaborators: identifiers \<open>i\<close>, \<open>ii\<close>, ...; a node renders to its
  field \<open>TextMarkTextContent\<close>; a block reference names its target in the attribute
  \<open>ref\<close>; nothing is indexed yet.\<close>

definition example_env :: env where
  "example_env =
     \<lparr>NewNodeID = (\<lambda>k. replicate (Suc k) CHR ''i''),
      UnescapeString = (\<lambda>s. s),
      TrimSpace = (\<lambda>s. s),
      TimeFromID = take 14,
      TypeAbbr = (\<lambda>t. if t = NodeDocument then ''d'' else if t = NodeParagraph then ''p''
                        else if t = NodeTextMark then ''textmark'' else ''x''),
      SubTypeAbbr = (\<lambda>n. []),
      IALStr = (\<lambda>n. []),
      IALValMap = KramdownIAL,
      IAL2Map = (\<lambda>kvs. kvs),
      NodeHash = (\<lambda>n t. []),
      ExportNodeStdMd = (\<lambda>n. TextMarkTextContent (data n)),
      NodeStaticContent = (\<lambda>n b. TextMarkTextContent (data n)),
      NodeContent = (\<lambda>n. TextMarkTextContent (data n)),
      FirstLeafBlock = (\<lambda>n. n),
      IsNodeOCRed = (\<lambda>n. True),
      IsContainerBlock = (\<lambda>n. NodeData.Type n \<in> {NodeList, NodeListItem, NodeBlockquote}),
      GetBlockTree = (\<lambda>i. None),
      IsBlockRef = (\<lambda>n. IsTextMarkType n ''block-ref''),
      IsFileAnnotationRef = (\<lambda>n. IsTextMarkType n ''file-annotation-ref''),
      IsEmbedBlockRef = (\<lambda>n. False),
      GetBlockRef = (\<lambda>n. (IALAttr n ''ref'', TextMarkTextContent n, ''s'')),
      GetEmbedBlockRef = (\<lambda>n. [])\<rparr>"

definition xstate0 :: xstate where
  "xstate0 = \<lparr>minted = 0, ocr_queue = []\<rparr>"

text \<open>A block reference to \<open>target\<close> inside the paragraph \<open>p1\<close>.\<close>

definition block_ref_to :: "string \<Rightarrow> Node" where
  "block_ref_to target =
     Node (blank_node\<lparr>NodeData.Type := NodeTextMark, TextMarkType := ''block-ref'',
             KramdownIAL := [(''ref'', target)], TextMarkTextContent := ''anchor'',
             Parent := Some ''p1'', ParentBlock := Some ''p1''\<rparr>) []"

text \<open>A file annotation reference inside the paragraph \<open>p1\<close> with the given key.\<close>

definition annotation_ref :: "string \<Rightarrow> Node" where
  "annotation_ref key =
     Node (blank_node\<lparr>NodeData.Type := NodeTextMark, TextMarkType := ''file-annotation-ref'',
             TextMarkFileAnnotationRefID := key,
             Parent := Some ''p1'', ParentBlock := Some ''p1''\<rparr>) []"

definition example_paragraph :: "Node list \<Rightarrow> Node" where
  "example_paragraph inlines =
     Node (blank_node\<lparr>NodeData.Type := NodeParagraph, NodeData.ID := ''p1'',
             KramdownIAL := [(''id'', ''p1''), (''custom-rank'', ''3''), (''updated'', ''2024''),
                             (''memo'', ''m'')],
             TextMarkTextContent := ''a'' @ Zwsp @ ''b'',
             Parent := Some ''d1'', ParentBlock := Some ''d1''\<rparr>) inlines"

definition example_tree :: "Node list \<Rightarrow> Tree" where
  "example_tree inlines =
     \<lparr>Root = Node (blank_node\<lparr>NodeData.Type := NodeDocument, NodeData.ID := ''d1'',
                      KramdownIAL := [(''id'', ''d1''), (''title'', ''doc'')]\<rparr>)
               [example_paragraph inlines],
      Tree.ID = ''d1'', Tree.Box = ''box1'', Tree.Path = ''/d1.sy'', Tree.HPath = ''/doc''\<rparr>"

text \<open>An attribute list node (of the span or of the block kind) of the paragraph
  \<open>p1\<close>.\<close>

definition example_ial_node :: "NodeType \<Rightarrow> NodeData" where
  "example_ial_node t =
     blank_node\<lparr>NodeData.Type := t, NodeData.ID := ''p1'',
       KramdownIAL := [(''id'', ''p1''), (''custom-rank'', ''3''), (''updated'', ''2024''),
                       (''memo'', ''m'')],
       Parent := Some ''p1'', ParentBlock := Some ''p1''\<rparr>"

subsection \<open>The store\<close>

text \<open>
  A value of a column, a row (the columns have no declared type, so a row is a map from
  column names to values) and a table. The two full-text tables are virtual tables of the
  module \<open>fts5\<close>, with the columns it does not index and its tokenizer.
\<close>

datatype sqlval = Null | Text string | Integer int

type_synonym row = "string \<rightharpoonup> sqlval"

datatype table_kind = Ordinary | FTS5 "string list" string

record table =
  columns :: "string list"
  kind :: table_kind
  rows :: "row list"

record store =
  tables :: "string \<rightharpoonup> table"
  indexes :: "string \<rightharpoonup> string \<times> string"

definition empty_store :: store where
  "empty_store = \<lparr>tables = Map.empty, indexes = Map.empty\<rparr>"

text \<open>
  The statements the package executes, by their form:
  \<^item> \<open>DROP TABLE IF EXISTS t\<close>
  \<^item> \<open>CREATE TABLE t (columns)\<close>
  \<^item> \<open>CREATE VIRTUAL TABLE t USING fts5(columns, tokenize="...")\<close>, with the columns
    marked \<open>UNINDEXED\<close>
  \<^item> \<open>CREATE INDEX i ON t(c)\<close>
  \<^item> \<open>DELETE FROM t WHERE c = ?\<close> with the bound value
  \<^item> \<open>UPDATE t SET c1 = ?, ... WHERE c = ?\<close> with the bound values
\<close>

datatype stmt =
    DropTableIfExists string
  | CreateTable string "string list"
  | CreateVirtualTable string "string list" "string list" string
  | CreateIndex string string string
  | DeleteWhere string string sqlval
  | UpdateWhere string "(string \<times> sqlval) list" string sqlval

text \<open>\<open>c = ?\<close> holds for a row when the column has the bound value; a comparison with
  \<open>NULL\<close> never holds.\<close>

definition sql_eq :: "sqlval option \<Rightarrow> sqlval \<Rightarrow> bool" where
  "sql_eq x v = (x = Some v \<and> v \<noteq> Null)"

definition assign :: "(string \<times> sqlval) list \<Rightarrow> row \<Rightarrow> row" where
  "assign sets r = fold (\<lambda>kv r'. r'(fst kv \<mapsto> snd kv)) sets r"

text \<open>What a statement does to the store when the engine runs it: the new store, or the
  engine's error message.\<close>

fun run_stmt :: "stmt \<Rightarrow> store \<Rightarrow> string + store" where
  "run_stmt (DropTableIfExists t) s =
     Inr (s\<lparr>tables := (tables s)(t := None),
            indexes := (\<lambda>i. case indexes s i of
                               None \<Rightarrow> None
                             | Some tc \<Rightarrow> if fst tc = t then None else Some tc)\<rparr>)"
| "run_stmt (CreateTable t cols) s =
     (if tables s t \<noteq> None then Inl (''table '' @ t @ '' already exists'')
      else Inr (s\<lparr>tables := (tables s)(t \<mapsto> \<lparr>columns = cols, kind = Ordinary, rows = []\<rparr>)\<rparr>))"
| "run_stmt (CreateVirtualTable t cols unindexed tokenize) s =
     (if tables s t \<noteq> None then Inl (''table '' @ t @ '' already exists'')
      else Inr (s\<lparr>tables := (tables s)(t \<mapsto>
                  \<lparr>columns = cols, kind = FTS5 unindexed tokenize, rows = []\<rparr>)\<rparr>))"
| "run_stmt (CreateIndex i t c) s =
     (if indexes s i \<noteq> None then Inl (''index '' @ i @ '' already exists'')
      else
        (case tables s t of
           None \<Rightarrow> Inl (''no such table: main.'' @ t)
         | Some tb \<Rightarrow>
             if c \<notin> set (columns tb) then Inl (''no such column: '' @ c)
             else Inr (s\<lparr>indexes := (indexes s)(i \<mapsto> (t, c))\<rparr>)))"
| "run_stmt (DeleteWhere t c v) s =
     (case tables s t of
        None \<Rightarrow> Inl (''no such table: '' @ t)
      | Some tb \<Rightarrow>
          if c \<notin> set (columns tb) then Inl (''no such column: '' @ c)
          else Inr (s\<lparr>tables := (tables s)(t \<mapsto>
                      tb\<lparr>rows := filter (\<lambda>r. \<not> sql_eq (r c) v) (rows tb)\<rparr>)\<rparr>))"
| "run_stmt (UpdateWhere t sets c v) s =
     (case tables s t of
        None \<Rightarrow> Inl (''no such table: '' @ t)
      | Some tb \<Rightarrow>
          if \<not> set (c # map fst sets) \<subseteq> set (columns tb) then Inl ''no such column''
          else Inr (s\<lparr>tables := (tables s)(t \<mapsto>
                      tb\<lparr>rows := map (\<lambda>r. if sql_eq (r c) v then assign sets r else r)
                                      (rows tb)\<rparr>)\<rparr>))"

subsection \<open>The process and its environment\<close>

text \<open>Calls to the collaborators whose code is outside the package (caches, the task
  queue, the block tree, the event bus, the boot progress, the log).\<close>

datatype event =
    ClearCache | DisableCache | EnableCache | ClearQueue | IncBootProgress
  | PushClearProgress | InitBlockTree bool | LogDatabaseSize | FreeOSMemoryAndGC
  | Publish string "(string \<times> string) list" "string list"
  | LogInfo | LogError | LogFatal
  | CloseDB | OpenDB | RemoveAll string bool

text \<open>
  The state of the process and of what it acts on:
  \<^item> \<open>db\<close>, the package variable: \<open>None\<close> is nil, \<open>Some True\<close> an open handle and
    \<open>Some False\<close> a closed one;
  \<^item> \<open>disk\<close>, the contents of the primary store, and \<open>files\<close>, the paths that exist;
  \<^item> \<open>tx\<close>, the contents at the begin of the running transaction (\<open>None\<close> when no
    transaction runs);
  \<^item> \<open>caseSensitive\<close>, the package variable;
  \<^item> what the environment answers to the calls that can fail, in the order of the
    calls: \<open>exec_faults\<close> to the execution of statements, \<open>conn_faults\<close> to
    \<open>sql.Open\<close> and \<open>db.Close\<close>, \<open>fs_faults\<close> to \<open>os.RemoveAll\<close>. \<open>None\<close>, and an
    exhausted list, is success; \<open>Some msg\<close> is the error with that message;
  \<^item> \<open>trace\<close>, the calls to collaborators so far, and with them the calls
    \<open>db.Close\<close>, \<open>sql.Open\<close> and \<open>os.RemoveAll\<close> (with the path, and whether the
    removal succeeded).
\<close>

record world =
  db :: "bool option"
  disk :: store
  files :: "string set"
  tx :: "store option"
  caseSensitive :: bool
  exec_faults :: "string option list"
  conn_faults :: "string option list"
  fs_faults :: "string option list"
  trace :: "event list"

text \<open>The constants of \<open>util\<close> and \<open>logging\<close> the package reads, and the digest
  \<open>fmt.Sprintf("%x", sha256.Sum256(...))\<close>.\<close>

record settings =
  DBPath :: string
  DatabaseVer :: string
  ExitCodeReadOnlyDatabase :: int
  Sum256Hex :: "string \<Rightarrow> string"

text \<open>The store is opened in WAL mode (\<open>_journal_mode=WAL\<close> in the data source name of
  \<open>initDBConnection\<close>): while a connection is open SQLite keeps two files beside the
  store's file, and it removes them when the last connection is closed.\<close>

definition side_files :: "settings \<Rightarrow> string set" where
  "side_files u = {DBPath u @ ''-shm'', DBPath u @ ''-wal''}"

definition store_files :: "settings \<Rightarrow> string set" where
  "store_files u = insert (DBPath u) (side_files u)"

text \<open>A call returns to its caller, or the process has exited with a code.\<close>

datatype 'a run = Return 'a world | Exit int world

definition emit :: "event list \<Rightarrow> world \<Rightarrow> world" where
  "emit evs w = w\<lparr>trace := trace w @ evs\<rparr>"

text \<open>\<open>logging.LogFatalf(code, ...)\<close> logs and exits.\<close>

definition LogFatalf :: "int \<Rightarrow> world \<Rightarrow> 'a run" where
  "LogFatalf code w = Exit code (emit [LogFatal] w)"

text \<open>The next answer of the environment to a call of each kind.\<close>

definition next_fault :: "string option list \<Rightarrow> string option" where
  "next_fault fs = (case fs of [] \<Rightarrow> None | f # rest \<Rightarrow> f)"

text \<open>
  \<open>tx.Exec\<close> and \<open>db.Exec\<close>. A statement that fails leaves the store as it was. A
  statement that runs has a connection: the store's file is in place, created if need be,
  and so are the two files of the WAL mode.
\<close>

definition tx_Exec :: "settings \<Rightarrow> stmt \<Rightarrow> world \<Rightarrow> string option \<times> world" where
  "tx_Exec u st w =
     (let w1 = w\<lparr>exec_faults := tl (exec_faults w)\<rparr> in
      case next_fault (exec_faults w) of
        Some msg \<Rightarrow> (Some msg, w1)
      | None \<Rightarrow>
          (case tx w of
             None \<Rightarrow> (Some ''sql: transaction has already been committed or rolled back'', w1)
           | Some snapshot \<Rightarrow>
               (case run_stmt st (disk w) of
                  Inl msg \<Rightarrow> (Some msg, w1)
                | Inr s' \<Rightarrow> (None, w1\<lparr>disk := s', files := files w \<union> store_files u\<rparr>))))"

definition db_Exec :: "settings \<Rightarrow> stmt \<Rightarrow> world \<Rightarrow> string option \<times> world" where
  "db_Exec u st w =
     (let w1 = w\<lparr>exec_faults := tl (exec_faults w)\<rparr> in
      case next_fault (exec_faults w) of
        Some msg \<Rightarrow> (Some msg, w1)
      | None \<Rightarrow>
          if db w \<noteq> Some True then (Some ''sql: database is closed'', w1)
          else
            (case run_stmt st (disk w) of
               Inl msg \<Rightarrow> (Some msg, w1)
             | Inr s' \<Rightarrow> (None, w1\<lparr>disk := s', files := files w \<union> store_files u\<rparr>)))"

text \<open>\<open>tx.Rollback()\<close>: the contents are those of the begin of the transaction.\<close>

definition tx_Rollback :: "world \<Rightarrow> world" where
  "tx_Rollback w = (case tx w of None \<Rightarrow> w | Some snapshot \<Rightarrow> w\<lparr>disk := snapshot, tx := None\<rparr>)"

text \<open>\<open>os.RemoveAll(path)\<close>. The contents of the store live in the file \<open>DBPath\<close>: they
  are gone when that file is removed. A removal that fails removes nothing.\<close>

definition os_RemoveAll :: "settings \<Rightarrow> string \<Rightarrow> world \<Rightarrow> string option \<times> world" where
  "os_RemoveAll u path w =
     (let w1 = w\<lparr>fs_faults := tl (fs_faults w)\<rparr> in
      case next_fault (fs_faults w) of
        Some msg \<Rightarrow> (Some msg, emit [RemoveAll path False] w1)
      | None \<Rightarrow>
          (None, emit [RemoveAll path True]
                   (w1\<lparr>files := files w - {path},
                       disk := (if path = DBPath u then empty_store else disk w)\<rparr>)))"

definition removeDatabaseFile :: "settings \<Rightarrow> world \<Rightarrow> string option \<times> world" where
  "removeDatabaseFile u w =
     (case os_RemoveAll u (DBPath u) w of
        (Some err, w1) \<Rightarrow> (Some err, w1)
      | (None, w1) \<Rightarrow>
          (case os_RemoveAll u (DBPath u @ ''-shm'') w1 of
             (Some err, w2) \<Rightarrow> (Some err, w2)
           | (None, w2) \<Rightarrow>
               (case os_RemoveAll u (DBPath u @ ''-wal'') w2 of
                  (Some err, w3) \<Rightarrow> (Some err, w3)
                | (None, w3) \<Rightarrow> (None, w3))))"

text \<open>\<open>closeDatabase\<close>. \<open>db.Close\<close> closes the connections of the handle, also when it
  returns an error; when it closes an open handle without error, the two files of the WAL
  mode are gone. (An open handle is taken to have a connection.)\<close>

definition closeDatabase :: "settings \<Rightarrow> world \<Rightarrow> string option \<times> world" where
  "closeDatabase u w =
     (if db w = None then (None, w)
      else (next_fault (conn_faults w),
            emit [CloseDB, FreeOSMemoryAndGC]
              (w\<lparr>db := Some False, conn_faults := tl (conn_faults w),
                 files := (if db w = Some True \<and> next_fault (conn_faults w) = None
                           then files w - side_files u else files w)\<rparr>)))"

definition malformed :: string where
  "malformed = ''database disk image is malformed''"

definition execStmtTx :: "settings \<Rightarrow> stmt \<Rightarrow> world \<Rightarrow> (string option) run" where
  "execStmtTx u st w =
     (case tx_Exec u st w of
        (None, w1) \<Rightarrow> Return None w1
      | (Some err, w1) \<Rightarrow>
          if Contains err malformed then
            (let w2 = tx_Rollback w1;
                 w3 = snd (closeDatabase u w2);
                 w4 = snd (removeDatabaseFile u w3)
             in LogFatalf (ExitCodeReadOnlyDatabase u) w4)
          else Return (Some err) (emit [LogError] w1))"

text \<open>\<open>if err = f(); err != nil { return }\<close>: the rest runs when the call returned no
  error.\<close>

fun andThen :: "(string option) run \<Rightarrow> (world \<Rightarrow> (string option) run) \<Rightarrow> (string option) run" where
  "andThen (Return None w) rest = rest w"
| "andThen (Return (Some err) w) rest = Return (Some err) w"
| "andThen (Exit code w) rest = Exit code w"

subsection \<open>Deleting and renaming\<close>

definition deleteByRootID ::
  "settings \<Rightarrow> string \<Rightarrow> (string \<times> string) list \<Rightarrow> world \<Rightarrow> (string option) run" where
  "deleteByRootID u rootID context w =
     andThen (execStmtTx u (DeleteWhere ''blocks'' ''root_id'' (Text rootID)) w) (\<lambda>w.
     andThen (execStmtTx u (DeleteWhere ''blocks_fts'' ''root_id'' (Text rootID)) w) (\<lambda>w.
     andThen (if \<not> caseSensitive w
              then execStmtTx u
                     (DeleteWhere ''blocks_fts_case_insensitive'' ''root_id'' (Text rootID)) w
              else Return None w) (\<lambda>w.
     andThen (execStmtTx u (DeleteWhere ''spans'' ''root_id'' (Text rootID)) w) (\<lambda>w.
     andThen (execStmtTx u (DeleteWhere ''assets'' ''root_id'' (Text rootID)) w) (\<lambda>w.
     andThen (execStmtTx u (DeleteWhere ''refs'' ''root_id'' (Text rootID)) w) (\<lambda>w.
     andThen (execStmtTx u (DeleteWhere ''file_annotation_refs'' ''root_id'' (Text rootID)) w) (\<lambda>w.
     andThen (execStmtTx u (DeleteWhere ''attributes'' ''root_id'' (Text rootID)) w) (\<lambda>w.
     Return None (emit [ClearCache, Publish ''EvtSQLDeleteBlocks'' context [rootID]] w)))))))))"


definition batchUpdateHPath ::
  "settings \<Rightarrow> Tree \<Rightarrow> (string \<times> string) list \<Rightarrow> world \<Rightarrow> (string option) run" where
  "batchUpdateHPath u tree context w =
     (let sets = [(''hpath'', Text (Tree.HPath tree))];
          rootID = Text (Tree.ID tree)
      in
     andThen (execStmtTx u (UpdateWhere ''blocks'' sets ''root_id'' rootID) w) (\<lambda>w.
     andThen (execStmtTx u (UpdateWhere ''blocks_fts'' sets ''root_id'' rootID) w) (\<lambda>w.
     andThen (if \<not> caseSensitive w
              then execStmtTx u
                     (UpdateWhere ''blocks_fts_case_insensitive'' sets ''root_id'' rootID) w
              else Return None w) (\<lambda>w.
     (let evtHash = take 7 (Sum256Hex u (Tree.ID tree))
      in Return None
           (emit [ClearCache, Publish ''EvtSQLUpdateBlocksHPaths'' context [''1'', evtHash]] w))))))"

subsection \<open>Opening and rebuilding the store\<close>

text \<open>
  Modelled from the spec: \<open>getDatabaseVer\<close> and \<open>setDatabaseVer\<close> are functions of the
  package outside the file. The specification has "a \<open>stat\<close> key/value table holding the
  schema version": the version is the value of the row of \<open>stat\<close> under one key (the
  name of the key is a choice of the model), empty when the table or the row is missing;
  setting it replaces that row. Reading it is a query through the handle: after it the
  store has a connection, and with it its files (nothing is read through a handle that is
  not open).
\<close>

definition database_ver_key :: string where
  "database_ver_key = ''siyuan_database_ver''"

definition stored_version :: "store \<Rightarrow> string" where
  "stored_version s =
     (case tables s ''stat'' of
        None \<Rightarrow> []
      | Some tb \<Rightarrow>
          (case filter (\<lambda>r. r ''key'' = Some (Text database_ver_key)) (rows tb) of
             [] \<Rightarrow> []
           | r # rs \<Rightarrow> (case r ''value'' of Some (Text v) \<Rightarrow> v | _ \<Rightarrow> [])))"

definition getDatabaseVer :: "settings \<Rightarrow> world \<Rightarrow> string \<times> world" where
  "getDatabaseVer u w =
     (if db w = Some True
      then (stored_version (disk w), w\<lparr>files := files w \<union> store_files u\<rparr>)
      else ([], w))"

definition setDatabaseVer :: "settings \<Rightarrow> world \<Rightarrow> world" where
  "setDatabaseVer u w =
     (case tables (disk w) ''stat'' of
        None \<Rightarrow> w
      | Some tb \<Rightarrow>
          w\<lparr>disk := (disk w)\<lparr>tables := (tables (disk w))(''stat'' \<mapsto>
                 tb\<lparr>rows := filter (\<lambda>r. r ''key'' \<noteq> Some (Text database_ver_key)) (rows tb)
                              @ [[''key'' \<mapsto> Text database_ver_key,
                                  ''value'' \<mapsto> Text (DatabaseVer u)]]\<rparr>)\<rparr>\<rparr>)"

text \<open>\<open>sql.Open\<close> gives an open handle, or no handle and an error. It connects to
  nothing yet: the files are as they were.\<close>

definition sql_Open :: "world \<Rightarrow> string option \<times> world" where
  "sql_Open w =
     (case next_fault (conn_faults w) of
        Some msg \<Rightarrow>
          (Some msg, emit [OpenDB] (w\<lparr>db := None, conn_faults := tl (conn_faults w)\<rparr>))
      | None \<Rightarrow>
          (None, emit [OpenDB] (w\<lparr>db := Some True, conn_faults := tl (conn_faults w)\<rparr>)))"

text \<open>\<open>initDBConnection\<close> closes a handle that is there and opens a new one; a failure
  to open is fatal. (The data source name and the sizes of the connection pool, which no
  function here reads, are not part of the state.)\<close>

definition initDBConnection :: "settings \<Rightarrow> world \<Rightarrow> unit run" where
  "initDBConnection u w =
     (let w1 = (if db w \<noteq> None then snd (closeDatabase u w) else w);
          w2 = emit [LogDatabaseSize] w1
      in case sql_Open w2 of
           (Some err, w3) \<Rightarrow> LogFatalf (ExitCodeReadOnlyDatabase u) w3
         | (None, w3) \<Rightarrow> Return () w3)"

text \<open>The columns of the tables, as the \<open>CREATE\<close> statements of \<open>initDBTables\<close> list
  them, and the columns of the full-text tables marked \<open>UNINDEXED\<close>.\<close>

definition blocks_columns :: "string list" where
  "blocks_columns =
     [''id'', ''parent_id'', ''root_id'', ''hash'', ''box'', ''path'', ''hpath'', ''name'',
      ''alias'', ''memo'', ''tag'', ''content'', ''fcontent'', ''markdown'', ''length'', ''type'',
      ''subtype'', ''ial'', ''sort'', ''created'', ''updated'']"

definition blocks_unindexed :: "string list" where
  "blocks_unindexed =
     [''id'', ''parent_id'', ''root_id'', ''hash'', ''box'', ''path'', ''markdown'', ''length'',
      ''type'', ''subtype'', ''sort'', ''created'', ''updated'']"

definition spans_columns :: "string list" where
  "spans_columns =
     [''id'', ''block_id'', ''root_id'', ''box'', ''path'', ''content'', ''markdown'', ''type'',
      ''ial'']"

definition assets_columns :: "string list" where
  "assets_columns =
     [''id'', ''block_id'', ''root_id'', ''box'', ''docpath'', ''path'', ''name'', ''title'',
      ''hash'']"

definition attributes_columns :: "string list" where
  "attributes_columns =
     [''id'', ''name'', ''value'', ''type'', ''block_id'', ''root_id'', ''box'', ''path'']"

definition refs_columns :: "string list" where
  "refs_columns =
     [''id'', ''def_block_id'', ''def_block_parent_id'', ''def_block_root_id'',
      ''def_block_path'', ''block_id'', ''root_id'', ''box'', ''path'', ''content'', ''markdown'',
      ''type'']"

definition file_annotation_refs_columns :: "string list" where
  "file_annotation_refs_columns =
     [''id'', ''file_path'', ''annotation_id'', ''block_id'', ''root_id'', ''box'', ''path'',
      ''content'', ''type'']"

text \<open>The statements of \<open>initDBTables\<close> in their order: those before the call of
  \<open>setDatabaseVer\<close> and those after it. Each is run by \<open>db.Exec\<close>, and an error of any
  of them is fatal.\<close>

definition stat_statements :: "stmt list" where
  "stat_statements =
     [DropTableIfExists ''stat'',
      CreateTable ''stat'' [''key'', ''value'']]"

definition schema_statements :: "stmt list" where
  "schema_statements =
     [DropTableIfExists ''blocks'',
      CreateTable ''blocks'' blocks_columns,
      CreateIndex ''idx_blocks_id'' ''blocks'' ''id'',
      CreateIndex ''idx_blocks_parent_id'' ''blocks'' ''parent_id'',
      CreateIndex ''idx_blocks_root_id'' ''blocks'' ''root_id'',
      DropTableIfExists ''blocks_fts'',
      CreateVirtualTable ''blocks_fts'' blocks_columns blocks_unindexed ''siyuan'',
      DropTableIfExists ''blocks_fts_case_insensitive'',
      CreateVirtualTable ''blocks_fts_case_insensitive'' blocks_columns blocks_unindexed
        ''siyuan case_insensitive'',
      DropTableIfExists ''spans'',
      CreateTable ''spans'' spans_columns,
      CreateIndex ''idx_spans_root_id'' ''spans'' ''root_id'',
      DropTableIfExists ''assets'',
      CreateTable ''assets'' assets_columns,
      CreateIndex ''idx_assets_root_id'' ''assets'' ''root_id'',
      DropTableIfExists ''attributes'',
      CreateTable ''attributes'' attributes_columns,
      CreateIndex ''idx_attributes_block_id'' ''attributes'' ''block_id'',
      CreateIndex ''idx_attributes_root_id'' ''attributes'' ''root_id'',
      DropTableIfExists ''refs'',
      CreateTable ''refs'' refs_columns,
      DropTableIfExists ''file_annotation_refs'',
      CreateTable ''file_annotation_refs'' file_annotation_refs_columns]"

fun execOrFatal :: "settings \<Rightarrow> stmt list \<Rightarrow> world \<Rightarrow> unit run" where
  "execOrFatal u [] w = Return () w"
| "execOrFatal u (st # sts) w =
     (case db_Exec u st w of
        (Some err, w1) \<Rightarrow> LogFatalf (ExitCodeReadOnlyDatabase u) w1
      | (None, w1) \<Rightarrow> execOrFatal u sts w1)"

definition initDBTables :: "settings \<Rightarrow> world \<Rightarrow> unit run" where
  "initDBTables u w =
     (case execOrFatal u stat_statements w of
        Exit code w1 \<Rightarrow> Exit code w1
      | Return x w1 \<Rightarrow> execOrFatal u schema_statements (setDatabaseVer u w1))"

text \<open>The part of \<open>InitDatabase\<close> that a missing store and a changed version both reach:
  close, remove the files when the store's file exists (an error of the removal is logged
  and dropped), open, create the tables.\<close>

definition rebuildDatabase :: "settings \<Rightarrow> world \<Rightarrow> (string option) run" where
  "rebuildDatabase u w =
     (let w1 = snd (closeDatabase u w);
          w2 = (if DBPath u \<in> files w1
                then (case removeDatabaseFile u w1 of
                        (Some err, w') \<Rightarrow> emit [LogError, PushClearProgress] w'
                      | (None, w') \<Rightarrow> w')
                else w1)
      in case initDBConnection u w2 of
           Exit code w3 \<Rightarrow> Exit code w3
         | Return x w3 \<Rightarrow>
             (case initDBTables u w3 of
                Exit code w4 \<Rightarrow> Exit code w4
              | Return y w4 \<Rightarrow> Return None (emit [LogInfo] w4)))"

text \<open>\<open>InitDatabase\<close>. The deferred \<open>enableCache\<close> runs when the function returns, not
  when the process exits. The mutex has no part in a single call.\<close>

definition InitDatabase :: "settings \<Rightarrow> bool \<Rightarrow> world \<Rightarrow> (string option) run" where
  "InitDatabase u forceRebuild w =
     (let w1 = emit [ClearCache, DisableCache, IncBootProgress] w;
          w2 = (if forceRebuild then emit [ClearQueue] w1 else w1)
      in case initDBConnection u w2 of
           Exit code w3 \<Rightarrow> Exit code w3
         | Return x w3 \<Rightarrow>
             (let w4 = emit [InitBlockTree forceRebuild] w3;
                  rebuild = (\<lambda>w. case rebuildDatabase u w of
                                    Exit code w6 \<Rightarrow> Exit code w6
                                  | Return err w6 \<Rightarrow> Return err (emit [EnableCache] w6))
              in if \<not> forceRebuild
                 then (case getDatabaseVer u w4 of
                         (ver, w5) \<Rightarrow>
                           if DatabaseVer u = ver then Return None (emit [EnableCache] w5)
                           else rebuild (emit [LogInfo] w5))
                 else rebuild w4))"

text \<open>What a statement does when it runs without error, and a list of statements run in
  order up to the first error: the store side of \<open>execOrFatal\<close>.\<close>

fun apply_stmt :: "stmt \<Rightarrow> store \<Rightarrow> store" where
  "apply_stmt (DropTableIfExists t) s =
     s\<lparr>tables := (tables s)(t := None),
       indexes := (\<lambda>i. case indexes s i of
                          None \<Rightarrow> None
                        | Some tc \<Rightarrow> if fst tc = t then None else Some tc)\<rparr>"
| "apply_stmt (CreateTable t cols) s =
     s\<lparr>tables := (tables s)(t \<mapsto> \<lparr>columns = cols, kind = Ordinary, rows = []\<rparr>)\<rparr>"
| "apply_stmt (CreateVirtualTable t cols unindexed tokenize) s =
     s\<lparr>tables := (tables s)(t \<mapsto> \<lparr>columns = cols, kind = FTS5 unindexed tokenize, rows = []\<rparr>)\<rparr>"
| "apply_stmt (CreateIndex i t c) s = s\<lparr>indexes := (indexes s)(i \<mapsto> (t, c))\<rparr>"
| "apply_stmt (DeleteWhere t c v) s =
     (case tables s t of
        None \<Rightarrow> s
      | Some tb \<Rightarrow>
          s\<lparr>tables := (tables s)(t \<mapsto>
               tb\<lparr>rows := filter (\<lambda>r. \<not> sql_eq (r c) v) (rows tb)\<rparr>)\<rparr>)"
| "apply_stmt (UpdateWhere t sets c v) s =
     (case tables s t of
        None \<Rightarrow> s
      | Some tb \<Rightarrow>
          s\<lparr>tables := (tables s)(t \<mapsto>
               tb\<lparr>rows := map (\<lambda>r. if sql_eq (r c) v then assign sets r else r) (rows tb)\<rparr>)\<rparr>)"

fun run_all :: "stmt list \<Rightarrow> store \<Rightarrow> string + store" where
  "run_all [] s = Inr s"
| "run_all (st # sts) s =
     (case run_stmt st s of Inl msg \<Rightarrow> Inl msg | Inr s' \<Rightarrow> run_all sts s')"

text \<open>What the specification calls the full schema: the tables as they are when just
  created (\<open>stat\<close> with the row of the version), and the indexes.\<close>

definition version_row :: "settings \<Rightarrow> row" where
  "version_row u = [''key'' \<mapsto> Text database_ver_key, ''value'' \<mapsto> Text (DatabaseVer u)]"

definition fresh_tables :: "settings \<Rightarrow> (string \<times> table) list" where
  "fresh_tables u =
     [(''stat'', \<lparr>columns = [''key'', ''value''], kind = Ordinary, rows = [version_row u]\<rparr>),
      (''blocks'', \<lparr>columns = blocks_columns, kind = Ordinary, rows = []\<rparr>),
      (''blocks_fts'',
         \<lparr>columns = blocks_columns, kind = FTS5 blocks_unindexed ''siyuan'', rows = []\<rparr>),
      (''blocks_fts_case_insensitive'',
         \<lparr>columns = blocks_columns, kind = FTS5 blocks_unindexed ''siyuan case_insensitive'',
          rows = []\<rparr>),
      (''spans'', \<lparr>columns = spans_columns, kind = Ordinary, rows = []\<rparr>),
      (''assets'', \<lparr>columns = assets_columns, kind = Ordinary, rows = []\<rparr>),
      (''attributes'', \<lparr>columns = attributes_columns, kind = Ordinary, rows = []\<rparr>),
      (''refs'', \<lparr>columns = refs_columns, kind = Ordinary, rows = []\<rparr>),
      (''file_annotation_refs'',
         \<lparr>columns = file_annotation_refs_columns, kind = Ordinary, rows = []\<rparr>)]"

definition schema_indexes :: "(string \<times> string \<times> string) list" where
  "schema_indexes =
     [(''idx_blocks_id'', ''blocks'', ''id''),
      (''idx_blocks_parent_id'', ''blocks'', ''parent_id''),
      (''idx_blocks_root_id'', ''blocks'', ''root_id''),
      (''idx_spans_root_id'', ''spans'', ''root_id''),
      (''idx_assets_root_id'', ''assets'', ''root_id''),
      (''idx_attributes_block_id'', ''attributes'', ''block_id''),
      (''idx_attributes_root_id'', ''attributes'', ''root_id'')]"

text \<open>What \<open>removeDatabaseFile\<close> is to do with the answers of the environment to the
  removals: the store's file, the \<open>-shm\<close> file and the \<open>-wal\<close> file are tried in this
  order, up to the first removal that fails. \<open>removed_paths\<close> are the paths whose removal
  succeeded, \<open>removal_events\<close> the removals tried.\<close>

definition removal_answers :: "settings \<Rightarrow> string option list \<Rightarrow> (string \<times> string option) list" where
  "removal_answers u fs =
     zip [DBPath u, DBPath u @ ''-shm'', DBPath u @ ''-wal''] (fs @ replicate 3 None)"

definition removed_paths :: "settings \<Rightarrow> string option list \<Rightarrow> string list" where
  "removed_paths u fs = map fst (takeWhile (\<lambda>(p, f). f = None) (removal_answers u fs))"

definition removal_events :: "settings \<Rightarrow> string option list \<Rightarrow> event list" where
  "removal_events u fs =
     map (\<lambda>(p, f). RemoveAll p (f = None))
       (take (Suc (length (removed_paths u fs))) (removal_answers u fs))"

subsection \<open>Reading outcomes and tables\<close>

text \<open>The state a call ends in, what it returned (\<open>None\<close> when the process exited) and
  the exit code (\<open>None\<close> when it returned).\<close>

fun world_of :: "'a run \<Rightarrow> world" where
  "world_of (Return x w) = w"
| "world_of (Exit code w) = w"

fun returned :: "'a run \<Rightarrow> 'a option" where
  "returned (Return x w) = Some x"
| "returned (Exit code w) = None"


text \<open>The rows of a table (\<open>None\<close> when the store has no such table), and the values of
  one column down the rows.\<close>

definition table_rows :: "world \<Rightarrow> string \<Rightarrow> row list option" where
  "table_rows w t = map_option rows (tables (disk w) t)"

definition cells :: "world \<Rightarrow> string \<Rightarrow> string \<Rightarrow> sqlval option list option" where
  "cells w t c = map_option (map (\<lambda>r. r c)) (table_rows w t)"

text \<open>The store has the table \<open>t\<close>, and the table the column \<open>c\<close>.\<close>

definition has_column :: "store \<Rightarrow> string \<Rightarrow> string \<Rightarrow> bool" where
  "has_column s t c = (case tables s t of None \<Rightarrow> False | Some tb \<Rightarrow> c \<in> set (columns tb))"


subsection \<open>A small store for the examples\<close>

definition example_settings :: settings where
  "example_settings =
     \<lparr>DBPath = ''/conf/siyuan.db'', DatabaseVer = ''20220501'',
      ExitCodeReadOnlyDatabase = 20, Sum256Hex = (\<lambda>s. ''0123456789abcdef'')\<rparr>"

definition example_row :: "string \<Rightarrow> string \<Rightarrow> row" where
  "example_row i root =
     [''id'' \<mapsto> Text i, ''root_id'' \<mapsto> Text root, ''box'' \<mapsto> Text ''box0'',
      ''path'' \<mapsto> Text ''/old.sy'', ''hpath'' \<mapsto> Text ''/old'',
      ''content'' \<mapsto> Text ''hello'', ''markdown'' \<mapsto> Text ''*hello*'']"

text \<open>Every table holds one row of the document \<open>d1\<close> and one of the document \<open>d2\<close>.\<close>

definition example_table :: table where
  "example_table =
     \<lparr>columns = [''id'', ''root_id'', ''box'', ''path'', ''hpath'', ''content'', ''markdown''],
      kind = Ordinary,
      rows = [example_row ''b1'' ''d1'', example_row ''b2'' ''d2'']\<rparr>"

definition example_store :: store where
  "example_store =
     \<lparr>tables = map_of
        [(''blocks'', example_table), (''blocks_fts'', example_table),
         (''blocks_fts_case_insensitive'', example_table), (''spans'', example_table),
         (''assets'', example_table), (''refs'', example_table),
         (''file_annotation_refs'', example_table), (''attributes'', example_table)],
      indexes = Map.empty\<rparr>"

text \<open>A process with an open store, inside a transaction, in the given case mode and with
  the given answers of the environment to statements and to file removals.\<close>

definition example_world :: "bool \<Rightarrow> string option list \<Rightarrow> string option list \<Rightarrow> world" where
  "example_world cs efaults ffaults =
     \<lparr>db = Some True, disk = example_store,
      files = {''/conf/siyuan.db'', ''/conf/siyuan.db-shm'', ''/conf/siyuan.db-wal''},
      tx = Some example_store, caseSensitive = cs,
      exec_faults = efaults, conn_faults = [], fs_faults = ffaults, trace = []\<rparr>"

text \<open>A store that holds the version of the example settings, a store that still holds a
  table of an earlier schema, and a process that starts: no handle yet, no transaction,
  the three files in place, and the given answers of the environment to file removals.\<close>

definition legacy_store :: store where
  "legacy_store =
     example_store\<lparr>tables := (tables example_store)(''blocks_v1'' \<mapsto> example_table)\<rparr>"

definition versioned_store :: store where
  "versioned_store =
     example_store\<lparr>tables := (tables example_store)(''stat'' \<mapsto>
        \<lparr>columns = [''key'', ''value''], kind = Ordinary,
         rows = [version_row example_settings]\<rparr>)\<rparr>"

definition boot_world :: "store \<Rightarrow> string option list \<Rightarrow> world" where
  "boot_world s ffaults =
     \<lparr>db = None, disk = s,
      files = {''/conf/siyuan.db'', ''/conf/siyuan.db-shm'', ''/conf/siyuan.db-wal''},
      tx = None, caseSensitive = False,
      exec_faults = [], conn_faults = [], fs_faults = ffaults, trace = []\<rparr>"

subsection \<open>The template functions\<close>

record Span =
  ID :: string
  BlockID :: string
  RootID :: string
  Box :: string
  Path :: string
  Content :: string
  Markdown :: string
  Type :: string
  IAL :: string

text \<open>A value of the type \<open>any\<close>, as far as \<open>getBlock\<close> tells values apart: a string, a
  \<open>map[string]interface{}\<close>, or something else.\<close>

datatype go_any = AnyString string | AnyMap "string \<Rightarrow> go_any option" | AnyOther

text \<open>The query functions of the package that the template functions call and whose code
  is outside the file: \<open>SelectBlocksRawStmt(stmt, page, limit)\<close>, \<open>GetBlock(id)\<close>,
  \<open>SelectSpansRawStmt(stmt, limit)\<close> and \<open>Query(stmt, limit)\<close>. They are parameters of
  the model.\<close>

record queries =
  SelectBlocksRawStmt :: "string \<Rightarrow> int \<Rightarrow> int \<Rightarrow> Block list"
  GetBlock :: "string \<Rightarrow> Block option"
  SelectSpansRawStmt :: "string \<Rightarrow> int \<Rightarrow> Span list"
  Query :: "string \<Rightarrow> int \<Rightarrow> row list \<times> string option"

text \<open>The loop \<open>for _, arg := range args { stmt = strings.Replace(stmt, "?", arg, 1) }\<close>.\<close>

fun substitute :: "string \<Rightarrow> string list \<Rightarrow> string" where
  "substitute stmt [] = stmt"
| "substitute stmt (arg # args) = substitute (Replace1 stmt ''?'' arg) args"

definition queryBlocks :: "queries \<Rightarrow> string \<Rightarrow> string list \<Rightarrow> Block list" where
  "queryBlocks q stmt args = SelectBlocksRawStmt q (substitute stmt args) 1 512"

definition getBlock :: "queries \<Rightarrow> go_any \<Rightarrow> panic + Block option" where
  "getBlock q arg =
     (case arg of
        AnyString v \<Rightarrow> Inr (GetBlock q v)
      | AnyMap v \<Rightarrow>
          (case v ''id'' of
             Some i \<Rightarrow>
               (case i of AnyString s \<Rightarrow> Inr (GetBlock q s) | _ \<Rightarrow> Inl InterfaceConversion)
           | None \<Rightarrow> Inr None)
      | AnyOther \<Rightarrow> Inr None)"

definition querySpans :: "queries \<Rightarrow> string \<Rightarrow> string list \<Rightarrow> Span list" where
  "querySpans q stmt args = SelectSpansRawStmt q (substitute stmt args) 512"

definition querySQL :: "queries \<Rightarrow> string \<Rightarrow> row list" where
  "querySQL q stmt = fst (Query q stmt 1024)"

text \<open>The template function map holds functions of several types; \<open>SQLTemplateFuncs\<close>
  stores its four under their names and leaves the other entries of the map alone.\<close>

datatype template_func =
    QueryBlocksFunc "string \<Rightarrow> string list \<Rightarrow> Block list"
  | GetBlockFunc "go_any \<Rightarrow> panic + Block option"
  | QuerySpansFunc "string \<Rightarrow> string list \<Rightarrow> Span list"
  | QuerySQLFunc "string \<Rightarrow> row list"

definition SQLTemplateFuncs :: "queries \<Rightarrow> (string \<rightharpoonup> template_func) \<Rightarrow> (string \<rightharpoonup> template_func)" where
  "SQLTemplateFuncs q templateFuncMap =
     templateFuncMap
       (''queryBlocks'' \<mapsto> QueryBlocksFunc (queryBlocks q),
        ''getBlock'' \<mapsto> GetBlockFunc (getBlock q),
        ''querySpans'' \<mapsto> QuerySpansFunc (querySpans q),
        ''querySQL'' \<mapsto> QuerySQLFunc (querySQL q))"

text \<open>What the specification says of the placeholders, to compare with \<open>substitute\<close>:
  the \<open>i\<close>-th argument stands in the place of the \<open>i\<close>-th \<open>?\<close> of the statement;
  placeholders beyond the arguments stay, arguments beyond the placeholders are dropped.\<close>

fun positional :: "string \<Rightarrow> string list \<Rightarrow> string" where
  "positional [] args = []"
| "positional (c # cs) [] = c # cs"
| "positional (c # cs) (arg # args) =
     (if c = CHR ''?'' then arg @ positional cs args else c # positional cs (arg # args))"

definition example_block :: Block where
  "example_block =
     \<lparr>Block.ID = ''b1'', Block.ParentID = ''d1'', Block.RootID = ''d1'', Block.Hash = [],
      Block.Box = ''box1'', Block.Path = ''/d1.sy'', Block.HPath = ''/doc'', Block.Name = [],
      Block.Alias = [], Block.Memo = [], Block.Tag = [], Block.Content = ''hello'',
      Block.FContent = [], Block.Markdown = ''hello'', Block.Length = 5, Block.Type = ''p'',
      Block.SubType = [], Block.IAL = [], Block.Sort = 10, Block.Created = ''2024'',
      Block.Updated = ''2024''\<rparr>"

text \<open>Query functions that honour their limit, over a table of 2000 rows.\<close>

definition example_queries :: queries where
  "example_queries =
     \<lparr>SelectBlocksRawStmt = (\<lambda>stmt page limit. take (nat limit) (replicate 2000 example_block)),
      GetBlock = (\<lambda>i. None),
      SelectSpansRawStmt = (\<lambda>stmt limit. []),
      Query = (\<lambda>stmt limit. (take (nat limit) (replicate 2000 (example_row ''b1'' ''d1'')), None))\<rparr>"

section \<open>Properties\<close>

subsection \<open>Sort weights\<close>

lemma IsTextMarkType_only_text_marks:
  "NodeData.Type n \<noteq> NodeTextMark \<Longrightarrow> IsTextMarkType n typ = False"
  by (simp add: IsTextMarkType_def)

text \<open>
  Claim C6, as the code has it. \<open>nSort\<close> is a total function of the node's type and text
  mark types, and its values are: document 0; heading 5; paragraph, code block, math
  block, table and HTML block 10; list, list item and blockquote 20; super block and
  attribute view 30; a text mark of type tag 205; text nodes and the other text marks 200;
  every other node type 100.
\<close>

theorem nSort_table:
  "nSort n =
     (if NodeData.Type n = NodeDocument then 0
      else if NodeData.Type n = NodeHeading then 5
      else if NodeData.Type n \<in> {NodeParagraph, NodeCodeBlock, NodeMathBlock, NodeTable,
                NodeHTMLBlock} then 10
      else if NodeData.Type n \<in> {NodeList, NodeListItem, NodeBlockquote} then 20
      else if NodeData.Type n \<in> {NodeSuperBlock, NodeAttributeView} then 30
      else if NodeData.Type n = NodeTextMark
              \<and> ''tag'' \<in> set (Split (TextMarkType n) CHR '' '') then 205
      else if NodeData.Type n \<in> {NodeText, NodeTextMark} then 200
      else 100)"
  by (cases "NodeData.Type n") (simp_all add: nSort_def IsTextMarkType_def)

text \<open>
  The claim as the specification words it gives plain text the weight 100. A text node
  weighs 200: 100 is the weight of the node types the table does not list.
\<close>

theorem nSort_plain_text_counterexample:
  "NodeData.Type (blank_node\<lparr>NodeData.Type := NodeText\<rparr>) = NodeText
   \<and> nSort (blank_node\<lparr>NodeData.Type := NodeText\<rparr>) = 200
   \<and> nSort (blank_node\<lparr>NodeData.Type := NodeText\<rparr>) \<noteq> 100"
  by (simp add: nSort_def IsTextMarkType_def blank_node_def)

subsection \<open>Walks keep invariants\<close>

text \<open>A property of the walker's state that every call of the walker keeps is kept by
  the walk of a node and by the walk of a list of children.\<close>

lemma Walk_invariant:
  fixes walker :: "Node \<Rightarrow> bool \<Rightarrow> 's \<Rightarrow> panic + (WalkStatus \<times> 's)"
  shows "(\<forall>n entering s status s'. P s \<longrightarrow> walker n entering s = Inr (status, s') \<longrightarrow> P s')
           \<Longrightarrow> P s \<Longrightarrow> Walk walker n s = Inr r \<Longrightarrow> P r"
    and "(\<forall>n entering s status s'. P s \<longrightarrow> walker n entering s = Inr (status, s') \<longrightarrow> P s')
           \<Longrightarrow> P s \<Longrightarrow> WalkChildren walker ns s = Inr r \<Longrightarrow> P r"
proof (induction walker n s and walker ns s arbitrary: r and r rule: Walk_WalkChildren.induct)
  case (1 walker d cs s)
  note step = "1.prems"(1) and P = "1.prems"(2) and W = "1.prems"(3)
  from W obtain status s1 where e1: "walker (Node d cs) True s = Inr (status, s1)"
    by (auto split: sum.splits)
  have P1: "P s1" using step P e1 by blast
  show ?case
  proof (cases "status = WalkStop")
    case True
    with W e1 have "r = s1" by simp
    with P1 show ?thesis by simp
  next
    case False
    from W e1 False obtain s2 where
      e2: "(if status \<noteq> WalkSkipChildren then WalkChildren walker cs s1 else Inr s1) = Inr s2"
      by (auto split: sum.splits)
    have P2: "P s2"
    proof (cases "status = WalkSkipChildren")
      case True
      with e2 P1 show ?thesis by simp
    next
      case nskip: False
      with e2 have "WalkChildren walker cs s1 = Inr s2" by simp
      with "1.IH"[OF e1 refl False nskip step P1] show ?thesis by blast
    qed
    from W e1 False e2 obtain status' where e3: "walker (Node d cs) False s2 = Inr (status', r)"
      by (auto split: sum.splits)
    show ?thesis using step P2 e3 by blast
  qed
next
  case (2 walker s)
  then show ?case by simp
next
  case (3 walker c cs s)
  note step = "3.prems"(1) and P = "3.prems"(2) and W = "3.prems"(3)
  from W obtain s1 where e1: "Walk walker c s = Inr s1" and e2: "WalkChildren walker cs s1 = Inr r"
    by (auto split: sum.splits)
  from "3.IH"(1)[OF step P e1] have "P s1" .
  with "3.IH"(2)[OF e1 step _ e2] show ?case by blast
qed

subsection \<open>References\<close>

lemma isRepeatedRef_iff:
  "isRepeatedRef rs ref \<longleftrightarrow>
     (Ref.BlockID ref, Ref.DefBlockID ref)
       \<in> set (map (\<lambda>r. (Ref.BlockID r, Ref.DefBlockID r)) rs)"
  by (induction rs) auto

lemma refsWalker_distinct:
  assumes "distinct (map (\<lambda>r. (Ref.BlockID r, Ref.DefBlockID r)) (refs st))"
    and "refsWalker e tree n entering st = Inr (status, st')"
  shows "distinct (map (\<lambda>r. (Ref.BlockID r, Ref.DefBlockID r)) (refs st'))"
  using assms
  by (auto simp: refsWalker_def Let_def isRepeatedRef_iff
           split: if_splits sum.splits prod.splits option.splits)

lemmas example_defs = example_env_def example_tree_def example_paragraph_def block_ref_to_def
  annotation_ref_def example_ial_node_def blank_node_def xstate0_def

text \<open>
  Claim C3. Whenever \<open>refsFromTree\<close> returns, the references it returns hold at most one
  reference for each pair of a using block and a defining block: a direct or an embed
  reference whose pair is already in the list is not appended.
\<close>

theorem refsFromTree_dedup:
  assumes "refsFromTree e tree xs = Inr ((rs, fars), xs')"
  shows "distinct (map (\<lambda>r. (Ref.BlockID r, Ref.DefBlockID r)) rs)"
proof -
  from assms obtain st where
    W: "Walk (refsWalker e tree) (Root tree)
          \<lparr>refs = [], fileAnnotationRefs = [], xst = xs\<rparr> = Inr st"
    and rs: "rs = refs st"
    by (auto simp: refsFromTree_def split: sum.splits)
  have "distinct (map (\<lambda>r. (Ref.BlockID r, Ref.DefBlockID r)) (refs st))"
    by (rule Walk_invariant(1)
          [where P = "\<lambda>s. distinct (map (\<lambda>r. (Ref.BlockID r, Ref.DefBlockID r)) (refs s))",
           OF _ _ W])
       (auto intro: refsWalker_distinct)
  with rs show ?thesis by simp
qed

text \<open>Two references from \<open>p1\<close> to \<open>b1\<close> and one to \<open>b2\<close> give two references.\<close>

theorem refsFromTree_dedup_witness:
  "\<exists>rs fars xs'.
     refsFromTree example_env
       (example_tree [block_ref_to ''b1'', block_ref_to ''b1'', block_ref_to ''b2'']) xstate0
       = Inr ((rs, fars), xs')
     \<and> map (\<lambda>r. (Ref.BlockID r, Ref.DefBlockID r)) rs = [(''p1'', ''b1''), (''p1'', ''b2'')]
     \<and> distinct (map (\<lambda>r. (Ref.BlockID r, Ref.DefBlockID r)) rs)"
proof -
  let ?t = "example_tree [block_ref_to ''b1'', block_ref_to ''b1'', block_ref_to ''b2'']"
  have "\<exists>rr. refsFromTree example_env ?t xstate0 = Inr rr"
    by (simp add: refsFromTree_def refsWalker_def buildRef_def defBlockLocation_def mint_def
          IsTextMarkType_def IALAttr_def Let_def example_defs)
  then obtain rs fars xs' where e: "refsFromTree example_env ?t xstate0 = Inr ((rs, fars), xs')"
    by (metis surj_pair)
  have keys: "map (\<lambda>r. (Ref.BlockID r, Ref.DefBlockID r)) rs = [(''p1'', ''b1''), (''p1'', ''b2'')]"
    using e
    by (auto simp add: refsFromTree_def refsWalker_def buildRef_def defBlockLocation_def mint_def
          IsTextMarkType_def IALAttr_def Let_def example_defs)
  have d: "distinct (map (\<lambda>r. (Ref.BlockID r, Ref.DefBlockID r)) rs)"
    by (rule refsFromTree_dedup[OF e])
  show ?thesis
    by (rule exI[of _ rs], rule exI[of _ fars], rule exI[of _ xs']) (rule conjI[OF e conjI[OF keys d]])
qed

lemma LastIndex_from_absent:
  "sep \<notin> set s \<Longrightarrow> LastIndex_from s sep i found = found"
  by (induction s arbitrary: i) auto

lemma LastIndex_absent: "sep \<notin> set s \<Longrightarrow> LastIndex s sep = - 1"
  by (simp add: LastIndex_def LastIndex_from_absent)

text \<open>
  Claim C10. On leaving a file annotation reference whose key holds no \<open>/\<close>, the walker of
  \<open>refsFromTree\<close> answers \<open>WalkContinue\<close> with its lists as they were: no
  \<open>FileAnnotationRef\<close> is made, nothing panics, and the walk goes on. (The walker tests
  for a block reference first; a node that is both never adds a file annotation
  reference either.)
\<close>

theorem refsWalker_skips_key_without_slash:
  assumes "IsFileAnnotationRef e (data n)"
    and "CHR ''/'' \<notin> set (TextMarkFileAnnotationRefID (data n))"
  shows "(\<not> IsBlockRef e (data n) \<longrightarrow> refsWalker e tree n False st = Inr (WalkContinue, st))
    \<and> (\<forall>status st'. refsWalker e tree n False st = Inr (status, st') \<longrightarrow>
          status = WalkContinue \<and> fileAnnotationRefs st' = fileAnnotationRefs st)"
  using assms
  by (auto simp: refsWalker_def Let_def LastIndex_absent split: sum.splits prod.splits)

theorem refsWalker_skips_key_without_slash_witness:
  "IsFileAnnotationRef example_env (data (annotation_ref ''nokey''))
   \<and> CHR ''/'' \<notin> set (TextMarkFileAnnotationRefID (data (annotation_ref ''nokey'')))
   \<and> \<not> IsBlockRef example_env (data (annotation_ref ''nokey''))
   \<and> refsWalker example_env (example_tree [annotation_ref ''nokey'']) (annotation_ref ''nokey'') False
        \<lparr>refs = [], fileAnnotationRefs = [], xst = xstate0\<rparr>
       = Inr (WalkContinue, \<lparr>refs = [], fileAnnotationRefs = [], xst = xstate0\<rparr>)"
proof -
  have h1: "IsFileAnnotationRef example_env (data (annotation_ref ''nokey''))"
    by (simp add: IsTextMarkType_def example_defs)
  have h2: "CHR ''/'' \<notin> set (TextMarkFileAnnotationRefID (data (annotation_ref ''nokey'')))"
    by (simp add: example_defs)
  have h3: "\<not> IsBlockRef example_env (data (annotation_ref ''nokey''))"
    by (simp add: IsTextMarkType_def example_defs)
  from refsWalker_skips_key_without_slash[OF h1 h2] h1 h2 h3 show ?thesis by blast
qed

subsection \<open>Attributes\<close>

lemma isAttr_allow_list:
  "isAttr name \<longleftrightarrow>
     prefix ''custom-'' name
     \<or> name \<in> {''name'', ''alias'', ''memo'', ''bookmark'', ''fold'', ''heading-fold'', ''style''}"
  by (auto simp: isAttr_def HasPrefix_def)

lemma attrsLoop_names:
  "attrsLoop e typ blockID rootID boxID p kvs acc xs = Inr (attrs, xs') \<Longrightarrow>
   (\<forall>a \<in> set acc. isAttr (Attribute.Name a) \<and> Attribute.Type a = typ) \<Longrightarrow>
   (\<forall>a \<in> set attrs. isAttr (Attribute.Name a) \<and> Attribute.Type a = typ)"
proof (induction kvs arbitrary: acc xs)
  case Nil
  then show ?case by simp
next
  case (Cons kv kvs)
  show ?case
  proof (cases "isAttr (fst kv)")
    case False
    with Cons.prems(1) have "attrsLoop e typ blockID rootID boxID p kvs acc xs = Inr (attrs, xs')"
      by simp
    from Cons.IH[OF this Cons.prems(2)] show ?thesis .
  next
    case True
    with Cons.prems(1) obtain bid where b: "blockID = Some bid"
      by (cases blockID) (auto simp: mint_def)
    let ?a = "\<lparr>Attribute.ID = fst (mint e xs), Attribute.Name = fst kv,
                Attribute.Value = snd kv, Attribute.Type = typ,
                Attribute.BlockID = bid, Attribute.RootID = rootID,
                Attribute.Box = boxID, Attribute.Path = p\<rparr>"
    from True b Cons.prems(1)
    have run: "attrsLoop e typ blockID rootID boxID p kvs (acc @ [?a]) (snd (mint e xs))
                 = Inr (attrs, xs')"
      by (simp add: mint_def)
    have "\<forall>a \<in> set (acc @ [?a]). isAttr (Attribute.Name a) \<and> Attribute.Type a = typ"
      using Cons.prems(2) True by simp
    from Cons.IH[OF run this] show ?thesis .
  qed
qed

text \<open>
  Claim C8. Every attribute that \<open>buildAttributeFromNode\<close> returns, and every attribute
  that \<open>buildBlockFromNode\<close> returns, has a name that starts with \<open>custom-\<close> or is one
  of \<open>name\<close>, \<open>alias\<close>, \<open>memo\<close>, \<open>bookmark\<close>, \<open>fold\<close>, \<open>heading-fold\<close>, \<open>style\<close>.
  The attributes of a span attribute list have the type \<open>s\<close>, those of a block attribute
  list and of \<open>buildBlockFromNode\<close> the type \<open>b\<close>.
\<close>

theorem extracted_attributes_allow_listed:
  "(buildAttributeFromNode e n rootID boxID p xs = Inr (attrs, xs') \<longrightarrow>
      (\<forall>a \<in> set attrs.
         (prefix ''custom-'' (Attribute.Name a)
          \<or> Attribute.Name a \<in> {''name'', ''alias'', ''memo'', ''bookmark'', ''fold'',
                                  ''heading-fold'', ''style''})
         \<and> (NodeData.Type n = NodeKramdownSpanIAL \<longrightarrow> Attribute.Type a = ''s'')
         \<and> (NodeData.Type n = NodeKramdownBlockIAL \<longrightarrow> Attribute.Type a = ''b'')))
   \<and> (buildBlockFromNode e iap node tree ys = Inr ((b, battrs), ys') \<longrightarrow>
      (\<forall>a \<in> set battrs.
         (prefix ''custom-'' (Attribute.Name a)
          \<or> Attribute.Name a \<in> {''name'', ''alias'', ''memo'', ''bookmark'', ''fold'',
                                  ''heading-fold'', ''style''})
         \<and> Attribute.Type a = ''b''))"
proof (intro conjI impI)
  assume r: "buildAttributeFromNode e n rootID boxID p xs = Inr (attrs, xs')"
  show "\<forall>a \<in> set attrs.
         (prefix ''custom-'' (Attribute.Name a)
          \<or> Attribute.Name a \<in> {''name'', ''alias'', ''memo'', ''bookmark'', ''fold'',
                                  ''heading-fold'', ''style''})
         \<and> (NodeData.Type n = NodeKramdownSpanIAL \<longrightarrow> Attribute.Type a = ''s'')
         \<and> (NodeData.Type n = NodeKramdownBlockIAL \<longrightarrow> Attribute.Type a = ''b'')"
  proof (cases "NodeData.Type n = NodeKramdownSpanIAL")
    case True
    with r have "attrsLoop e ''s'' (ParentBlock n) rootID boxID p (IALValMap e n) [] xs = Inr (attrs, xs')"
      by (simp add: buildAttributeFromNode_def)
    from attrsLoop_names[OF this] True show ?thesis
      by (simp add: isAttr_allow_list)
  next
    case nspan: False
    show ?thesis
    proof (cases "NodeData.Type n = NodeKramdownBlockIAL")
      case True
      with r have "attrsLoop e ''b'' (Some (NodeData.ID n)) rootID boxID p (IALValMap e n) [] xs = Inr (attrs, xs')"
        by (simp add: buildAttributeFromNode_def)
      from attrsLoop_names[OF this] True show ?thesis
        by (simp add: isAttr_allow_list)
    next
      case False
      with nspan r have "attrs = []"
        by (cases "NodeData.Type n") (simp_all add: buildAttributeFromNode_def)
      then show ?thesis by simp
    qed
  qed
next
  assume r: "buildBlockFromNode e iap node tree ys = Inr ((b, battrs), ys')"
  then obtain zs where
    "attrsLoop e ''b'' (Some (NodeData.ID (data node))) (NodeData.ID (data (Root tree)))
       (Tree.Box tree) (Tree.Path tree) (IAL2Map e (KramdownIAL (data node))) [] zs
       = Inr (battrs, ys')"
    by (auto simp: buildBlockFromNode_def Let_def split: sum.splits prod.splits)
  from attrsLoop_names[OF this]
  show "\<forall>a \<in> set battrs.
         (prefix ''custom-'' (Attribute.Name a)
          \<or> Attribute.Name a \<in> {''name'', ''alias'', ''memo'', ''bookmark'', ''fold'',
                                  ''heading-fold'', ''style''})
         \<and> Attribute.Type a = ''b''"
    by (simp add: isAttr_allow_list)
qed

theorem extracted_attributes_allow_listed_witness:
  "(\<exists>attrs xs'.
      buildAttributeFromNode example_env (example_ial_node NodeKramdownSpanIAL)
        ''d1'' ''box1'' ''/d1.sy'' xstate0 = Inr (attrs, xs')
      \<and> map Attribute.Name attrs = [''custom-rank'', ''memo'']
      \<and> (\<forall>a \<in> set attrs. Attribute.Type a = ''s''))
   \<and> (\<exists>b battrs ys'.
      buildBlockFromNode example_env False (example_paragraph []) (example_tree []) xstate0
        = Inr ((b, battrs), ys')
      \<and> map Attribute.Name battrs = [''custom-rank'', ''memo'']
      \<and> (\<forall>a \<in> set battrs. Attribute.Type a = ''b''))"
proof (rule conjI)
  have "\<exists>r. buildAttributeFromNode example_env (example_ial_node NodeKramdownSpanIAL)
              ''d1'' ''box1'' ''/d1.sy'' xstate0 = Inr r"
    by (simp add: buildAttributeFromNode_def isAttr_def HasPrefix_def mint_def example_defs)
  then obtain attrs xs' where
    e: "buildAttributeFromNode example_env (example_ial_node NodeKramdownSpanIAL)
          ''d1'' ''box1'' ''/d1.sy'' xstate0 = Inr (attrs, xs')"
    by (metis surj_pair)
  have names: "map Attribute.Name attrs = [''custom-rank'', ''memo'']"
    using e
    by (auto simp add: buildAttributeFromNode_def isAttr_def HasPrefix_def mint_def example_defs)
  have t: "NodeData.Type (example_ial_node NodeKramdownSpanIAL) = NodeKramdownSpanIAL"
    by (simp add: example_defs)
  from extracted_attributes_allow_listed
         [where e = example_env and n = "example_ial_node NodeKramdownSpanIAL"
            and rootID = "''d1''" and boxID = "''box1''" and p = "''/d1.sy''" and xs = xstate0
            and attrs = attrs and xs' = xs']
       e t
  have types: "\<forall>a \<in> set attrs. Attribute.Type a = ''s''"
    by blast
  show "\<exists>attrs xs'.
      buildAttributeFromNode example_env (example_ial_node NodeKramdownSpanIAL)
        ''d1'' ''box1'' ''/d1.sy'' xstate0 = Inr (attrs, xs')
      \<and> map Attribute.Name attrs = [''custom-rank'', ''memo'']
      \<and> (\<forall>a \<in> set attrs. Attribute.Type a = ''s'')"
    by (rule exI[of _ attrs], rule exI[of _ xs']) (rule conjI[OF e conjI[OF names types]])
next
  have "\<exists>r. buildBlockFromNode example_env False (example_paragraph []) (example_tree []) xstate0
              = Inr r"
    by (simp add: buildBlockFromNode_def blockTexts_def tagFromNode_def tagWalker_def
          parentIDOf_def pushUnlessOCRed_def mint_def IsTextMarkType_def IALAttr_def Let_def
          isAttr_def HasPrefix_def example_defs)
  then obtain b battrs ys' where
    e: "buildBlockFromNode example_env False (example_paragraph []) (example_tree []) xstate0
          = Inr ((b, battrs), ys')"
    by (metis surj_pair)
  have names: "map Attribute.Name battrs = [''custom-rank'', ''memo'']"
    using e
    by (auto simp add: buildBlockFromNode_def blockTexts_def tagFromNode_def tagWalker_def
          parentIDOf_def pushUnlessOCRed_def mint_def IsTextMarkType_def IALAttr_def Let_def
          isAttr_def HasPrefix_def example_defs)
  from extracted_attributes_allow_listed
         [where e = example_env and iap = False and node = "example_paragraph []"
            and tree = "example_tree []" and ys = xstate0 and b = b and battrs = battrs
            and ys' = ys']
       e
  have types: "\<forall>a \<in> set battrs. Attribute.Type a = ''b''"
    by blast
  show "\<exists>b battrs ys'.
      buildBlockFromNode example_env False (example_paragraph []) (example_tree []) xstate0
        = Inr ((b, battrs), ys')
      \<and> map Attribute.Name battrs = [''custom-rank'', ''memo'']
      \<and> (\<forall>a \<in> set battrs. Attribute.Type a = ''b'')"
    by (rule exI[of _ b], rule exI[of _ battrs], rule exI[of _ ys'])
       (rule conjI[OF e conjI[OF names types]])
qed

subsection \<open>Blocks\<close>

text \<open>
  Claim C2 asks that \<open>Length\<close> be the number of runes of the stored \<open>Content\<close> (of the
  stored \<open>FContent\<close> for documents and containers). \<open>buildBlockFromNode\<close> counts the
  runes before it strips the zero-width spaces: a paragraph that renders to \<open>a\<close>, a
  zero-width space and \<open>b\<close> is stored with the content \<open>ab\<close>, of two runes, and the
  length 3.
\<close>

theorem buildBlockFromNode_length_before_strip:
  "\<exists>b attrs xs'.
     buildBlockFromNode example_env False (example_paragraph []) (example_tree []) xstate0
       = Inr ((b, attrs), xs')
     \<and> Block.Content b = ''ab''
     \<and> Block.Length b = 3
     \<and> RuneCountInString (Block.Content b) = 2"
  by (simp add: buildBlockFromNode_def blockTexts_def tagFromNode_def tagWalker_def
        parentIDOf_def pushUnlessOCRed_def mint_def IsTextMarkType_def IALAttr_def Let_def
        isAttr_def HasPrefix_def RuneCountInString_def rune_width_def second_ok_def cont_byte_def
        Zwsp_def nSort_def example_defs)

subsection \<open>Statements in a transaction\<close>


lemma andThen_Return_NoneE:
  assumes "andThen r k = Return None w'"
  obtains w1 where "r = Return None w1" "k w1 = Return None w'"
  using assms by (cases "(r, k)" rule: andThen.cases) auto

lemma tx_Exec_None:
  assumes "tx_Exec u st w = (None, w1)"
  shows "run_stmt st (disk w) = Inr (disk w1)" and "caseSensitive w1 = caseSensitive w"
    and "tx w1 = tx w" and "tx w \<noteq> None" and "db w1 = db w"
proof -
  from assms have nf: "next_fault (exec_faults w) = None"
    by (cases "next_fault (exec_faults w)") (simp_all add: tx_Exec_def Let_def)
  from assms nf obtain snapshot where sn: "tx w = Some snapshot"
    by (cases "tx w") (simp_all add: tx_Exec_def Let_def)
  from assms nf sn obtain s' where r: "run_stmt st (disk w) = Inr s'"
    by (cases "run_stmt st (disk w)") (simp_all add: tx_Exec_def Let_def)
  from assms nf sn r
  have w1: "w1 = w\<lparr>exec_faults := tl (exec_faults w), disk := s',
                    files := files w \<union> store_files u\<rparr>"
    by (simp add: tx_Exec_def Let_def)
  show "run_stmt st (disk w) = Inr (disk w1)" by (simp add: w1 r)
  show "caseSensitive w1 = caseSensitive w" by (simp add: w1)
  show "tx w1 = tx w" by (simp add: w1)
  show "tx w \<noteq> None" by (simp add: sn)
  show "db w1 = db w" by (simp add: w1)
qed


lemma execStmtTx_Return_None:
  assumes "execStmtTx u st w = Return None w'"
  shows "run_stmt st (disk w) = Inr (disk w')" and "caseSensitive w' = caseSensitive w"
    and "tx w' = tx w" and "tx w \<noteq> None" and "db w' = db w"
proof -
  obtain e w1 where t: "tx_Exec u st w = (e, w1)" by (cases "tx_Exec u st w")
  from assms t have "e = None \<and> w' = w1"
    by (cases e) (simp_all add: execStmtTx_def LogFatalf_def Let_def split: if_splits)
  with t have t': "tx_Exec u st w = (None, w')" by simp
  from tx_Exec_None[OF t']
  show "run_stmt st (disk w) = Inr (disk w')" and "caseSensitive w' = caseSensitive w"
    and "tx w' = tx w" and "tx w \<noteq> None" and "db w' = db w"
    by simp_all
qed


lemma run_stmt_DeleteWhere:
  assumes "run_stmt (DeleteWhere t c v) s = Inr s'"
  shows "\<exists>tb. tables s t = Some tb
           \<and> tables s' = (tables s)(t \<mapsto> tb\<lparr>rows := filter (\<lambda>r. \<not> sql_eq (r c) v) (rows tb)\<rparr>)"
  using assms by (auto split: option.splits if_splits)


lemma delete_step:
  assumes "execStmtTx u (DeleteWhere t c v) w = Return None w'"
  shows "table_rows w' = (table_rows w)(t := map_option (filter (\<lambda>r. \<not> sql_eq (r c) v)) (table_rows w t))"
    and "table_rows w t \<noteq> None" and "caseSensitive w' = caseSensitive w"
proof -
  from execStmtTx_Return_None[OF assms] have r: "run_stmt (DeleteWhere t c v) (disk w) = Inr (disk w')"
    and cs: "caseSensitive w' = caseSensitive w" by auto
  from run_stmt_DeleteWhere[OF r] obtain tb where
    tb: "tables (disk w) t = Some tb"
    and tb': "tables (disk w') = (tables (disk w))(t \<mapsto> tb\<lparr>rows := filter (\<lambda>r. \<not> sql_eq (r c) v) (rows tb)\<rparr>)"
    by blast
  show "table_rows w' = (table_rows w)(t := map_option (filter (\<lambda>r. \<not> sql_eq (r c) v)) (table_rows w t))"
    by (rule ext) (simp add: table_rows_def tb tb')
  show "table_rows w t \<noteq> None" by (simp add: table_rows_def tb)
  show "caseSensitive w' = caseSensitive w" by (rule cs)
qed


lemma table_rows_emit: "table_rows (emit evs w) = table_rows w"
  by (rule ext) (simp add: table_rows_def emit_def)

lemma deleteByRootID_effect:
  assumes ok: "deleteByRootID u rootID context w = Return None w'"
  shows "table_rows w' t =
           (if t \<in> {''blocks'', ''blocks_fts'', ''spans'', ''assets'', ''refs'',
                     ''file_annotation_refs'', ''attributes''}
               \<or> (t = ''blocks_fts_case_insensitive'' \<and> \<not> caseSensitive w)
            then map_option (filter (\<lambda>r. r ''root_id'' \<noteq> Some (Text rootID))) (table_rows w t)
            else table_rows w t)"
   and "t \<in> {''blocks'', ''blocks_fts'', ''spans'', ''assets'', ''refs'',
                     ''file_annotation_refs'', ''attributes''}
               \<or> (t = ''blocks_fts_case_insensitive'' \<and> \<not> caseSensitive w) \<Longrightarrow> table_rows w t \<noteq> None"
proof -
  from ok[unfolded deleteByRootID_def]
  obtain w1 w2 w3 w4 w5 w6 w7 w8 where
    s1: "execStmtTx u (DeleteWhere ''blocks'' ''root_id'' (Text rootID)) w = Return None w1"
    and s2: "execStmtTx u (DeleteWhere ''blocks_fts'' ''root_id'' (Text rootID)) w1 = Return None w2"
    and s3: "(if \<not> caseSensitive w2
              then execStmtTx u (DeleteWhere ''blocks_fts_case_insensitive'' ''root_id'' (Text rootID)) w2
              else Return None w2) = Return None w3"
    and s4: "execStmtTx u (DeleteWhere ''spans'' ''root_id'' (Text rootID)) w3 = Return None w4"
    and s5: "execStmtTx u (DeleteWhere ''assets'' ''root_id'' (Text rootID)) w4 = Return None w5"
    and s6: "execStmtTx u (DeleteWhere ''refs'' ''root_id'' (Text rootID)) w5 = Return None w6"
    and s7: "execStmtTx u (DeleteWhere ''file_annotation_refs'' ''root_id'' (Text rootID)) w6 = Return None w7"
    and s8: "execStmtTx u (DeleteWhere ''attributes'' ''root_id'' (Text rootID)) w7 = Return None w8"
    and fin: "w' = emit [ClearCache, Publish ''EvtSQLDeleteBlocks'' context [rootID]] w8"
    by (elim andThen_Return_NoneE) auto
  note d1 = delete_step[OF s1] and d2 = delete_step[OF s2] and d4 = delete_step[OF s4]
    and d5 = delete_step[OF s5] and d6 = delete_step[OF s6] and d7 = delete_step[OF s7]
    and d8 = delete_step[OF s8]
  have cs2: "caseSensitive w2 = caseSensitive w" using d1(3) d2(3) by simp
  have d3: "table_rows w3 = (if caseSensitive w then table_rows w2
              else (table_rows w2)(''blocks_fts_case_insensitive'' :=
                     map_option (filter (\<lambda>r. \<not> sql_eq (r ''root_id'') (Text rootID)))
                       (table_rows w2 ''blocks_fts_case_insensitive'')))"
    and n3: "\<not> caseSensitive w \<Longrightarrow> table_rows w2 ''blocks_fts_case_insensitive'' \<noteq> None"
    using s3 cs2 delete_step[of u "''blocks_fts_case_insensitive''" "''root_id''" "Text rootID" w2 w3]
    by (auto split: if_splits)
  have eq: "(\<lambda>r::row. \<not> sql_eq (r ''root_id'') (Text rootID)) = (\<lambda>r. r ''root_id'' \<noteq> Some (Text rootID))"
    by (simp add: sql_eq_def)
  show "table_rows w' t =
           (if t \<in> {''blocks'', ''blocks_fts'', ''spans'', ''assets'', ''refs'',
                     ''file_annotation_refs'', ''attributes''}
               \<or> (t = ''blocks_fts_case_insensitive'' \<and> \<not> caseSensitive w)
            then map_option (filter (\<lambda>r. r ''root_id'' \<noteq> Some (Text rootID))) (table_rows w t)
            else table_rows w t)"
    unfolding fin table_rows_emit d8(1) d7(1) d6(1) d5(1) d4(1) d3 d2(1) d1(1) eq
    by simp
  show "table_rows w t \<noteq> None" if "t \<in> {''blocks'', ''blocks_fts'', ''spans'', ''assets'', ''refs'',
                     ''file_annotation_refs'', ''attributes''}
               \<or> (t = ''blocks_fts_case_insensitive'' \<and> \<not> caseSensitive w)"
    using that d1(2) d2(2) n3 d4(2) d5(2) d6(2) d7(2) d8(2)
    unfolding d7(1) d6(1) d5(1) d4(1) d3 d2(1) d1(1)
    by (auto split: if_splits)
qed

lemmas store_example_defs = example_settings_def example_table_def example_store_def
  example_world_def

lemma execStmtTx_runs:
  assumes "exec_faults w = []" and "tx w = Some sn" and "run_stmt st (disk w) = Inr s'"
  shows "execStmtTx u st w = Return None (w\<lparr>disk := s', files := files w \<union> store_files u\<rparr>)"
proof -
  have "tx_Exec u st w = (None, w\<lparr>disk := s', files := files w \<union> store_files u\<rparr>)"
    using assms by (simp add: tx_Exec_def next_fault_def Let_def)
  then show ?thesis by (simp add: execStmtTx_def)
qed

lemma execStmtTx_fault:
  assumes "next_fault (exec_faults w) = Some err" and "\<not> Contains err malformed"
  shows "execStmtTx u st w = Return (Some err) (emit [LogError] (w\<lparr>exec_faults := tl (exec_faults w)\<rparr>))"
proof -
  have "tx_Exec u st w = (Some err, w\<lparr>exec_faults := tl (exec_faults w)\<rparr>)"
    using assms by (simp add: tx_Exec_def Let_def)
  then show ?thesis using assms(2) by (simp add: execStmtTx_def)
qed

lemma delete_runs:
  assumes "exec_faults w = []" and "tx w = Some sn" and "has_column (disk w) t c"
  shows "\<exists>w'. execStmtTx u (DeleteWhere t c v) w = Return None w'
           \<and> exec_faults w' = [] \<and> tx w' = Some sn \<and> caseSensitive w' = caseSensitive w
           \<and> (\<forall>t' c'. has_column (disk w') t' c' = has_column (disk w) t' c')"
proof -
  from assms(3) obtain tb where tb: "tables (disk w) t = Some tb" and c: "c \<in> set (columns tb)"
    by (auto simp: has_column_def split: option.splits)
  let ?s' = "(disk w)\<lparr>tables := (tables (disk w))(t \<mapsto>
                      tb\<lparr>rows := filter (\<lambda>r. \<not> sql_eq (r c) v) (rows tb)\<rparr>)\<rparr>"
  have r: "run_stmt (DeleteWhere t c v) (disk w) = Inr ?s'" using tb c by simp
  have hc: "\<forall>t' c'. has_column ?s' t' c' = has_column (disk w) t' c'"
    using tb by (simp add: has_column_def)
  show ?thesis
    unfolding execStmtTx_runs[OF assms(1,2) r] using assms(1,2) hc by simp
qed


lemma deleteByRootID_runs:
  assumes f: "exec_faults w = []" and t: "tx w = Some sn"
    and h: "\<forall>t \<in> {''blocks'', ''blocks_fts'', ''blocks_fts_case_insensitive'', ''spans'',
                  ''assets'', ''refs'', ''file_annotation_refs'', ''attributes''}.
              has_column (disk w) t ''root_id''"
  shows "\<exists>w'. deleteByRootID u rootID context w = Return None w'"
proof -
  let ?v = "Text rootID"
  from delete_runs[OF f t, of "''blocks''" "''root_id''" u ?v] h obtain w1 where
    s1: "execStmtTx u (DeleteWhere ''blocks'' ''root_id'' ?v) w = Return None w1"
    and f1: "exec_faults w1 = []" and t1: "tx w1 = Some sn" and c1: "caseSensitive w1 = caseSensitive w"
    and h1: "\<forall>t' c'. has_column (disk w1) t' c' = has_column (disk w) t' c'" by auto
  from delete_runs[OF f1 t1, of "''blocks_fts''" "''root_id''" u ?v] h h1 obtain w2 where
    s2: "execStmtTx u (DeleteWhere ''blocks_fts'' ''root_id'' ?v) w1 = Return None w2"
    and f2: "exec_faults w2 = []" and t2: "tx w2 = Some sn" and c2: "caseSensitive w2 = caseSensitive w1"
    and h2: "\<forall>t' c'. has_column (disk w2) t' c' = has_column (disk w1) t' c'" by auto
  have "\<exists>w3. (if \<not> caseSensitive w2
              then execStmtTx u (DeleteWhere ''blocks_fts_case_insensitive'' ''root_id'' ?v) w2
              else Return None w2) = Return None w3
          \<and> exec_faults w3 = [] \<and> tx w3 = Some sn
          \<and> (\<forall>t' c'. has_column (disk w3) t' c' = has_column (disk w2) t' c')"
  proof (cases "caseSensitive w2")
    case True
    then show ?thesis using f2 t2 by simp
  next
    case False
    from delete_runs[OF f2 t2, of "''blocks_fts_case_insensitive''" "''root_id''" u ?v] h h1 h2 False
    show ?thesis by auto
  qed
  then obtain w3 where
    s3: "(if \<not> caseSensitive w2
              then execStmtTx u (DeleteWhere ''blocks_fts_case_insensitive'' ''root_id'' ?v) w2
              else Return None w2) = Return None w3"
    and f3: "exec_faults w3 = []" and t3: "tx w3 = Some sn"
    and h3: "\<forall>t' c'. has_column (disk w3) t' c' = has_column (disk w2) t' c'" by blast
  from delete_runs[OF f3 t3, of "''spans''" "''root_id''" u ?v] h h1 h2 h3 obtain w4 where
    s4: "execStmtTx u (DeleteWhere ''spans'' ''root_id'' ?v) w3 = Return None w4"
    and f4: "exec_faults w4 = []" and t4: "tx w4 = Some sn"
    and h4: "\<forall>t' c'. has_column (disk w4) t' c' = has_column (disk w3) t' c'" by auto
  from delete_runs[OF f4 t4, of "''assets''" "''root_id''" u ?v] h h1 h2 h3 h4 obtain w5 where
    s5: "execStmtTx u (DeleteWhere ''assets'' ''root_id'' ?v) w4 = Return None w5"
    and f5: "exec_faults w5 = []" and t5: "tx w5 = Some sn"
    and h5: "\<forall>t' c'. has_column (disk w5) t' c' = has_column (disk w4) t' c'" by auto
  from delete_runs[OF f5 t5, of "''refs''" "''root_id''" u ?v] h h1 h2 h3 h4 h5 obtain w6 where
    s6: "execStmtTx u (DeleteWhere ''refs'' ''root_id'' ?v) w5 = Return None w6"
    and f6: "exec_faults w6 = []" and t6: "tx w6 = Some sn"
    and h6: "\<forall>t' c'. has_column (disk w6) t' c' = has_column (disk w5) t' c'" by auto
  from delete_runs[OF f6 t6, of "''file_annotation_refs''" "''root_id''" u ?v] h h1 h2 h3 h4 h5 h6
  obtain w7 where
    s7: "execStmtTx u (DeleteWhere ''file_annotation_refs'' ''root_id'' ?v) w6 = Return None w7"
    and f7: "exec_faults w7 = []" and t7: "tx w7 = Some sn"
    and h7: "\<forall>t' c'. has_column (disk w7) t' c' = has_column (disk w6) t' c'" by auto
  from delete_runs[OF f7 t7, of "''attributes''" "''root_id''" u ?v] h h1 h2 h3 h4 h5 h6 h7
  obtain w8 where
    s8: "execStmtTx u (DeleteWhere ''attributes'' ''root_id'' ?v) w7 = Return None w8" by auto
  show ?thesis
    unfolding deleteByRootID_def by (simp only: s1 s2 s3 s4 s5 s6 s7 s8 andThen.simps) blast
qed

lemma example_world_ready:
  "exec_faults (example_world cs [] ff) = []"
  "tx (example_world cs [] ff) = Some example_store"
  "caseSensitive (example_world cs ef ff) = cs"
  "\<forall>t \<in> {''blocks'', ''blocks_fts'', ''blocks_fts_case_insensitive'', ''spans'',
           ''assets'', ''refs'', ''file_annotation_refs'', ''attributes''}.
     \<forall>c \<in> {''root_id'', ''box'', ''path'', ''hpath''}. has_column (disk (example_world cs ef ff)) t c"
  by (simp_all add: example_world_def example_store_def example_table_def has_column_def)

lemma example_world_rows:
  "t \<in> {''blocks'', ''blocks_fts'', ''blocks_fts_case_insensitive'', ''spans'',
           ''assets'', ''refs'', ''file_annotation_refs'', ''attributes''} \<Longrightarrow>
   table_rows (example_world cs ef ff) t = Some [example_row ''b1'' ''d1'', example_row ''b2'' ''d2'']"
  by (auto simp add: example_world_def example_store_def example_table_def table_rows_def)

lemma example_row_lookup:
  "example_row i root ''id'' = Some (Text i)"
  "example_row i root ''root_id'' = Some (Text root)"
  "example_row i root ''box'' = Some (Text ''box0'')"
  "example_row i root ''path'' = Some (Text ''/old.sy'')"
  "example_row i root ''hpath'' = Some (Text ''/old'')"
  "example_row i root ''content'' = Some (Text ''hello'')"
  "example_row i root ''markdown'' = Some (Text ''*hello*'')"
  by (simp_all add: example_row_def)

subsection \<open>Deleting a document\<close>

text \<open>
  Claim C1, as the code has it. When \<open>deleteByRootID\<close> returns without an error, the
  rows of every table are those it had before, less the rows whose \<open>root_id\<close> is the
  given id, in \<open>blocks\<close>, \<open>blocks_fts\<close>, \<open>spans\<close>, \<open>assets\<close>, \<open>refs\<close>,
  \<open>file_annotation_refs\<close> and \<open>attributes\<close> in both case modes, and in
  \<open>blocks_fts_case_insensitive\<close> when the case-sensitive mode is off; when it is on,
  \<open>blocks_fts_case_insensitive\<close> is left as it is. No row of the given root is left in the
  tables so purged.
\<close>

theorem deleteByRootID_removes_rows:
  assumes "deleteByRootID u rootID context w = Return None w'"
  shows "(\<forall>t. table_rows w' t =
            (if t \<in> {''blocks'', ''blocks_fts'', ''spans'', ''assets'', ''refs'',
                      ''file_annotation_refs'', ''attributes''}
                \<or> (t = ''blocks_fts_case_insensitive'' \<and> \<not> caseSensitive w)
             then map_option (filter (\<lambda>r. r ''root_id'' \<noteq> Some (Text rootID))) (table_rows w t)
             else table_rows w t))
    \<and> (\<forall>t. t \<in> {''blocks'', ''blocks_fts'', ''spans'', ''assets'', ''refs'',
                  ''file_annotation_refs'', ''attributes''}
            \<or> (t = ''blocks_fts_case_insensitive'' \<and> \<not> caseSensitive w) \<longrightarrow>
          (\<exists>rs. table_rows w' t = Some rs \<and> (\<forall>r \<in> set rs. r ''root_id'' \<noteq> Some (Text rootID))))"
proof (intro conjI allI impI)
  fix t
  show "table_rows w' t =
            (if t \<in> {''blocks'', ''blocks_fts'', ''spans'', ''assets'', ''refs'',
                      ''file_annotation_refs'', ''attributes''}
                \<or> (t = ''blocks_fts_case_insensitive'' \<and> \<not> caseSensitive w)
             then map_option (filter (\<lambda>r. r ''root_id'' \<noteq> Some (Text rootID))) (table_rows w t)
             else table_rows w t)"
    by (rule deleteByRootID_effect(1)[OF assms])
next
  fix t
  assume t: "t \<in> {''blocks'', ''blocks_fts'', ''spans'', ''assets'', ''refs'',
                  ''file_annotation_refs'', ''attributes''}
            \<or> (t = ''blocks_fts_case_insensitive'' \<and> \<not> caseSensitive w)"
  from deleteByRootID_effect(2)[OF assms t] obtain rs where rs: "table_rows w t = Some rs"
    by blast
  have "table_rows w' t = Some (filter (\<lambda>r. r ''root_id'' \<noteq> Some (Text rootID)) rs)"
    unfolding deleteByRootID_effect(1)[OF assms, of t] using t rs by simp
  then show "\<exists>rs. table_rows w' t = Some rs \<and> (\<forall>r \<in> set rs. r ''root_id'' \<noteq> Some (Text rootID))"
    by simp
qed

theorem deleteByRootID_removes_rows_witness:
  "returned (deleteByRootID example_settings ''d1'' [] (example_world False [] [])) = Some None
   \<and> cells (world_of (deleteByRootID example_settings ''d1'' [] (example_world False [] [])))
         ''blocks'' ''root_id'' = Some [Some (Text ''d2'')]
   \<and> cells (world_of (deleteByRootID example_settings ''d1'' [] (example_world False [] [])))
         ''blocks_fts_case_insensitive'' ''root_id'' = Some [Some (Text ''d2'')]
   \<and> cells (world_of (deleteByRootID example_settings ''d1'' [] (example_world False [] [])))
         ''attributes'' ''root_id'' = Some [Some (Text ''d2'')]"
proof -
  let ?w = "example_world False [] []"
  from deleteByRootID_runs[OF example_world_ready(1,2), of False "[]" example_settings "''d1''" "[]"]
       example_world_ready(4)[of False "[]" "[]"]
  obtain w' where e: "deleteByRootID example_settings ''d1'' [] ?w = Return None w'"
    by auto
  from deleteByRootID_removes_rows[OF e]
  have eq: "\<And>t. table_rows w' t =
            (if t \<in> {''blocks'', ''blocks_fts'', ''spans'', ''assets'', ''refs'',
                      ''file_annotation_refs'', ''attributes''}
                \<or> (t = ''blocks_fts_case_insensitive'' \<and> \<not> caseSensitive ?w)
             then map_option (filter (\<lambda>r. r ''root_id'' \<noteq> Some (Text ''d1''))) (table_rows ?w t)
             else table_rows ?w t)"
    by blast
  show ?thesis
    unfolding e by (simp add: cells_def eq example_world_ready(3) example_world_rows example_row_lookup)
qed

text \<open>
  In the case-sensitive mode the rows of the root stay in
  \<open>blocks_fts_case_insensitive\<close>; and when a statement fails (here the first, on a locked
  database) the call returns the error and the rows are still there.
\<close>

theorem deleteByRootID_case_sensitive_counterexample:
  "returned (deleteByRootID example_settings ''d1'' [] (example_world True [] [])) = Some None
   \<and> cells (world_of (deleteByRootID example_settings ''d1'' [] (example_world True [] [])))
         ''blocks_fts_case_insensitive'' ''root_id'' = Some [Some (Text ''d1''), Some (Text ''d2'')]
   \<and> returned (deleteByRootID example_settings ''d1'' []
                 (example_world False [Some ''database is locked''] []))
         = Some (Some ''database is locked'')
   \<and> cells (world_of (deleteByRootID example_settings ''d1'' []
                 (example_world False [Some ''database is locked''] [])))
         ''blocks'' ''root_id'' = Some [Some (Text ''d1''), Some (Text ''d2'')]"
proof -
  let ?w = "example_world True [] []"
  from deleteByRootID_runs[OF example_world_ready(1,2), of True "[]" example_settings "''d1''" "[]"]
       example_world_ready(4)[of True "[]" "[]"]
  obtain w' where e: "deleteByRootID example_settings ''d1'' [] ?w = Return None w'"
    by auto
  have a: "cells w' ''blocks_fts_case_insensitive'' ''root_id'' = Some [Some (Text ''d1''), Some (Text ''d2'')]"
    by (simp add: cells_def deleteByRootID_effect(1)[OF e] example_world_ready(3)
          example_world_rows example_row_lookup)
  let ?v = "example_world False [Some ''database is locked''] []"
  have nm: "\<not> Contains ''database is locked'' malformed" by (simp add: malformed_def)
  have nf: "next_fault (exec_faults ?v) = Some ''database is locked''"
    by (simp add: example_world_def next_fault_def)
  have b: "deleteByRootID example_settings ''d1'' [] ?v
           = Return (Some ''database is locked'') (emit [LogError] (?v\<lparr>exec_faults := tl (exec_faults ?v)\<rparr>))"
    unfolding deleteByRootID_def by (simp only: execStmtTx_fault[OF nf nm] andThen.simps)
  have c: "cells (emit [LogError] (?v\<lparr>exec_faults := tl (exec_faults ?v)\<rparr>)) ''blocks'' ''root_id''
           = Some [Some (Text ''d1''), Some (Text ''d2'')]"
    by (simp add: cells_def table_rows_def emit_def example_world_def example_store_def
          example_table_def example_row_lookup)
  show ?thesis unfolding e b using a c by simp
qed

subsection \<open>Renaming a document\<close>


















subsection \<open>A statement that fails\<close>


lemma emit_fields:
  "db (emit evs w) = db w" "disk (emit evs w) = disk w" "files (emit evs w) = files w"
  "tx (emit evs w) = tx w" "exec_faults (emit evs w) = exec_faults w"
  "conn_faults (emit evs w) = conn_faults w" "fs_faults (emit evs w) = fs_faults w"
  "trace (emit evs w) = trace w @ evs"
  by (simp_all add: emit_def)

lemma os_RemoveAll_eq:
  "os_RemoveAll u p w =
     (next_fault (fs_faults w),
      if next_fault (fs_faults w) = None
      then w\<lparr>fs_faults := tl (fs_faults w), files := files w - {p},
             disk := (if p = DBPath u then empty_store else disk w),
             trace := trace w @ [RemoveAll p True]\<rparr>
      else w\<lparr>fs_faults := tl (fs_faults w), trace := trace w @ [RemoveAll p False]\<rparr>)"
  by (cases "next_fault (fs_faults w)") (simp_all add: os_RemoveAll_def Let_def emit_def)

lemma os_RemoveAll_fields:
  assumes "os_RemoveAll u p w = (e, w')"
  shows "e = next_fault (fs_faults w)" and "fs_faults w' = tl (fs_faults w)"
    and "tx w' = tx w" and "db w' = db w"
    and "files w' = (if next_fault (fs_faults w) = None then files w - {p} else files w)"
    and "disk w' = (if next_fault (fs_faults w) = None \<and> p = DBPath u then empty_store else disk w)"
    and "trace w' = trace w @ [RemoveAll p (next_fault (fs_faults w) = None)]"
    and "exec_faults w' = exec_faults w" and "conn_faults w' = conn_faults w"
proof -
  note both = assms[unfolded os_RemoveAll_eq, THEN iffD1[OF prod.inject]]
  have e: "e = next_fault (fs_faults w)" by (rule conjunct1[OF both, symmetric])
  have w': "w' = (if next_fault (fs_faults w) = None
      then w\<lparr>fs_faults := tl (fs_faults w), files := files w - {p},
             disk := (if p = DBPath u then empty_store else disk w),
             trace := trace w @ [RemoveAll p True]\<rparr>
      else w\<lparr>fs_faults := tl (fs_faults w), trace := trace w @ [RemoveAll p False]\<rparr>)"
    by (rule conjunct2[OF both, symmetric])
  show "e = next_fault (fs_faults w)" by (rule e)
  show "fs_faults w' = tl (fs_faults w)" by (simp add: w')
  show "tx w' = tx w" by (simp add: w')
  show "db w' = db w" by (simp add: w')
  show "files w' = (if next_fault (fs_faults w) = None then files w - {p} else files w)"
    by (simp add: w')
  show "disk w' = (if next_fault (fs_faults w) = None \<and> p = DBPath u then empty_store else disk w)"
    by (simp add: w')
  show "trace w' = trace w @ [RemoveAll p (next_fault (fs_faults w) = None)]"
    by (simp add: w')
  show "exec_faults w' = exec_faults w" by (simp add: w')
  show "conn_faults w' = conn_faults w" by (simp add: w')
qed

text \<open>The answers of the environment to the three removals.\<close>

lemma removal_answers_eq:
  "removal_answers u fs =
     [(DBPath u, next_fault fs), (DBPath u @ ''-shm'', next_fault (tl fs)),
      (DBPath u @ ''-wal'', next_fault (tl (tl fs)))]"
  by (cases fs; cases "tl fs"; cases "tl (tl fs)")
     (simp_all add: removal_answers_def next_fault_def numeral_3_eq_3)

lemma removed_paths_eq:
  "removed_paths u fs =
     (if next_fault fs \<noteq> None then []
      else if next_fault (tl fs) \<noteq> None then [DBPath u]
      else if next_fault (tl (tl fs)) \<noteq> None then [DBPath u, DBPath u @ ''-shm'']
      else [DBPath u, DBPath u @ ''-shm'', DBPath u @ ''-wal''])"
  by (simp add: removed_paths_def removal_answers_eq)

lemma removal_events_eq:
  "removal_events u fs =
     (if next_fault fs \<noteq> None then [RemoveAll (DBPath u) False]
      else if next_fault (tl fs) \<noteq> None
      then [RemoveAll (DBPath u) True, RemoveAll (DBPath u @ ''-shm'') False]
      else [RemoveAll (DBPath u) True, RemoveAll (DBPath u @ ''-shm'') True,
            RemoveAll (DBPath u @ ''-wal'') (next_fault (tl (tl fs)) = None)])"
  by (simp add: removal_events_def removed_paths_eq removal_answers_eq)

lemma removeDatabaseFile_fields:
  assumes "removeDatabaseFile u w = (e, w')"
  shows "tx w' = tx w" and "db w' = db w"
    and "exec_faults w' = exec_faults w" and "conn_faults w' = conn_faults w"
    and "files w' = files w - set (removed_paths u (fs_faults w))"
    and "disk w' = (if next_fault (fs_faults w) = None then empty_store else disk w)"
    and "trace w' = trace w @ removal_events u (fs_faults w)"
    and "e = None \<longleftrightarrow> length (removed_paths u (fs_faults w)) = 3"
proof -
  obtain e1 w1 where r1: "os_RemoveAll u (DBPath u) w = (e1, w1)"
    by (cases "os_RemoveAll u (DBPath u) w")
  obtain e2 w2 where r2: "os_RemoveAll u (DBPath u @ ''-shm'') w1 = (e2, w2)"
    by (cases "os_RemoveAll u (DBPath u @ ''-shm'') w1")
  obtain e3 w3 where r3: "os_RemoveAll u (DBPath u @ ''-wal'') w2 = (e3, w3)"
    by (cases "os_RemoveAll u (DBPath u @ ''-wal'') w2")
  note f1 = os_RemoveAll_fields[OF r1] and f2 = os_RemoveAll_fields[OF r2]
    and f3 = os_RemoveAll_fields[OF r3]
  have w': "w' = (if e1 \<noteq> None then w1 else if e2 \<noteq> None then w2 else w3)
            \<and> e = (if e1 \<noteq> None then e1 else if e2 \<noteq> None then e2 else e3)"
  proof (cases e1)
    case (Some x)
    from assms[unfolded removeDatabaseFile_def r1 Some]
    have "(Some x, w1) = (e, w')" by (simp only: prod.case option.case)
    with Some show ?thesis by auto
  next
    case None
    show ?thesis
    proof (cases e2)
      case (Some y)
      from assms[unfolded removeDatabaseFile_def r1 None]
      have "(case os_RemoveAll u (DBPath u @ ''-shm'') w1 of
              (Some err, w2) \<Rightarrow> (Some err, w2)
            | (None, w2) \<Rightarrow>
               (case os_RemoveAll u (DBPath u @ ''-wal'') w2 of
                  (Some err, w3) \<Rightarrow> (Some err, w3)
                | (None, w3) \<Rightarrow> (None, w3))) = (e, w')"
        by (simp only: prod.case option.case)
      from this[unfolded r2 Some] have "(Some y, w2) = (e, w')"
        by (simp only: prod.case option.case)
      with None Some show ?thesis by auto
    next
      case n2: None
      from assms[unfolded removeDatabaseFile_def r1 None]
      have "(case os_RemoveAll u (DBPath u @ ''-shm'') w1 of
              (Some err, w2) \<Rightarrow> (Some err, w2)
            | (None, w2) \<Rightarrow>
               (case os_RemoveAll u (DBPath u @ ''-wal'') w2 of
                  (Some err, w3) \<Rightarrow> (Some err, w3)
                | (None, w3) \<Rightarrow> (None, w3))) = (e, w')"
        by (simp only: prod.case option.case)
      from this[unfolded r2 n2]
      have "(case os_RemoveAll u (DBPath u @ ''-wal'') w2 of
                  (Some err, w3) \<Rightarrow> (Some err, w3)
                | (None, w3) \<Rightarrow> (None, w3)) = (e, w')"
        by (simp only: prod.case option.case)
      from this[unfolded r3] have "w' = w3 \<and> e = e3" by (cases e3) simp_all
      with None n2 show ?thesis by simp
    qed
  qed
  have ne: "DBPath u @ ''-shm'' \<noteq> DBPath u" "DBPath u @ ''-wal'' \<noteq> DBPath u" by simp_all
  have e1: "e1 = next_fault (fs_faults w)" and e2: "e2 = next_fault (tl (fs_faults w))"
    and e3: "e3 = next_fault (tl (tl (fs_faults w)))"
    using f1(1,2) f2(1,2) f3(1) by simp_all
  show "tx w' = tx w" using w' f1(3) f2(3) f3(3) by simp
  show "db w' = db w" using w' f1(4) f2(4) f3(4) by simp
  show "exec_faults w' = exec_faults w" using w' f1(8) f2(8) f3(8) by simp
  show "conn_faults w' = conn_faults w" using w' f1(9) f2(9) f3(9) by simp
  show "disk w' = (if next_fault (fs_faults w) = None then empty_store else disk w)"
    using w' f1(1,6) f2(6) f3(6) ne by (auto split: if_splits)
  show "files w' = files w - set (removed_paths u (fs_faults w))"
  proof (cases "e1 \<noteq> None")
    case True
    with w' f1(5) e1 show ?thesis by (auto simp: removed_paths_eq)
  next
    case n1: False
    show ?thesis
    proof (cases "e2 \<noteq> None")
      case True
      with n1 w' f1(2,5) f2(5) e1 e2 show ?thesis by (auto simp: removed_paths_eq)
    next
      case n2: False
      have "files w3 = (if e3 = None then files w - {DBPath u, DBPath u @ ''-shm'', DBPath u @ ''-wal''}
                        else files w - {DBPath u, DBPath u @ ''-shm''})"
        using n1 n2 f1(2,5) f2(2,5) f3(5) e1 e2 e3 by auto
      with n1 n2 w' e1 e2 e3 show ?thesis by (simp add: removed_paths_eq)
    qed
  qed
  show "trace w' = trace w @ removal_events u (fs_faults w)"
  proof (cases "e1 \<noteq> None")
    case True
    with w' f1(7) e1 show ?thesis by (simp add: removal_events_eq)
  next
    case n1: False
    show ?thesis
    proof (cases "e2 \<noteq> None")
      case True
      with n1 w' f1(2,7) f2(7) e1 e2 show ?thesis by (simp add: removal_events_eq)
    next
      case n2: False
      with n1 w' f1(2,7) f2(2,7) f3(7) e1 e2 e3 show ?thesis by (simp add: removal_events_eq)
    qed
  qed
  show "e = None \<longleftrightarrow> length (removed_paths u (fs_faults w)) = 3"
    using w' e1 e2 e3 by (simp add: removed_paths_eq)
qed

lemma closeDatabase_fields:
  "tx (snd (closeDatabase u w)) = tx w"
  "disk (snd (closeDatabase u w)) = disk w" "fs_faults (snd (closeDatabase u w)) = fs_faults w"
  "exec_faults (snd (closeDatabase u w)) = exec_faults w"
  "db (snd (closeDatabase u w)) = (if db w = None then None else Some False)"
  "files (snd (closeDatabase u w))
     = (if db w = Some True \<and> next_fault (conn_faults w) = None
        then files w - side_files u else files w)"
  "trace (snd (closeDatabase u w))
     = trace w @ (if db w = None then [] else [CloseDB, FreeOSMemoryAndGC])"
  "conn_faults (snd (closeDatabase u w))
     = (if db w = None then conn_faults w else tl (conn_faults w))"
  by (simp_all add: closeDatabase_def emit_def)






subsection \<open>The template functions\<close>

lemma Replace1_question_skip:
  "CHR ''?'' \<notin> set p \<Longrightarrow> Replace1 (p @ r) ''?'' a = p @ Replace1 r ''?'' a"
  by (induction p) auto

lemma Replace1_question_head: "Replace1 (CHR ''?'' # r) ''?'' a = a @ r"
  by simp

lemma Replace1_question_absent: "CHR ''?'' \<notin> set s \<Longrightarrow> Replace1 s ''?'' a = s"
  by (induction s) auto

lemma substitute_absent: "CHR ''?'' \<notin> set s \<Longrightarrow> substitute s args = s"
  by (induction args) (simp_all add: Replace1_question_absent)

lemma substitute_skip:
  "CHR ''?'' \<notin> set p \<Longrightarrow> substitute (p @ r) args = p @ substitute r args"
  by (induction args arbitrary: r) (simp_all add: Replace1_question_skip)

lemma substitute_first:
  "CHR ''?'' \<notin> set p \<Longrightarrow>
     substitute (p @ CHR ''?'' # r) (a # args) = substitute (p @ a @ r) args"
  by (simp add: Replace1_question_skip)

lemma substitute_positional:
  "\<forall>a \<in> set args. CHR ''?'' \<notin> set a \<Longrightarrow> substitute stmt args = positional stmt args"
proof (induction stmt args rule: positional.induct)
  case (1 args)
  show ?case by (simp add: substitute_absent)
next
  case (2 c cs)
  show ?case by simp
next
  case (3 c cs arg args)
  show ?case
  proof (cases "c = CHR ''?''")
    case True
    have "substitute (c # cs) (arg # args) = substitute (arg @ cs) args"
      using True by simp
    also have "\<dots> = arg @ substitute cs args"
      using "3.prems" by (simp add: substitute_skip)
    also have "\<dots> = arg @ positional cs args"
      using "3.IH"(1)[OF True] "3.prems" by simp
    finally show ?thesis using True by simp
  next
    case False
    have "substitute (c # cs) (arg # args) = [c] @ substitute cs (arg # args)"
      using substitute_skip[of "[c]" cs "arg # args"] False by simp
    also have "\<dots> = c # positional cs (arg # args)"
      using "3.IH"(2)[OF False] "3.prems" by simp
    finally show ?thesis using False by simp
  qed
qed

text \<open>
  Claim C9, as the code has it. \<open>SQLTemplateFuncs\<close> stores exactly the four functions
  \<open>queryBlocks\<close>, \<open>getBlock\<close>, \<open>querySpans\<close> and \<open>querySQL\<close> (into an empty map these
  are its only entries; other entries of a map are kept). \<open>queryBlocks\<close> and \<open>querySpans\<close>
  hand every argument in turn to the first \<open>?\<close> that the text then holds, so that the
  \<open>i\<close>-th argument stands in the place of the \<open>i\<close>-th placeholder whenever no
  argument holds a \<open>?\<close> itself; they ask for page 1 with the limit 512 and for the limit
  512, and \<open>querySQL\<close> asks for the limit 1024, so that the results have at most 512 and
  1024 rows when the query functions honour their limit.
\<close>

theorem SQLTemplateFuncs_registers:
  "dom (SQLTemplateFuncs q Map.empty) = {''queryBlocks'', ''getBlock'', ''querySpans'', ''querySQL''}
   \<and> SQLTemplateFuncs q m ''queryBlocks'' = Some (QueryBlocksFunc (queryBlocks q))
   \<and> SQLTemplateFuncs q m ''getBlock'' = Some (GetBlockFunc (getBlock q))
   \<and> SQLTemplateFuncs q m ''querySpans'' = Some (QuerySpansFunc (querySpans q))
   \<and> SQLTemplateFuncs q m ''querySQL'' = Some (QuerySQLFunc (querySQL q))
   \<and> (\<forall>name. name \<notin> {''queryBlocks'', ''getBlock'', ''querySpans'', ''querySQL''} \<longrightarrow>
          SQLTemplateFuncs q m name = m name)
   \<and> ((\<forall>a \<in> set args. CHR ''?'' \<notin> set a) \<longrightarrow>
          queryBlocks q stmt args = SelectBlocksRawStmt q (positional stmt args) 1 512
          \<and> querySpans q stmt args = SelectSpansRawStmt q (positional stmt args) 512)
   \<and> (CHR ''?'' \<notin> set p \<longrightarrow>
          queryBlocks q (p @ CHR ''?'' # r) (a # args) = queryBlocks q (p @ a @ r) args
          \<and> querySpans q (p @ CHR ''?'' # r) (a # args) = querySpans q (p @ a @ r) args)
   \<and> querySQL q stmt = fst (Query q stmt 1024)
   \<and> ((\<forall>s page limit. 0 \<le> limit \<longrightarrow>
              int (length (SelectBlocksRawStmt q s page limit)) \<le> limit) \<longrightarrow>
          length (queryBlocks q stmt args) \<le> 512)
   \<and> ((\<forall>s limit. 0 \<le> limit \<longrightarrow> int (length (SelectSpansRawStmt q s limit)) \<le> limit) \<longrightarrow>
          length (querySpans q stmt args) \<le> 512)
   \<and> ((\<forall>s limit. 0 \<le> limit \<longrightarrow> int (length (fst (Query q s limit))) \<le> limit) \<longrightarrow>
          length (querySQL q stmt) \<le> 1024)"
proof (intro conjI impI allI)
  show "dom (SQLTemplateFuncs q Map.empty) = {''queryBlocks'', ''getBlock'', ''querySpans'', ''querySQL''}"
    by (auto simp: SQLTemplateFuncs_def)
  show "SQLTemplateFuncs q m ''queryBlocks'' = Some (QueryBlocksFunc (queryBlocks q))"
    "SQLTemplateFuncs q m ''getBlock'' = Some (GetBlockFunc (getBlock q))"
    "SQLTemplateFuncs q m ''querySpans'' = Some (QuerySpansFunc (querySpans q))"
    "SQLTemplateFuncs q m ''querySQL'' = Some (QuerySQLFunc (querySQL q))"
    by (simp_all add: SQLTemplateFuncs_def)
  show "SQLTemplateFuncs q m name = m name"
    if "name \<notin> {''queryBlocks'', ''getBlock'', ''querySpans'', ''querySQL''}" for name
    using that by (simp add: SQLTemplateFuncs_def)
  show "queryBlocks q stmt args = SelectBlocksRawStmt q (positional stmt args) 1 512"
    "querySpans q stmt args = SelectSpansRawStmt q (positional stmt args) 512"
    if "\<forall>a \<in> set args. CHR ''?'' \<notin> set a"
    using substitute_positional[OF that] by (simp_all add: queryBlocks_def querySpans_def)
  show "queryBlocks q (p @ CHR ''?'' # r) (a # args) = queryBlocks q (p @ a @ r) args"
    "querySpans q (p @ CHR ''?'' # r) (a # args) = querySpans q (p @ a @ r) args"
    if "CHR ''?'' \<notin> set p"
    using substitute_first[OF that] by (simp_all add: queryBlocks_def querySpans_def)
  show "querySQL q stmt = fst (Query q stmt 1024)" by (simp add: querySQL_def)
  show "length (queryBlocks q stmt args) \<le> 512"
    if "\<forall>s page limit. 0 \<le> limit \<longrightarrow> int (length (SelectBlocksRawStmt q s page limit)) \<le> limit"
  proof -
    from that have "0 \<le> (512::int) \<longrightarrow>
        int (length (SelectBlocksRawStmt q (substitute stmt args) 1 512)) \<le> 512" by blast
    then show ?thesis by (simp add: queryBlocks_def)
  qed
  show "length (querySpans q stmt args) \<le> 512"
    if "\<forall>s limit. 0 \<le> limit \<longrightarrow> int (length (SelectSpansRawStmt q s limit)) \<le> limit"
  proof -
    from that have "0 \<le> (512::int) \<longrightarrow>
        int (length (SelectSpansRawStmt q (substitute stmt args) 512)) \<le> 512" by blast
    then show ?thesis by (simp add: querySpans_def)
  qed
  show "length (querySQL q stmt) \<le> 1024"
    if "\<forall>s limit. 0 \<le> limit \<longrightarrow> int (length (fst (Query q s limit))) \<le> limit"
  proof -
    from that have "0 \<le> (1024::int) \<longrightarrow>
        int (length (fst (Query q stmt 1024))) \<le> 1024" by blast
    then show ?thesis by (simp add: querySQL_def)
  qed
qed

theorem SQLTemplateFuncs_registers_witness:
  "''getBlocks'' \<notin> {''queryBlocks'', ''getBlock'', ''querySpans'', ''querySQL''}
   \<and> SQLTemplateFuncs example_queries Map.empty ''getBlocks'' = None
   \<and> list_all (\<lambda>a. CHR ''?'' \<notin> set a) [''d1'', ''p'']
   \<and> queryBlocks example_queries ''SELECT * FROM blocks WHERE root_id = '?' AND type = '?' LIMIT 9''
         [''d1'', ''p'']
       = SelectBlocksRawStmt example_queries
           ''SELECT * FROM blocks WHERE root_id = 'd1' AND type = 'p' LIMIT 9'' 1 512
   \<and> CHR ''?'' \<notin> set ''id = ''
   \<and> querySpans example_queries (''id = '' @ CHR ''?'' # '' OR id = ?'') [''a?'', ''b'']
       = querySpans example_queries (''id = '' @ ''a?'' @ '' OR id = ?'') [''b'']
   \<and> length (queryBlocks example_queries ''SELECT * FROM blocks'' []) \<le> 512
   \<and> length (queryBlocks example_queries ''SELECT * FROM blocks'' []) = 512
   \<and> length (querySpans example_queries ''SELECT * FROM spans'' []) \<le> 512
   \<and> length (querySQL example_queries ''SELECT * FROM refs'') \<le> 1024
   \<and> length (querySQL example_queries ''SELECT * FROM refs'') = 1024"
proof -
  note T = SQLTemplateFuncs_registers[where q = example_queries and m = Map.empty]
  have n: "''getBlocks'' \<notin> {''queryBlocks'', ''getBlock'', ''querySpans'', ''querySQL''}" by simp
  have a: "SQLTemplateFuncs example_queries Map.empty ''getBlocks'' = None"
    using T[where stmt = "[]" and args = "[]" and p = "[]" and r = "[]" and a = "[]"] n by simp
  have h2: "\<forall>a \<in> set [''d1'', ''p'']. CHR ''?'' \<notin> set a" by simp
  have b: "queryBlocks example_queries ''SELECT * FROM blocks WHERE root_id = '?' AND type = '?' LIMIT 9''
         [''d1'', ''p'']
       = SelectBlocksRawStmt example_queries
           ''SELECT * FROM blocks WHERE root_id = 'd1' AND type = 'p' LIMIT 9'' 1 512"
    using T[where stmt = "''SELECT * FROM blocks WHERE root_id = '?' AND type = '?' LIMIT 9''"
              and args = "[''d1'', ''p'']" and p = "[]" and r = "[]" and a = "[]"] h2
    by simp
  have h3: "CHR ''?'' \<notin> set ''id = ''" by simp
  have c: "querySpans example_queries (''id = '' @ CHR ''?'' # '' OR id = ?'') [''a?'', ''b'']
       = querySpans example_queries (''id = '' @ ''a?'' @ '' OR id = ?'') [''b'']"
    using T[where stmt = "[]" and args = "[''b'']" and p = "''id = ''" and r = "'' OR id = ?''"
              and a = "''a?''"] h3
    by blast
  have h4: "\<forall>s page limit. 0 \<le> limit \<longrightarrow>
              int (length (SelectBlocksRawStmt example_queries s page limit)) \<le> limit"
    and h5: "\<forall>s limit. 0 \<le> limit \<longrightarrow> int (length (SelectSpansRawStmt example_queries s limit)) \<le> limit"
    and h6: "\<forall>s limit. 0 \<le> limit \<longrightarrow> int (length (fst (Query example_queries s limit))) \<le> limit"
    by (auto simp add: example_queries_def)
  have d: "length (querySpans example_queries ''SELECT * FROM spans'' []) \<le> 512"
    using T[where stmt = "''SELECT * FROM spans''" and args = "[]" and p = "[]" and r = "[]"
              and a = "[]"] h5
    by blast
  have e': "length (queryBlocks example_queries ''SELECT * FROM blocks'' []) \<le> 512"
    using T[where stmt = "''SELECT * FROM blocks''" and args = "[]" and p = "[]" and r = "[]"
              and a = "[]"] h4
    by blast
  have f': "length (querySQL example_queries ''SELECT * FROM refs'') \<le> 1024"
    using T[where stmt = "''SELECT * FROM refs''" and args = "[]" and p = "[]" and r = "[]"
              and a = "[]"] h6
    by blast
  have e: "length (queryBlocks example_queries ''SELECT * FROM blocks'' []) = 512"
    by (simp add: queryBlocks_def example_queries_def)
  have f: "length (querySQL example_queries ''SELECT * FROM refs'') = 1024"
    by (simp add: querySQL_def example_queries_def)
  have l: "list_all (\<lambda>a. CHR ''?'' \<notin> set a) [''d1'', ''p'']" by simp
  show ?thesis
    by (intro conjI) (rule n a l b h3 c e' e d f' f)+
qed

text \<open>When an argument holds a \<open>?\<close>, the next argument lands inside it and the second
  placeholder stays: the substitution is not positional.\<close>

theorem substitute_argument_with_placeholder_counterexample:
  "substitute ''SELECT * FROM blocks WHERE content LIKE '%?%' AND type = '?' LIMIT 9''
       [''why?'', ''p'']
     = ''SELECT * FROM blocks WHERE content LIKE '%whyp%' AND type = '?' LIMIT 9''
   \<and> positional ''SELECT * FROM blocks WHERE content LIKE '%?%' AND type = '?' LIMIT 9''
       [''why?'', ''p'']
     = ''SELECT * FROM blocks WHERE content LIKE '%why?%' AND type = 'p' LIMIT 9''"
  by simp


subsection \<open>Opening and rebuilding the store\<close>

lemma run_stmt_apply: "run_stmt st s = Inr s' \<Longrightarrow> s' = apply_stmt st s"
  by (cases st) (auto split: option.splits if_splits)

lemma run_all_apply: "run_all sts s = Inr s' \<Longrightarrow> s' = fold apply_stmt sts s"
proof (induction sts arbitrary: s)
  case Nil
  then show ?case by simp
next
  case (Cons st sts)
  from Cons.prems obtain s1 where r: "run_stmt st s = Inr s1" and rest: "run_all sts s1 = Inr s'"
    by (cases "run_stmt st s") simp_all
  from run_stmt_apply[OF r] Cons.IH[OF rest] show ?case by simp
qed

lemma db_Exec_eq:
  "db_Exec u st w =
     (if next_fault (exec_faults w) \<noteq> None
      then (next_fault (exec_faults w), w\<lparr>exec_faults := tl (exec_faults w)\<rparr>)
      else if db w \<noteq> Some True
      then (Some ''sql: database is closed'', w\<lparr>exec_faults := tl (exec_faults w)\<rparr>)
      else (case run_stmt st (disk w) of
              Inl msg \<Rightarrow> (Some msg, w\<lparr>exec_faults := tl (exec_faults w)\<rparr>)
            | Inr s' \<Rightarrow> (None, w\<lparr>exec_faults := tl (exec_faults w), disk := s',
                                files := files w \<union> store_files u\<rparr>)))"
  by (cases "next_fault (exec_faults w)") (simp_all add: db_Exec_def Let_def)

lemma db_Exec_None:
  assumes "db_Exec u st w = (None, w1)"
  shows "run_stmt st (disk w) = Inr (disk w1)" and "db w1 = db w" and "db w = Some True"
    and "files w1 = files w \<union> store_files u" and "trace w1 = trace w"
proof -
  from assms have nf: "next_fault (exec_faults w) = None"
    by (cases "next_fault (exec_faults w)") (simp_all add: db_Exec_eq)
  from assms nf have d: "db w = Some True"
    by (cases "db w = Some True") (simp_all add: db_Exec_eq)
  from assms nf d obtain s' where r: "run_stmt st (disk w) = Inr s'"
    by (cases "run_stmt st (disk w)") (simp_all add: db_Exec_eq)
  from assms nf d r
  have w1: "w1 = w\<lparr>exec_faults := tl (exec_faults w), disk := s',
                    files := files w \<union> store_files u\<rparr>"
    by (simp add: db_Exec_eq)
  show "run_stmt st (disk w) = Inr (disk w1)" by (simp add: w1 r)
  show "db w1 = db w" by (simp add: w1)
  show "db w = Some True" by (rule d)
  show "files w1 = files w \<union> store_files u" by (simp add: w1)
  show "trace w1 = trace w" by (simp add: w1)
qed

lemma db_Exec_runs:
  assumes "exec_faults w = []" and "db w = Some True" and "run_stmt st (disk w) = Inr s'"
  shows "db_Exec u st w = (None, w\<lparr>disk := s', files := files w \<union> store_files u\<rparr>)"
  using assms by (simp add: db_Exec_eq next_fault_def)

lemma execOrFatal_Return:
  assumes "execOrFatal u sts w = Return x w'"
  shows "run_all sts (disk w) = Inr (disk w') \<and> db w' = db w \<and> trace w' = trace w
         \<and> files w' = (if sts = [] then files w else files w \<union> store_files u)"
  using assms
proof (induction sts arbitrary: w)
  case Nil
  then show ?case by simp
next
  case (Cons st sts)
  obtain e w1 where d: "db_Exec u st w = (e, w1)" by (cases "db_Exec u st w")
  from Cons.prems d have e: "e = None" and rest: "execOrFatal u sts w1 = Return x w'"
    by (cases e; simp add: LogFatalf_def)+
  note f = db_Exec_None[OF d[unfolded e]]
  from Cons.IH[OF rest] f show ?case by (auto split: if_splits)
qed

lemma execOrFatal_Exit:
  "execOrFatal u sts w = Exit code w' \<Longrightarrow> code = ExitCodeReadOnlyDatabase u"
proof (induction sts arbitrary: w)
  case Nil
  then show ?case by simp
next
  case (Cons st sts)
  obtain e w1 where d: "db_Exec u st w = (e, w1)" by (cases "db_Exec u st w")
  show ?case
  proof (cases e)
    case None
    with Cons.prems d have "execOrFatal u sts w1 = Exit code w'" by simp
    then show ?thesis by (rule Cons.IH)
  next
    case (Some err)
    with Cons.prems d show ?thesis by (simp add: LogFatalf_def)
  qed
qed

lemma execOrFatal_runs:
  assumes "exec_faults w = []" and "db w = Some True" and "run_all sts (disk w) = Inr s'"
  shows "\<exists>w'. execOrFatal u sts w = Return () w' \<and> exec_faults w' = [] \<and> disk w' = s'
            \<and> conn_faults w' = conn_faults w \<and> fs_faults w' = fs_faults w"
  using assms
proof (induction sts arbitrary: w)
  case Nil
  then show ?case by simp
next
  case (Cons st sts)
  from Cons.prems(3) obtain s1 where r: "run_stmt st (disk w) = Inr s1"
    and rest: "run_all sts s1 = Inr s'"
    by (cases "run_stmt st (disk w)") simp_all
  let ?w1 = "w\<lparr>disk := s1, files := files w \<union> store_files u\<rparr>"
  have d: "db_Exec u st w = (None, ?w1)" by (rule db_Exec_runs[OF Cons.prems(1,2) r])
  have "\<exists>w'. execOrFatal u sts ?w1 = Return () w' \<and> exec_faults w' = [] \<and> disk w' = s'
            \<and> conn_faults w' = conn_faults ?w1 \<and> fs_faults w' = fs_faults ?w1"
    by (rule Cons.IH) (simp_all add: Cons.prems rest)
  then show ?case by (simp add: d)
qed

text \<open>\<open>initDBConnection\<close>: the handle that was there is closed, and the store is open
  when the call returns; the contents of the store are as they were.\<close>

lemma initDBConnection_cases:
  "(\<exists>w'. initDBConnection u w = Return () w' \<and> db w' = Some True \<and> disk w' = disk w
          \<and> files w' = (if db w = Some True \<and> next_fault (conn_faults w) = None
                         then files w - side_files u else files w)
          \<and> fs_faults w' = fs_faults w \<and> exec_faults w' = exec_faults w
          \<and> trace w' = trace w @ (if db w = None then [] else [CloseDB, FreeOSMemoryAndGC])
                         @ [LogDatabaseSize, OpenDB]
          \<and> (conn_faults w = [] \<longrightarrow> conn_faults w' = []))
   \<or> (\<exists>w'. initDBConnection u w = Exit (ExitCodeReadOnlyDatabase u) w' \<and> disk w' = disk w
          \<and> files w' = (if db w = Some True \<and> next_fault (conn_faults w) = None
                         then files w - side_files u else files w)
          \<and> conn_faults w \<noteq> [])"
proof -
  define w1 where "w1 = (if db w \<noteq> None then snd (closeDatabase u w) else w)"
  have f1: "disk w1 = disk w" "fs_faults w1 = fs_faults w" "exec_faults w1 = exec_faults w"
    "files w1 = (if db w = Some True \<and> next_fault (conn_faults w) = None
                 then files w - side_files u else files w)"
    "trace w1 = trace w @ (if db w = None then [] else [CloseDB, FreeOSMemoryAndGC])"
    "conn_faults w1 = (if db w = None then conn_faults w else tl (conn_faults w))"
    by (auto simp: w1_def closeDatabase_fields)
  have r: "initDBConnection u w =
      (case sql_Open (emit [LogDatabaseSize] w1) of
           (Some err, w3) \<Rightarrow> LogFatalf (ExitCodeReadOnlyDatabase u) w3
         | (None, w3) \<Rightarrow> Return () w3)"
    by (simp add: initDBConnection_def w1_def Let_def)
  show ?thesis
  proof (cases "next_fault (conn_faults w1)")
    case None
    then have o: "sql_Open (emit [LogDatabaseSize] w1)
        = (None, emit [OpenDB] ((emit [LogDatabaseSize] w1)\<lparr>db := Some True,
              conn_faults := tl (conn_faults w1)\<rparr>))"
      by (simp add: sql_Open_def emit_fields)
    have "conn_faults w = [] \<longrightarrow> tl (conn_faults w1) = []" by (simp add: f1)
    then show ?thesis unfolding r o by (simp add: emit_def f1)
  next
    case (Some msg)
    then have o: "sql_Open (emit [LogDatabaseSize] w1)
        = (Some msg, emit [OpenDB] ((emit [LogDatabaseSize] w1)\<lparr>db := None,
              conn_faults := tl (conn_faults w1)\<rparr>))"
      by (simp add: sql_Open_def emit_fields)
    from Some have "conn_faults w \<noteq> []" by (auto simp: f1 next_fault_def split: if_splits)
    then show ?thesis unfolding r o by (simp add: emit_def f1 LogFatalf_def)
  qed
qed

lemma stat_applied:
  "tables (fold apply_stmt stat_statements s)
     = (tables s)(''stat'' \<mapsto> \<lparr>columns = [''key'', ''value''], kind = Ordinary, rows = []\<rparr>)"
  "indexes s i = None \<Longrightarrow> indexes (fold apply_stmt stat_statements s) i = None"
  by (simp_all add: stat_statements_def)

lemma run_all_stat: "run_all stat_statements s = Inr (fold apply_stmt stat_statements s)"
  by (simp add: stat_statements_def)

lemma schema_applied_tables:
  "tables (fold apply_stmt schema_statements s) =
     (tables s)
       (''blocks'' \<mapsto> \<lparr>columns = blocks_columns, kind = Ordinary, rows = []\<rparr>,
        ''blocks_fts'' \<mapsto>
           \<lparr>columns = blocks_columns, kind = FTS5 blocks_unindexed ''siyuan'', rows = []\<rparr>,
        ''blocks_fts_case_insensitive'' \<mapsto>
           \<lparr>columns = blocks_columns, kind = FTS5 blocks_unindexed ''siyuan case_insensitive'',
            rows = []\<rparr>,
        ''spans'' \<mapsto> \<lparr>columns = spans_columns, kind = Ordinary, rows = []\<rparr>,
        ''assets'' \<mapsto> \<lparr>columns = assets_columns, kind = Ordinary, rows = []\<rparr>,
        ''attributes'' \<mapsto> \<lparr>columns = attributes_columns, kind = Ordinary, rows = []\<rparr>,
        ''refs'' \<mapsto> \<lparr>columns = refs_columns, kind = Ordinary, rows = []\<rparr>,
        ''file_annotation_refs'' \<mapsto>
           \<lparr>columns = file_annotation_refs_columns, kind = Ordinary, rows = []\<rparr>)"
  by (simp add: schema_statements_def)

lemma schema_applied_indexes:
  "indexes (fold apply_stmt schema_statements s) ''idx_blocks_id'' = Some (''blocks'', ''id'')"
  "indexes (fold apply_stmt schema_statements s) ''idx_blocks_parent_id'' = Some (''blocks'', ''parent_id'')"
  "indexes (fold apply_stmt schema_statements s) ''idx_blocks_root_id'' = Some (''blocks'', ''root_id'')"
  "indexes (fold apply_stmt schema_statements s) ''idx_spans_root_id'' = Some (''spans'', ''root_id'')"
  "indexes (fold apply_stmt schema_statements s) ''idx_assets_root_id'' = Some (''assets'', ''root_id'')"
  "indexes (fold apply_stmt schema_statements s) ''idx_attributes_block_id'' = Some (''attributes'', ''block_id'')"
  "indexes (fold apply_stmt schema_statements s) ''idx_attributes_root_id'' = Some (''attributes'', ''root_id'')"
  by (simp_all add: schema_statements_def)

lemma schema_applied_other_indexes:
  "indexes s i = None \<Longrightarrow>
   i \<notin> {''idx_blocks_id'', ''idx_blocks_parent_id'', ''idx_blocks_root_id'', ''idx_spans_root_id'',
         ''idx_assets_root_id'', ''idx_attributes_block_id'', ''idx_attributes_root_id''} \<Longrightarrow>
   indexes (fold apply_stmt schema_statements s) i = None"
  by (simp add: schema_statements_def)

lemma setDatabaseVer_fresh:
  assumes "tables (disk w) ''stat'' = Some \<lparr>columns = cs, kind = k, rows = []\<rparr>"
  shows "disk (setDatabaseVer u w)
           = (disk w)\<lparr>tables := (tables (disk w))(''stat'' \<mapsto>
                \<lparr>columns = cs, kind = k, rows = [version_row u]\<rparr>)\<rparr>"
    and "db (setDatabaseVer u w) = db w" and "files (setDatabaseVer u w) = files w"
    and "exec_faults (setDatabaseVer u w) = exec_faults w"
    and "conn_faults (setDatabaseVer u w) = conn_faults w"
    and "fs_faults (setDatabaseVer u w) = fs_faults w"
    and "trace (setDatabaseVer u w) = trace w"
  using assms by (simp_all add: setDatabaseVer_def version_row_def)

lemma stored_version_stat:
  assumes "tables s ''stat'' = Some \<lparr>columns = cs, kind = k, rows = [version_row u]\<rparr>"
  shows "stored_version s = DatabaseVer u"
  using assms by (simp add: stored_version_def version_row_def)

lemma run_all_schema:
  assumes "list_all (\<lambda>(i, tc). indexes s i = None) schema_indexes"
  shows "run_all schema_statements s = Inr (fold apply_stmt schema_statements s)"
  using assms
  by (simp add: schema_indexes_def schema_statements_def blocks_columns_def spans_columns_def
        assets_columns_def attributes_columns_def)

lemma map_of_eqI:
  assumes "list_all (\<lambda>(k, v). m k = Some v) xs"
    and "\<And>k. k \<notin> set (map fst xs) \<Longrightarrow> m k = None"
  shows "m = map_of xs"
proof (rule ext)
  fix k
  show "m k = map_of xs k"
  proof (cases "map_of xs k")
    case None
    then have "k \<notin> set (map fst xs)" by (simp add: map_of_eq_None_iff)
    with assms(2) None show ?thesis by simp
  next
    case (Some v)
    then have "(k, v) \<in> set xs" by (rule map_of_SomeD)
    with assms(1) have "m k = Some v" by (auto simp: list_all_iff)
    with Some show ?thesis by simp
  qed
qed

lemma take3_next_fault:
  "list_all (\<lambda>f. f = None) (take 3 fs) \<Longrightarrow> next_fault fs = None"
  by (cases fs) (simp_all add: next_fault_def)

lemma initDBTables_Return:
  assumes "initDBTables u w = Return x w'"
  shows "tables (disk w') =
     (tables (disk w))
       (''stat'' \<mapsto> \<lparr>columns = [''key'', ''value''], kind = Ordinary, rows = [version_row u]\<rparr>,
        ''blocks'' \<mapsto> \<lparr>columns = blocks_columns, kind = Ordinary, rows = []\<rparr>,
        ''blocks_fts'' \<mapsto>
           \<lparr>columns = blocks_columns, kind = FTS5 blocks_unindexed ''siyuan'', rows = []\<rparr>,
        ''blocks_fts_case_insensitive'' \<mapsto>
           \<lparr>columns = blocks_columns, kind = FTS5 blocks_unindexed ''siyuan case_insensitive'',
            rows = []\<rparr>,
        ''spans'' \<mapsto> \<lparr>columns = spans_columns, kind = Ordinary, rows = []\<rparr>,
        ''assets'' \<mapsto> \<lparr>columns = assets_columns, kind = Ordinary, rows = []\<rparr>,
        ''attributes'' \<mapsto> \<lparr>columns = attributes_columns, kind = Ordinary, rows = []\<rparr>,
        ''refs'' \<mapsto> \<lparr>columns = refs_columns, kind = Ordinary, rows = []\<rparr>,
        ''file_annotation_refs'' \<mapsto>
           \<lparr>columns = file_annotation_refs_columns, kind = Ordinary, rows = []\<rparr>)"
    and "list_all (\<lambda>(i, tc). indexes (disk w') i = Some tc) schema_indexes"
    and "indexes (disk w) i = None \<Longrightarrow> i \<notin> set (map fst schema_indexes) \<Longrightarrow>
           indexes (disk w') i = None"
    and "db w' = Some True" and "files w' = files w \<union> store_files u"
    and "trace w' = trace w"
proof -
  from assms obtain y w1 where s1: "execOrFatal u stat_statements w = Return y w1"
    and s2: "execOrFatal u schema_statements (setDatabaseVer u w1) = Return x w'"
    by (cases "execOrFatal u stat_statements w") (simp_all add: initDBTables_def)
  from execOrFatal_Return[OF s1]
  have r1: "run_all stat_statements (disk w) = Inr (disk w1)" and d1: "db w1 = db w"
    and f1: "files w1 = files w \<union> store_files u" and t1: "trace w1 = trace w"
    by (simp_all add: stat_statements_def)
  have k1: "disk w1 = fold apply_stmt stat_statements (disk w)" by (rule run_all_apply[OF r1])
  have st: "tables (disk w1) ''stat'' = Some \<lparr>columns = [''key'', ''value''], kind = Ordinary, rows = []\<rparr>"
    by (simp add: k1 stat_applied(1))
  note sv = setDatabaseVer_fresh[OF st, of u]
  from execOrFatal_Return[OF s2]
  have r2: "run_all schema_statements (disk (setDatabaseVer u w1)) = Inr (disk w')"
    and d2: "db w' = db (setDatabaseVer u w1)"
    and f2: "files w' = files (setDatabaseVer u w1) \<union> store_files u"
    and t2: "trace w' = trace (setDatabaseVer u w1)"
    by (simp_all add: schema_statements_def)
  have k2: "disk w' = fold apply_stmt schema_statements (disk (setDatabaseVer u w1))"
    by (rule run_all_apply[OF r2])
  show "tables (disk w') =
     (tables (disk w))
       (''stat'' \<mapsto> \<lparr>columns = [''key'', ''value''], kind = Ordinary, rows = [version_row u]\<rparr>,
        ''blocks'' \<mapsto> \<lparr>columns = blocks_columns, kind = Ordinary, rows = []\<rparr>,
        ''blocks_fts'' \<mapsto>
           \<lparr>columns = blocks_columns, kind = FTS5 blocks_unindexed ''siyuan'', rows = []\<rparr>,
        ''blocks_fts_case_insensitive'' \<mapsto>
           \<lparr>columns = blocks_columns, kind = FTS5 blocks_unindexed ''siyuan case_insensitive'',
            rows = []\<rparr>,
        ''spans'' \<mapsto> \<lparr>columns = spans_columns, kind = Ordinary, rows = []\<rparr>,
        ''assets'' \<mapsto> \<lparr>columns = assets_columns, kind = Ordinary, rows = []\<rparr>,
        ''attributes'' \<mapsto> \<lparr>columns = attributes_columns, kind = Ordinary, rows = []\<rparr>,
        ''refs'' \<mapsto> \<lparr>columns = refs_columns, kind = Ordinary, rows = []\<rparr>,
        ''file_annotation_refs'' \<mapsto>
           \<lparr>columns = file_annotation_refs_columns, kind = Ordinary, rows = []\<rparr>)"
    unfolding k2 schema_applied_tables sv(1) by (simp add: k1 stat_applied(1))
  show "list_all (\<lambda>(i, tc). indexes (disk w') i = Some tc) schema_indexes"
    unfolding k2 by (simp add: schema_indexes_def schema_applied_indexes)
  show "indexes (disk w') i = None"
    if a: "indexes (disk w) i = None" and b: "i \<notin> set (map fst schema_indexes)"
  proof -
    have "indexes (disk (setDatabaseVer u w1)) i = None"
      by (simp add: sv(1) k1 stat_applied(2)[OF a])
    moreover have "i \<notin> {''idx_blocks_id'', ''idx_blocks_parent_id'', ''idx_blocks_root_id'',
         ''idx_spans_root_id'', ''idx_assets_root_id'', ''idx_attributes_block_id'',
         ''idx_attributes_root_id''}"
      using b by (simp add: schema_indexes_def)
    ultimately show ?thesis unfolding k2 by (rule schema_applied_other_indexes)
  qed
  from execOrFatal_Return[OF s1] have "db w = Some True"
    using db_Exec_None(3)[of u "DropTableIfExists ''stat''" w]
    by (cases "db_Exec u (DropTableIfExists ''stat'') w")
       (use s1 in \<open>auto simp: stat_statements_def LogFatalf_def split: option.splits\<close>)
  then show "db w' = Some True" by (simp add: d2 sv(2) d1)
  show "files w' = files w \<union> store_files u" by (auto simp: f2 sv(3) f1)
  show "trace w' = trace w" by (simp add: t2 sv(7) t1)
qed

lemma initDBTables_Exit:
  assumes "initDBTables u w = Exit code w'"
  shows "code = ExitCodeReadOnlyDatabase u"
proof (cases "execOrFatal u stat_statements w")
  case (Return x w1)
  with assms have "execOrFatal u schema_statements (setDatabaseVer u w1) = Exit code w'"
    by (simp add: initDBTables_def)
  then show ?thesis by (rule execOrFatal_Exit)
next
  case (Exit c w1)
  with assms have "execOrFatal u stat_statements w = Exit code w'"
    by (simp add: initDBTables_def)
  then show ?thesis by (rule execOrFatal_Exit)
qed

lemma initDBTables_runs:
  assumes ef: "exec_faults w = []" and d: "db w = Some True"
    and ix: "indexes (disk w) = Map.empty"
  shows "\<exists>w'. initDBTables u w = Return () w'"
proof -
  from execOrFatal_runs[OF ef d run_all_stat, of u]
  obtain w1 where s1: "execOrFatal u stat_statements w = Return () w1"
    and e1: "exec_faults w1 = []"
    and k1: "disk w1 = fold apply_stmt stat_statements (disk w)"
    by blast
  from execOrFatal_Return[OF s1] d have d1: "db w1 = Some True" by simp
  have st: "tables (disk w1) ''stat'' = Some \<lparr>columns = [''key'', ''value''], kind = Ordinary, rows = []\<rparr>"
    by (simp add: k1 stat_applied(1))
  note sv = setDatabaseVer_fresh[OF st, of u]
  have i1: "indexes (disk w1) i = None" for i
    unfolding k1 by (rule stat_applied(2)) (simp add: ix)
  have "list_all (\<lambda>(i, tc). indexes (disk (setDatabaseVer u w1)) i = None) schema_indexes"
    by (simp add: sv(1) i1 schema_indexes_def)
  from execOrFatal_runs[OF _ _ run_all_schema[OF this], of u]
  obtain w' where "execOrFatal u schema_statements (setDatabaseVer u w1) = Return () w'"
    by (auto simp: sv e1 d1)
  then show ?thesis by (simp add: initDBTables_def s1)
qed

lemma removed_paths_store_files: "set (removed_paths u fs) \<subseteq> store_files u"
  by (simp add: removed_paths_eq store_files_def side_files_def)

lemma DBPath_not_side: "DBPath u \<notin> side_files u"
  by (simp add: side_files_def)

text \<open>The world in which \<open>rebuildDatabase\<close> opens the store again, when it was called
  with the store open.\<close>

lemma rebuild_removal:
  assumes d: "db w = Some True"
    and w2: "w2 = (if DBPath u \<in> files (snd (closeDatabase u w))
                then (case removeDatabaseFile u (snd (closeDatabase u w)) of
                        (Some err, w') \<Rightarrow> emit [LogError, PushClearProgress] w'
                      | (None, w') \<Rightarrow> w')
                else snd (closeDatabase u w))"
  shows "db w2 = Some False"
    and "files w2 \<subseteq> files w" and "files w - store_files u \<subseteq> files w2"
    and "disk w2 = (if DBPath u \<in> files w \<and> next_fault (fs_faults w) = None
                    then empty_store else disk w)"
    and "trace w2 = trace w @ [CloseDB, FreeOSMemoryAndGC]
           @ (if DBPath u \<in> files w
              then removal_events u (fs_faults w)
                   @ (if length (removed_paths u (fs_faults w)) = 3 then []
                      else [LogError, PushClearProgress])
              else [])"
    and "exec_faults w2 = exec_faults w"
    and "conn_faults w = [] \<Longrightarrow> conn_faults w2 = []"
proof -
  define w1 where "w1 = snd (closeDatabase u w)"
  note c = closeDatabase_fields[of u w, folded w1_def]
  have c1: "db w1 = Some False" "fs_faults w1 = fs_faults w" "disk w1 = disk w"
    "exec_faults w1 = exec_faults w" "trace w1 = trace w @ [CloseDB, FreeOSMemoryAndGC]"
    using d by (simp_all add: c)
  have cf: "files w1 \<subseteq> files w" "files w - store_files u \<subseteq> files w1"
    "DBPath u \<in> files w1 \<longleftrightarrow> DBPath u \<in> files w"
    using DBPath_not_side[of u] by (auto simp: c store_files_def)
  have cc: "conn_faults w = [] \<Longrightarrow> conn_faults w1 = []" by (simp add: c)
  obtain e w' where r: "removeDatabaseFile u w1 = (e, w')" by (cases "removeDatabaseFile u w1")
  note f = removeDatabaseFile_fields[OF r, unfolded c1]
  have w2': "w2 = (if DBPath u \<in> files w
                  then (if e = None then w' else emit [LogError, PushClearProgress] w') else w1)"
    by (cases e) (simp_all add: w2 r cf(3) w1_def[symmetric])
  show "db w2 = Some False" by (simp add: w2' c1 f(2) emit_fields)
  show "files w2 \<subseteq> files w" using cf(1) by (auto simp: w2' f(5) emit_fields)
  show "files w - store_files u \<subseteq> files w2"
    using cf(2) removed_paths_store_files[of u "fs_faults w"]
    by (auto simp: w2' f(5) emit_fields)
  show "disk w2 = (if DBPath u \<in> files w \<and> next_fault (fs_faults w) = None
                    then empty_store else disk w)"
    by (simp add: w2' c1 f(6) emit_fields)
  show "trace w2 = trace w @ [CloseDB, FreeOSMemoryAndGC]
           @ (if DBPath u \<in> files w
              then removal_events u (fs_faults w)
                   @ (if length (removed_paths u (fs_faults w)) = 3 then []
                      else [LogError, PushClearProgress])
              else [])"
    using f(8) by (simp add: w2' c1 f(7) emit_fields)
  show "exec_faults w2 = exec_faults w" by (simp add: w2' c1 f(3) emit_fields)
  show "conn_faults w2 = []" if "conn_faults w = []"
    using cc[OF that] by (simp add: w2' f(4) emit_fields)
qed

lemma rebuildDatabase_eq:
  "rebuildDatabase u w =
      (case initDBConnection u
              (if DBPath u \<in> files (snd (closeDatabase u w))
                then (case removeDatabaseFile u (snd (closeDatabase u w)) of
                        (Some err, w') \<Rightarrow> emit [LogError, PushClearProgress] w'
                      | (None, w') \<Rightarrow> w')
                else snd (closeDatabase u w)) of
           Exit code w3 \<Rightarrow> Exit code w3
         | Return x w3 \<Rightarrow>
             (case initDBTables u w3 of
                Exit code w4 \<Rightarrow> Exit code w4
              | Return y w4 \<Rightarrow> Return None (emit [LogInfo] w4)))"
  by (simp add: rebuildDatabase_def Let_def)

lemma rebuildDatabase_Exit:
  assumes "rebuildDatabase u w = Exit code w'"
  shows "code = ExitCodeReadOnlyDatabase u"
proof -
  define w2 where "w2 = (if DBPath u \<in> files (snd (closeDatabase u w))
                then (case removeDatabaseFile u (snd (closeDatabase u w)) of
                        (Some err, w') \<Rightarrow> emit [LogError, PushClearProgress] w'
                      | (None, w') \<Rightarrow> w')
                else snd (closeDatabase u w))"
  note r = rebuildDatabase_eq[of u w, folded w2_def]
  from initDBConnection_cases[of u w2] show ?thesis
  proof
    assume "\<exists>w'. initDBConnection u w2 = Return () w' \<and> db w' = Some True \<and> disk w' = disk w2
          \<and> files w' = (if db w2 = Some True \<and> next_fault (conn_faults w2) = None
                         then files w2 - side_files u else files w2)
          \<and> fs_faults w' = fs_faults w2 \<and> exec_faults w' = exec_faults w2
          \<and> trace w' = trace w2 @ (if db w2 = None then [] else [CloseDB, FreeOSMemoryAndGC])
                         @ [LogDatabaseSize, OpenDB]
          \<and> (conn_faults w2 = [] \<longrightarrow> conn_faults w' = [])"
    then obtain w3 where c: "initDBConnection u w2 = Return () w3" by blast
    show ?thesis
    proof (cases "initDBTables u w3")
      case (Return y w4)
      with assms r c show ?thesis by simp
    next
      case (Exit c4 w4)
      with assms r c have "initDBTables u w3 = Exit code w'" by simp
      then show ?thesis by (rule initDBTables_Exit)
    qed
  next
    assume "\<exists>w'. initDBConnection u w2 = Exit (ExitCodeReadOnlyDatabase u) w' \<and> disk w' = disk w2
          \<and> files w' = (if db w2 = Some True \<and> next_fault (conn_faults w2) = None
                         then files w2 - side_files u else files w2)
          \<and> conn_faults w2 \<noteq> []"
    with assms r show ?thesis by auto
  qed
qed

lemma rebuildDatabase_Return:
  assumes "rebuildDatabase u w = Return e w'" and d: "db w = Some True"
  shows "e = None" and "db w' = Some True"
    and "list_all (\<lambda>(t, tb). tables (disk w') t = Some tb) (fresh_tables u)"
    and "list_all (\<lambda>(i, tc). indexes (disk w') i = Some tc) schema_indexes"
    and "files w' = files w \<union> store_files u"
    and "trace w' = trace w @ [CloseDB, FreeOSMemoryAndGC]
           @ (if DBPath u \<in> files w
              then removal_events u (fs_faults w)
                   @ (if length (removed_paths u (fs_faults w)) = 3 then []
                      else [LogError, PushClearProgress])
              else [])
           @ [CloseDB, FreeOSMemoryAndGC, LogDatabaseSize, OpenDB, LogInfo]"
    and "DBPath u \<in> files w \<Longrightarrow> next_fault (fs_faults w) = None \<Longrightarrow>
           disk w' = \<lparr>tables = map_of (fresh_tables u), indexes = map_of schema_indexes\<rparr>"
    and "DBPath u \<notin> files w \<or> next_fault (fs_faults w) \<noteq> None \<Longrightarrow>
           t \<notin> set (map fst (fresh_tables u)) \<Longrightarrow> tables (disk w') t = tables (disk w) t"
proof -
  define w2 where "w2 = (if DBPath u \<in> files (snd (closeDatabase u w))
                then (case removeDatabaseFile u (snd (closeDatabase u w)) of
                        (Some err, w') \<Rightarrow> emit [LogError, PushClearProgress] w'
                      | (None, w') \<Rightarrow> w')
                else snd (closeDatabase u w))"
  note rm = rebuild_removal[OF d w2_def]
  note r = rebuildDatabase_eq[of u w, folded w2_def]
  from initDBConnection_cases[of u w2] assms(1) r
  obtain w3 where c: "initDBConnection u w2 = Return () w3"
    and f3: "disk w3 = disk w2"
      "files w3 = (if db w2 = Some True \<and> next_fault (conn_faults w2) = None
                         then files w2 - side_files u else files w2)"
      "trace w3 = trace w2 @ (if db w2 = None then [] else [CloseDB, FreeOSMemoryAndGC])
                         @ [LogDatabaseSize, OpenDB]"
    by auto
  from assms(1) r c obtain y w4 where t: "initDBTables u w3 = Return y w4"
    and e: "e = None" and w': "w' = emit [LogInfo] w4"
    by (cases "initDBTables u w3") auto
  note it = initDBTables_Return[OF t]
  show "e = None" by (rule e)
  show "db w' = Some True" by (simp add: w' emit_fields it(4))
  show tb: "list_all (\<lambda>(t, tb). tables (disk w') t = Some tb) (fresh_tables u)"
    by (simp add: w' emit_fields it(1) fresh_tables_def)
  show ix: "list_all (\<lambda>(i, tc). indexes (disk w') i = Some tc) schema_indexes"
    using it(2) by (simp add: w' emit_fields)
  have "files w3 = files w2" by (simp add: f3(2) rm(1))
  then show "files w' = files w \<union> store_files u"
    using rm(2,3) by (auto simp: w' emit_fields it(5))
  show "trace w' = trace w @ [CloseDB, FreeOSMemoryAndGC]
           @ (if DBPath u \<in> files w
              then removal_events u (fs_faults w)
                   @ (if length (removed_paths u (fs_faults w)) = 3 then []
                      else [LogError, PushClearProgress])
              else [])
           @ [CloseDB, FreeOSMemoryAndGC, LogDatabaseSize, OpenDB, LogInfo]"
    by (simp add: w' emit_fields it(6) f3(3) rm(1,5))
  show "disk w' = \<lparr>tables = map_of (fresh_tables u), indexes = map_of schema_indexes\<rparr>"
    if a: "DBPath u \<in> files w" and b: "next_fault (fs_faults w) = None"
  proof -
    have d3: "disk w3 = empty_store" using a b by (simp add: f3 rm(4))
    have "tables (disk w') = map_of (fresh_tables u)"
    proof (rule map_of_eqI[OF tb])
      fix k assume "k \<notin> set (map fst (fresh_tables u))"
      then show "tables (disk w') k = None"
        by (simp add: w' emit_fields it(1) d3 empty_store_def fresh_tables_def)
    qed
    moreover have "indexes (disk w') = map_of schema_indexes"
    proof (rule map_of_eqI[OF ix])
      fix k assume k: "k \<notin> set (map fst schema_indexes)"
      have "indexes (disk w3) k = None" by (simp add: d3 empty_store_def)
      from it(3)[OF this k] show "indexes (disk w') k = None" by (simp add: w' emit_fields)
    qed
    ultimately show ?thesis by (cases "disk w'") simp
  qed
  show "tables (disk w') t = tables (disk w) t"
    if a: "DBPath u \<notin> files w \<or> next_fault (fs_faults w) \<noteq> None"
      and b: "t \<notin> set (map fst (fresh_tables u))"
  proof -
    have "disk w3 = disk w" using a by (auto simp: f3 rm(4))
    with b show ?thesis by (simp add: w' emit_fields it(1) fresh_tables_def)
  qed
qed

lemma rebuildDatabase_runs:
  assumes "conn_faults w = []" and "exec_faults w = []" and d: "db w = Some True"
    and "DBPath u \<in> files w \<and> next_fault (fs_faults w) = None \<or> indexes (disk w) = Map.empty"
  shows "\<exists>w'. rebuildDatabase u w = Return None w'"
proof -
  define w2 where "w2 = (if DBPath u \<in> files (snd (closeDatabase u w))
                then (case removeDatabaseFile u (snd (closeDatabase u w)) of
                        (Some err, w') \<Rightarrow> emit [LogError, PushClearProgress] w'
                      | (None, w') \<Rightarrow> w')
                else snd (closeDatabase u w))"
  note rm = rebuild_removal[OF d w2_def]
  note r = rebuildDatabase_eq[of u w, folded w2_def]
  from initDBConnection_cases[of u w2] rm(7)[OF assms(1)]
  obtain w3 where c: "initDBConnection u w2 = Return () w3" and d3: "db w3 = Some True"
    and f3: "disk w3 = disk w2" "exec_faults w3 = exec_faults w2"
    by auto
  have "\<exists>w4. initDBTables u w3 = Return () w4"
    using assms(4) by (intro initDBTables_runs) (auto simp: f3 rm(4,6) assms(1,2) d3 empty_store_def)
  then show ?thesis by (auto simp: r c)
qed

text \<open>\<open>InitDatabase\<close> up to the test of the version: the process has exited when the
  store could not be opened, and otherwise the store is open, with its contents as they
  were.\<close>

lemma InitDatabase_opened:
  "(\<exists>w3. InitDatabase u forceRebuild w = Exit (ExitCodeReadOnlyDatabase u) w3
          \<and> disk w3 = disk w \<and> files w3 \<subseteq> files w \<and> files w - side_files u \<subseteq> files w3
          \<and> conn_faults w \<noteq> [])
   \<or> (\<exists>w4. db w4 = Some True \<and> disk w4 = disk w
          \<and> files w4 \<subseteq> files w \<and> files w - side_files u \<subseteq> files w4
          \<and> fs_faults w4 = fs_faults w \<and> exec_faults w4 = exec_faults w
          \<and> (conn_faults w = [] \<longrightarrow> conn_faults w4 = [])
          \<and> trace w4 = trace w @ [ClearCache, DisableCache, IncBootProgress]
                @ (if forceRebuild then [ClearQueue] else [])
                @ (if db w = None then [] else [CloseDB, FreeOSMemoryAndGC])
                @ [LogDatabaseSize, OpenDB, InitBlockTree forceRebuild]
          \<and> InitDatabase u forceRebuild w =
              (if \<not> forceRebuild
               then (case getDatabaseVer u w4 of
                       (ver, w5) \<Rightarrow>
                         if DatabaseVer u = ver then Return None (emit [EnableCache] w5)
                         else (case rebuildDatabase u (emit [LogInfo] w5) of
                                 Exit code w6 \<Rightarrow> Exit code w6
                               | Return err w6 \<Rightarrow> Return err (emit [EnableCache] w6)))
               else (case rebuildDatabase u w4 of
                       Exit code w6 \<Rightarrow> Exit code w6
                     | Return err w6 \<Rightarrow> Return err (emit [EnableCache] w6))))"
proof -
  define w2 where "w2 = (if forceRebuild
      then emit [ClearQueue] (emit [ClearCache, DisableCache, IncBootProgress] w)
      else emit [ClearCache, DisableCache, IncBootProgress] w)"
  have w2: "disk w2 = disk w" "files w2 = files w" "fs_faults w2 = fs_faults w"
    "exec_faults w2 = exec_faults w" "conn_faults w2 = conn_faults w" "db w2 = db w"
    "trace w2 = trace w @ [ClearCache, DisableCache, IncBootProgress]
                @ (if forceRebuild then [ClearQueue] else [])"
    by (simp_all add: w2_def emit_fields)
  have r: "InitDatabase u forceRebuild w =
     (case initDBConnection u w2 of
           Exit code w3 \<Rightarrow> Exit code w3
         | Return x w3 \<Rightarrow>
              (if \<not> forceRebuild
               then (case getDatabaseVer u (emit [InitBlockTree forceRebuild] w3) of
                       (ver, w5) \<Rightarrow>
                         if DatabaseVer u = ver then Return None (emit [EnableCache] w5)
                         else (case rebuildDatabase u (emit [LogInfo] w5) of
                                 Exit code w6 \<Rightarrow> Exit code w6
                               | Return err w6 \<Rightarrow> Return err (emit [EnableCache] w6)))
               else (case rebuildDatabase u (emit [InitBlockTree forceRebuild] w3) of
                       Exit code w6 \<Rightarrow> Exit code w6
                     | Return err w6 \<Rightarrow> Return err (emit [EnableCache] w6))))"
    by (simp add: InitDatabase_def w2_def Let_def split: run.split)
  from initDBConnection_cases[of u w2] show ?thesis
  proof
    assume "\<exists>w'. initDBConnection u w2 = Return () w' \<and> db w' = Some True \<and> disk w' = disk w2
          \<and> files w' = (if db w2 = Some True \<and> next_fault (conn_faults w2) = None
                         then files w2 - side_files u else files w2)
          \<and> fs_faults w' = fs_faults w2 \<and> exec_faults w' = exec_faults w2
          \<and> trace w' = trace w2 @ (if db w2 = None then [] else [CloseDB, FreeOSMemoryAndGC])
                         @ [LogDatabaseSize, OpenDB]
          \<and> (conn_faults w2 = [] \<longrightarrow> conn_faults w' = [])"
    then obtain w3 where c: "initDBConnection u w2 = Return () w3" and d: "db w3 = Some True"
      and f3: "disk w3 = disk w" "fs_faults w3 = fs_faults w" "exec_faults w3 = exec_faults w"
        "conn_faults w = [] \<longrightarrow> conn_faults w3 = []"
      and fl: "files w3 = (if db w = Some True \<and> next_fault (conn_faults w) = None
                         then files w - side_files u else files w)"
      and tr: "trace w3 = trace w2 @ (if db w = None then [] else [CloseDB, FreeOSMemoryAndGC])
                         @ [LogDatabaseSize, OpenDB]"
      unfolding w2(1-6) by blast
    let ?w4 = "emit [InitBlockTree forceRebuild] w3"
    have "db ?w4 = Some True \<and> disk ?w4 = disk w
          \<and> files ?w4 \<subseteq> files w \<and> files w - side_files u \<subseteq> files ?w4
          \<and> fs_faults ?w4 = fs_faults w \<and> exec_faults ?w4 = exec_faults w
          \<and> (conn_faults w = [] \<longrightarrow> conn_faults ?w4 = [])
          \<and> trace ?w4 = trace w @ [ClearCache, DisableCache, IncBootProgress]
                @ (if forceRebuild then [ClearQueue] else [])
                @ (if db w = None then [] else [CloseDB, FreeOSMemoryAndGC])
                @ [LogDatabaseSize, OpenDB, InitBlockTree forceRebuild]"
      using f3(4) by (auto simp: emit_fields f3(1-3) d fl tr w2(7))
    moreover have "InitDatabase u forceRebuild w =
              (if \<not> forceRebuild
               then (case getDatabaseVer u ?w4 of
                       (ver, w5) \<Rightarrow>
                         if DatabaseVer u = ver then Return None (emit [EnableCache] w5)
                         else (case rebuildDatabase u (emit [LogInfo] w5) of
                                 Exit code w6 \<Rightarrow> Exit code w6
                               | Return err w6 \<Rightarrow> Return err (emit [EnableCache] w6)))
               else (case rebuildDatabase u ?w4 of
                       Exit code w6 \<Rightarrow> Exit code w6
                     | Return err w6 \<Rightarrow> Return err (emit [EnableCache] w6)))"
      unfolding r c by simp
    ultimately show ?thesis by blast
  next
    assume "\<exists>w'. initDBConnection u w2 = Exit (ExitCodeReadOnlyDatabase u) w' \<and> disk w' = disk w2
          \<and> files w' = (if db w2 = Some True \<and> next_fault (conn_faults w2) = None
                         then files w2 - side_files u else files w2)
          \<and> conn_faults w2 \<noteq> []"
    then obtain w3 where c: "initDBConnection u w2 = Exit (ExitCodeReadOnlyDatabase u) w3"
      and f3: "disk w3 = disk w" "conn_faults w \<noteq> []"
      and fl: "files w3 = (if db w = Some True \<and> next_fault (conn_faults w) = None
                         then files w - side_files u else files w)"
      unfolding w2(1-6) by blast
    have "files w3 \<subseteq> files w \<and> files w - side_files u \<subseteq> files w3" by (auto simp: fl)
    with c f3 show ?thesis by (simp add: r)
  qed
qed

lemma getDatabaseVer_open:
  "db w = Some True \<Longrightarrow>
   getDatabaseVer u w = (stored_version (disk w), w\<lparr>files := files w \<union> store_files u\<rparr>)"
  by (simp add: getDatabaseVer_def)

lemma DBPath_store_files: "DBPath u \<in> store_files u" "side_files u \<subseteq> store_files u"
  by (simp_all add: store_files_def subset_insertI)

text \<open>The world in which \<open>InitDatabase\<close> calls the rebuild, when the store could be
  opened and is not reused.\<close>

lemma InitDatabase_rebuilding:
  assumes "forceRebuild \<or> stored_version (disk w) \<noteq> DatabaseVer u"
  shows "(\<exists>w3. InitDatabase u forceRebuild w = Exit (ExitCodeReadOnlyDatabase u) w3
            \<and> conn_faults w \<noteq> [])
   \<or> (\<exists>wr. db wr = Some True \<and> disk wr = disk w
          \<and> files wr \<union> store_files u = files w \<union> store_files u
          \<and> (DBPath u \<in> files wr \<longleftrightarrow> \<not> forceRebuild \<or> DBPath u \<in> files w)
          \<and> fs_faults wr = fs_faults w \<and> exec_faults wr = exec_faults w
          \<and> (conn_faults w = [] \<longrightarrow> conn_faults wr = [])
          \<and> trace wr = trace w @ [ClearCache, DisableCache, IncBootProgress]
                @ (if forceRebuild then [ClearQueue] else [])
                @ (if db w = None then [] else [CloseDB, FreeOSMemoryAndGC])
                @ [LogDatabaseSize, OpenDB, InitBlockTree forceRebuild]
                @ (if forceRebuild then [] else [LogInfo])
          \<and> InitDatabase u forceRebuild w =
               (case rebuildDatabase u wr of
                  Exit code w6 \<Rightarrow> Exit code w6
                | Return err w6 \<Rightarrow> Return err (emit [EnableCache] w6)))"
proof -
  from InitDatabase_opened[of u forceRebuild w] show ?thesis
  proof
    assume "\<exists>w3. InitDatabase u forceRebuild w = Exit (ExitCodeReadOnlyDatabase u) w3
          \<and> disk w3 = disk w \<and> files w3 \<subseteq> files w \<and> files w - side_files u \<subseteq> files w3
          \<and> conn_faults w \<noteq> []"
    then show ?thesis by blast
  next
    assume "\<exists>w4. db w4 = Some True \<and> disk w4 = disk w
          \<and> files w4 \<subseteq> files w \<and> files w - side_files u \<subseteq> files w4
          \<and> fs_faults w4 = fs_faults w \<and> exec_faults w4 = exec_faults w
          \<and> (conn_faults w = [] \<longrightarrow> conn_faults w4 = [])
          \<and> trace w4 = trace w @ [ClearCache, DisableCache, IncBootProgress]
                @ (if forceRebuild then [ClearQueue] else [])
                @ (if db w = None then [] else [CloseDB, FreeOSMemoryAndGC])
                @ [LogDatabaseSize, OpenDB, InitBlockTree forceRebuild]
          \<and> InitDatabase u forceRebuild w =
              (if \<not> forceRebuild
               then (case getDatabaseVer u w4 of
                       (ver, w5) \<Rightarrow>
                         if DatabaseVer u = ver then Return None (emit [EnableCache] w5)
                         else (case rebuildDatabase u (emit [LogInfo] w5) of
                                 Exit code w6 \<Rightarrow> Exit code w6
                               | Return err w6 \<Rightarrow> Return err (emit [EnableCache] w6)))
               else (case rebuildDatabase u w4 of
                       Exit code w6 \<Rightarrow> Exit code w6
                     | Return err w6 \<Rightarrow> Return err (emit [EnableCache] w6)))"
    then obtain w4 where d: "db w4 = Some True" and k: "disk w4 = disk w"
      and fl: "files w4 \<subseteq> files w" "files w - side_files u \<subseteq> files w4"
      and ff: "fs_faults w4 = fs_faults w" "exec_faults w4 = exec_faults w"
        "conn_faults w = [] \<longrightarrow> conn_faults w4 = []"
      and tr: "trace w4 = trace w @ [ClearCache, DisableCache, IncBootProgress]
                @ (if forceRebuild then [ClearQueue] else [])
                @ (if db w = None then [] else [CloseDB, FreeOSMemoryAndGC])
                @ [LogDatabaseSize, OpenDB, InitBlockTree forceRebuild]"
      and r: "InitDatabase u forceRebuild w =
              (if \<not> forceRebuild
               then (case getDatabaseVer u w4 of
                       (ver, w5) \<Rightarrow>
                         if DatabaseVer u = ver then Return None (emit [EnableCache] w5)
                         else (case rebuildDatabase u (emit [LogInfo] w5) of
                                 Exit code w6 \<Rightarrow> Exit code w6
                               | Return err w6 \<Rightarrow> Return err (emit [EnableCache] w6)))
               else (case rebuildDatabase u w4 of
                       Exit code w6 \<Rightarrow> Exit code w6
                     | Return err w6 \<Rightarrow> Return err (emit [EnableCache] w6)))"
      by blast
    define wr where "wr = (if forceRebuild then w4
                           else emit [LogInfo] (w4\<lparr>files := files w4 \<union> store_files u\<rparr>))"
    have same: "files w4 \<union> store_files u = files w \<union> store_files u"
      using fl DBPath_store_files(2)[of u] by blast
    have mem: "DBPath u \<in> files w4 \<longleftrightarrow> DBPath u \<in> files w"
      using fl DBPath_not_side[of u] by blast
    have "db wr = Some True" "disk wr = disk w" "fs_faults wr = fs_faults w"
      "exec_faults wr = exec_faults w" "conn_faults w = [] \<longrightarrow> conn_faults wr = []"
      using ff(3) by (simp_all add: wr_def emit_fields d k ff(1,2))
    moreover have "files wr \<union> store_files u = files w \<union> store_files u"
      using same by (auto simp: wr_def emit_fields)
    moreover have "DBPath u \<in> files wr \<longleftrightarrow> \<not> forceRebuild \<or> DBPath u \<in> files w"
      using mem DBPath_store_files(1)[of u] by (simp add: wr_def emit_fields)
    moreover have "trace wr = trace w @ [ClearCache, DisableCache, IncBootProgress]
                @ (if forceRebuild then [ClearQueue] else [])
                @ (if db w = None then [] else [CloseDB, FreeOSMemoryAndGC])
                @ [LogDatabaseSize, OpenDB, InitBlockTree forceRebuild]
                @ (if forceRebuild then [] else [LogInfo])"
      by (simp add: wr_def emit_fields tr)
    moreover have "InitDatabase u forceRebuild w =
               (case rebuildDatabase u wr of
                  Exit code w6 \<Rightarrow> Exit code w6
                | Return err w6 \<Rightarrow> Return err (emit [EnableCache] w6))"
    proof (cases forceRebuild)
      case True
      then show ?thesis unfolding r by (simp add: wr_def)
    next
      case False
      with assms have "DatabaseVer u \<noteq> stored_version (disk w)" by auto
      with False show ?thesis unfolding r by (simp add: wr_def getDatabaseVer_open[OF d] k)
    qed
    ultimately show ?thesis by blast
  qed
qed

lemma InitDatabase_reuse:
  assumes "\<not> forceRebuild" and "stored_version (disk w) = DatabaseVer u"
  shows "case InitDatabase u forceRebuild w of
           Return e w' \<Rightarrow>
             e = None \<and> db w' = Some True \<and> disk w' = disk w
             \<and> files w' = files w \<union> store_files u
             \<and> trace w' = trace w @ [ClearCache, DisableCache, IncBootProgress]
                  @ (if db w = None then [] else [CloseDB, FreeOSMemoryAndGC])
                  @ [LogDatabaseSize, OpenDB, InitBlockTree False, EnableCache]
         | Exit code w' \<Rightarrow>
             code = ExitCodeReadOnlyDatabase u \<and> disk w' = disk w
             \<and> files w' \<subseteq> files w \<and> files w - side_files u \<subseteq> files w'"
proof -
  from InitDatabase_opened[of u forceRebuild w] show ?thesis
  proof
    assume "\<exists>w3. InitDatabase u forceRebuild w = Exit (ExitCodeReadOnlyDatabase u) w3
          \<and> disk w3 = disk w \<and> files w3 \<subseteq> files w \<and> files w - side_files u \<subseteq> files w3
          \<and> conn_faults w \<noteq> []"
    then show ?thesis by auto
  next
    assume "\<exists>w4. db w4 = Some True \<and> disk w4 = disk w
          \<and> files w4 \<subseteq> files w \<and> files w - side_files u \<subseteq> files w4
          \<and> fs_faults w4 = fs_faults w \<and> exec_faults w4 = exec_faults w
          \<and> (conn_faults w = [] \<longrightarrow> conn_faults w4 = [])
          \<and> trace w4 = trace w @ [ClearCache, DisableCache, IncBootProgress]
                @ (if forceRebuild then [ClearQueue] else [])
                @ (if db w = None then [] else [CloseDB, FreeOSMemoryAndGC])
                @ [LogDatabaseSize, OpenDB, InitBlockTree forceRebuild]
          \<and> InitDatabase u forceRebuild w =
              (if \<not> forceRebuild
               then (case getDatabaseVer u w4 of
                       (ver, w5) \<Rightarrow>
                         if DatabaseVer u = ver then Return None (emit [EnableCache] w5)
                         else (case rebuildDatabase u (emit [LogInfo] w5) of
                                 Exit code w6 \<Rightarrow> Exit code w6
                               | Return err w6 \<Rightarrow> Return err (emit [EnableCache] w6)))
               else (case rebuildDatabase u w4 of
                       Exit code w6 \<Rightarrow> Exit code w6
                     | Return err w6 \<Rightarrow> Return err (emit [EnableCache] w6)))"
    then obtain w4 where d: "db w4 = Some True" and k: "disk w4 = disk w"
      and fl: "files w4 \<subseteq> files w" "files w - side_files u \<subseteq> files w4"
      and tr: "trace w4 = trace w @ [ClearCache, DisableCache, IncBootProgress]
                @ (if db w = None then [] else [CloseDB, FreeOSMemoryAndGC])
                @ [LogDatabaseSize, OpenDB, InitBlockTree False]"
      and r: "InitDatabase u forceRebuild w =
                Return None (emit [EnableCache] (w4\<lparr>files := files w4 \<union> store_files u\<rparr>))"
      using assms by (auto simp: getDatabaseVer_open)
    have "files w4 \<union> store_files u = files w \<union> store_files u"
      using fl DBPath_store_files(2)[of u] by blast
    then show ?thesis unfolding r by (simp add: emit_fields d k tr)
  qed
qed

lemma InitDatabase_rebuild:
  assumes "forceRebuild \<or> stored_version (disk w) \<noteq> DatabaseVer u"
  shows "case InitDatabase u forceRebuild w of
           Return e w' \<Rightarrow>
             e = None \<and> db w' = Some True
             \<and> list_all (\<lambda>(t, tb). tables (disk w') t = Some tb) (fresh_tables u)
             \<and> list_all (\<lambda>(i, tc). indexes (disk w') i = Some tc) schema_indexes
             \<and> stored_version (disk w') = DatabaseVer u
             \<and> files w' = files w \<union> store_files u
             \<and> trace w' = trace w @ [ClearCache, DisableCache, IncBootProgress]
                  @ (if forceRebuild then [ClearQueue] else [])
                  @ (if db w = None then [] else [CloseDB, FreeOSMemoryAndGC])
                  @ [LogDatabaseSize, OpenDB, InitBlockTree forceRebuild]
                  @ (if forceRebuild then [] else [LogInfo])
                  @ [CloseDB, FreeOSMemoryAndGC]
                  @ (if \<not> forceRebuild \<or> DBPath u \<in> files w
                     then removal_events u (fs_faults w)
                          @ (if length (removed_paths u (fs_faults w)) = 3 then []
                             else [LogError, PushClearProgress])
                     else [])
                  @ [CloseDB, FreeOSMemoryAndGC, LogDatabaseSize, OpenDB, LogInfo, EnableCache]
             \<and> ((\<not> forceRebuild \<or> DBPath u \<in> files w) \<and> next_fault (fs_faults w) = None \<longrightarrow>
                  disk w' = \<lparr>tables = map_of (fresh_tables u), indexes = map_of schema_indexes\<rparr>)
             \<and> (forceRebuild \<and> DBPath u \<notin> files w \<or> next_fault (fs_faults w) \<noteq> None \<longrightarrow>
                  (\<forall>t. t \<notin> set (map fst (fresh_tables u)) \<longrightarrow>
                       tables (disk w') t = tables (disk w) t))
         | Exit code w' \<Rightarrow> code = ExitCodeReadOnlyDatabase u"
proof -
  from InitDatabase_rebuilding[OF assms] show ?thesis
  proof
    assume "\<exists>w3. InitDatabase u forceRebuild w = Exit (ExitCodeReadOnlyDatabase u) w3
            \<and> conn_faults w \<noteq> []"
    then show ?thesis by auto
  next
    assume "\<exists>wr. db wr = Some True \<and> disk wr = disk w
          \<and> files wr \<union> store_files u = files w \<union> store_files u
          \<and> (DBPath u \<in> files wr \<longleftrightarrow> \<not> forceRebuild \<or> DBPath u \<in> files w)
          \<and> fs_faults wr = fs_faults w \<and> exec_faults wr = exec_faults w
          \<and> (conn_faults w = [] \<longrightarrow> conn_faults wr = [])
          \<and> trace wr = trace w @ [ClearCache, DisableCache, IncBootProgress]
                @ (if forceRebuild then [ClearQueue] else [])
                @ (if db w = None then [] else [CloseDB, FreeOSMemoryAndGC])
                @ [LogDatabaseSize, OpenDB, InitBlockTree forceRebuild]
                @ (if forceRebuild then [] else [LogInfo])
          \<and> InitDatabase u forceRebuild w =
               (case rebuildDatabase u wr of
                  Exit code w6 \<Rightarrow> Exit code w6
                | Return err w6 \<Rightarrow> Return err (emit [EnableCache] w6))"
    then obtain wr where d: "db wr = Some True" and k: "disk wr = disk w"
      and fl: "files wr \<union> store_files u = files w \<union> store_files u"
      and mem: "DBPath u \<in> files wr \<longleftrightarrow> \<not> forceRebuild \<or> DBPath u \<in> files w"
      and ff: "fs_faults wr = fs_faults w"
      and tr: "trace wr = trace w @ [ClearCache, DisableCache, IncBootProgress]
                @ (if forceRebuild then [ClearQueue] else [])
                @ (if db w = None then [] else [CloseDB, FreeOSMemoryAndGC])
                @ [LogDatabaseSize, OpenDB, InitBlockTree forceRebuild]
                @ (if forceRebuild then [] else [LogInfo])"
      and r: "InitDatabase u forceRebuild w =
               (case rebuildDatabase u wr of
                  Exit code w6 \<Rightarrow> Exit code w6
                | Return err w6 \<Rightarrow> Return err (emit [EnableCache] w6))"
      by blast
    show ?thesis
    proof (cases "rebuildDatabase u wr")
      case (Exit code w5)
      from rebuildDatabase_Exit[OF Exit] show ?thesis by (simp add: r Exit)
    next
      case (Return e w5)
      note rb = rebuildDatabase_Return[OF Return d, unfolded k ff mem tr]
      from rb(3) have "tables (disk w5) ''stat''
          = Some \<lparr>columns = [''key'', ''value''], kind = Ordinary, rows = [version_row u]\<rparr>"
        by (simp add: fresh_tables_def)
      then have v: "stored_version (disk w5) = DatabaseVer u" by (rule stored_version_stat)
      have "e = None" and "db (emit [EnableCache] w5) = Some True"
        and "list_all (\<lambda>(t, tb). tables (disk (emit [EnableCache] w5)) t = Some tb) (fresh_tables u)"
        and "list_all (\<lambda>(i, tc). indexes (disk (emit [EnableCache] w5)) i = Some tc) schema_indexes"
        and "stored_version (disk (emit [EnableCache] w5)) = DatabaseVer u"
        and "files (emit [EnableCache] w5) = files w \<union> store_files u"
        using rb(1,2,3,4,5) v fl by (simp_all add: emit_fields)
      moreover have "trace (emit [EnableCache] w5) = trace w @ [ClearCache, DisableCache, IncBootProgress]
                  @ (if forceRebuild then [ClearQueue] else [])
                  @ (if db w = None then [] else [CloseDB, FreeOSMemoryAndGC])
                  @ [LogDatabaseSize, OpenDB, InitBlockTree forceRebuild]
                  @ (if forceRebuild then [] else [LogInfo])
                  @ [CloseDB, FreeOSMemoryAndGC]
                  @ (if \<not> forceRebuild \<or> DBPath u \<in> files w
                     then removal_events u (fs_faults w)
                          @ (if length (removed_paths u (fs_faults w)) = 3 then []
                             else [LogError, PushClearProgress])
                     else [])
                  @ [CloseDB, FreeOSMemoryAndGC, LogDatabaseSize, OpenDB, LogInfo, EnableCache]"
        unfolding emit_fields(8) rb(6) by simp
      moreover have "(\<not> forceRebuild \<or> DBPath u \<in> files w) \<and> next_fault (fs_faults w) = None \<longrightarrow>
                  disk (emit [EnableCache] w5)
                    = \<lparr>tables = map_of (fresh_tables u), indexes = map_of schema_indexes\<rparr>"
        using rb(7) by (simp add: emit_fields)
      moreover have "forceRebuild \<and> DBPath u \<notin> files w \<or> next_fault (fs_faults w) \<noteq> None \<longrightarrow>
                  (\<forall>t. t \<notin> set (map fst (fresh_tables u)) \<longrightarrow>
                       tables (disk (emit [EnableCache] w5)) t = tables (disk w) t)"
        using rb(8) by (auto simp: emit_fields)
      ultimately show ?thesis by (simp add: r Return)
    qed
  qed
qed

lemma InitDatabase_runs:
  assumes "conn_faults w = []"
    and "\<not> forceRebuild \<and> stored_version (disk w) = DatabaseVer u
         \<or> exec_faults w = []
            \<and> ((\<not> forceRebuild \<or> DBPath u \<in> files w) \<and> next_fault (fs_faults w) = None
               \<or> indexes (disk w) = Map.empty)"
  shows "\<exists>w'. InitDatabase u forceRebuild w = Return None w'"
proof (cases "\<not> forceRebuild \<and> stored_version (disk w) = DatabaseVer u")
  case True
  from InitDatabase_opened[of u forceRebuild w] assms(1) True
  obtain w4 where "InitDatabase u forceRebuild w =
                Return None (emit [EnableCache] (w4\<lparr>files := files w4 \<union> store_files u\<rparr>))"
    by (auto simp: getDatabaseVer_open)
  then show ?thesis by blast
next
  case False
  then have rb: "forceRebuild \<or> stored_version (disk w) \<noteq> DatabaseVer u" by blast
  from InitDatabase_rebuilding[OF rb] assms(1)
  obtain wr where d: "db wr = Some True" and k: "disk wr = disk w"
    and mem: "DBPath u \<in> files wr \<longleftrightarrow> \<not> forceRebuild \<or> DBPath u \<in> files w"
    and ff: "fs_faults wr = fs_faults w" "exec_faults wr = exec_faults w" "conn_faults wr = []"
    and r: "InitDatabase u forceRebuild w =
               (case rebuildDatabase u wr of
                  Exit code w6 \<Rightarrow> Exit code w6
                | Return err w6 \<Rightarrow> Return err (emit [EnableCache] w6))"
    by auto
  from False assms(2) have "exec_faults wr = []"
    and "DBPath u \<in> files wr \<and> next_fault (fs_faults wr) = None
         \<or> indexes (disk wr) = Map.empty"
    by (auto simp: ff k mem)
  from rebuildDatabase_runs[OF ff(3) this(1) d this(2)]
  obtain w5 where "rebuildDatabase u wr = Return None w5" by blast
  then show ?thesis unfolding r by simp
qed

text \<open>
  Claim C7, as the code has it. A call of \<open>InitDatabase\<close> either returns no error or ends
  the process with the code \<open>ExitCodeReadOnlyDatabase\<close> (the store could not be opened, or
  a statement of the schema failed). The trace gives the calls in their order.

  \<^item> Without \<open>forceRebuild\<close> and with the version of the store equal to the expected
    one, the call closes the handle that was there, opens the store and returns: no
    removal is called and the contents of the store are as they were; every file that was
    there is there, with the files of the connection that read the version. When the
    process exits instead, the contents are as they were and at most the \<open>-shm\<close> and
    \<open>-wal\<close> files, which the close takes with it, are gone.
  \<^item> Otherwise the call, when it returns, has closed the store, tried the removal of the
    store's file, of the \<open>-shm\<close> file and of the \<open>-wal\<close> file in this order up to the
    first removal that fails (a failure is logged and dropped), and that only when the
    store's file was there; it has then closed and opened the store again and created the
    tables. The store is open and holds the nine tables just created, both full-text
    tables among them and \<open>stat\<close> with the expected version, and the seven indexes. It
    holds nothing else when the removal of the store's file was tried and succeeded;
    otherwise every table outside the schema is as it was. The files of the new
    connection are there, beside every file that is not one of the three.
  \<^item> The call returns when opening does not fail and, on the second path, no statement
    is refused by the environment and the store's file is removed or the store had no
    index.
\<close>

theorem InitDatabase_reuses_or_rebuilds:
  "(\<not> forceRebuild \<and> stored_version (disk w) = DatabaseVer u \<longrightarrow>
      (case InitDatabase u forceRebuild w of
         Return e w' \<Rightarrow>
           e = None \<and> db w' = Some True \<and> disk w' = disk w
           \<and> files w' = files w \<union> store_files u
           \<and> trace w' = trace w @ [ClearCache, DisableCache, IncBootProgress]
                @ (if db w = None then [] else [CloseDB, FreeOSMemoryAndGC])
                @ [LogDatabaseSize, OpenDB, InitBlockTree False, EnableCache]
       | Exit code w' \<Rightarrow>
           code = ExitCodeReadOnlyDatabase u \<and> disk w' = disk w
           \<and> files w' \<subseteq> files w \<and> files w - side_files u \<subseteq> files w'))
   \<and> (forceRebuild \<or> stored_version (disk w) \<noteq> DatabaseVer u \<longrightarrow>
      (case InitDatabase u forceRebuild w of
         Return e w' \<Rightarrow>
           e = None \<and> db w' = Some True
           \<and> list_all (\<lambda>(t, tb). tables (disk w') t = Some tb) (fresh_tables u)
           \<and> list_all (\<lambda>(i, tc). indexes (disk w') i = Some tc) schema_indexes
           \<and> stored_version (disk w') = DatabaseVer u
           \<and> files w' = files w \<union> store_files u
           \<and> trace w' = trace w @ [ClearCache, DisableCache, IncBootProgress]
                @ (if forceRebuild then [ClearQueue] else [])
                @ (if db w = None then [] else [CloseDB, FreeOSMemoryAndGC])
                @ [LogDatabaseSize, OpenDB, InitBlockTree forceRebuild]
                @ (if forceRebuild then [] else [LogInfo])
                @ [CloseDB, FreeOSMemoryAndGC]
                @ (if \<not> forceRebuild \<or> DBPath u \<in> files w
                   then removal_events u (fs_faults w)
                        @ (if length (removed_paths u (fs_faults w)) = 3 then []
                           else [LogError, PushClearProgress])
                   else [])
                @ [CloseDB, FreeOSMemoryAndGC, LogDatabaseSize, OpenDB, LogInfo, EnableCache]
           \<and> ((\<not> forceRebuild \<or> DBPath u \<in> files w) \<and> next_fault (fs_faults w) = None \<longrightarrow>
                disk w' = \<lparr>tables = map_of (fresh_tables u), indexes = map_of schema_indexes\<rparr>)
           \<and> (forceRebuild \<and> DBPath u \<notin> files w \<or> next_fault (fs_faults w) \<noteq> None \<longrightarrow>
                (\<forall>t. t \<notin> set (map fst (fresh_tables u)) \<longrightarrow>
                     tables (disk w') t = tables (disk w) t))
       | Exit code w' \<Rightarrow> code = ExitCodeReadOnlyDatabase u))
   \<and> (conn_faults w = []
       \<and> (\<not> forceRebuild \<and> stored_version (disk w) = DatabaseVer u
          \<or> exec_faults w = []
             \<and> ((\<not> forceRebuild \<or> DBPath u \<in> files w) \<and> next_fault (fs_faults w) = None
                \<or> indexes (disk w) = Map.empty)) \<longrightarrow>
       returned (InitDatabase u forceRebuild w) = Some None)"
proof (intro conjI impI)
  assume "\<not> forceRebuild \<and> stored_version (disk w) = DatabaseVer u"
  then show "case InitDatabase u forceRebuild w of
         Return e w' \<Rightarrow>
           e = None \<and> db w' = Some True \<and> disk w' = disk w
           \<and> files w' = files w \<union> store_files u
           \<and> trace w' = trace w @ [ClearCache, DisableCache, IncBootProgress]
                @ (if db w = None then [] else [CloseDB, FreeOSMemoryAndGC])
                @ [LogDatabaseSize, OpenDB, InitBlockTree False, EnableCache]
       | Exit code w' \<Rightarrow>
           code = ExitCodeReadOnlyDatabase u \<and> disk w' = disk w
           \<and> files w' \<subseteq> files w \<and> files w - side_files u \<subseteq> files w'"
    by (intro InitDatabase_reuse) simp_all
next
  assume "forceRebuild \<or> stored_version (disk w) \<noteq> DatabaseVer u"
  then show "case InitDatabase u forceRebuild w of
         Return e w' \<Rightarrow>
           e = None \<and> db w' = Some True
           \<and> list_all (\<lambda>(t, tb). tables (disk w') t = Some tb) (fresh_tables u)
           \<and> list_all (\<lambda>(i, tc). indexes (disk w') i = Some tc) schema_indexes
           \<and> stored_version (disk w') = DatabaseVer u
           \<and> files w' = files w \<union> store_files u
           \<and> trace w' = trace w @ [ClearCache, DisableCache, IncBootProgress]
                @ (if forceRebuild then [ClearQueue] else [])
                @ (if db w = None then [] else [CloseDB, FreeOSMemoryAndGC])
                @ [LogDatabaseSize, OpenDB, InitBlockTree forceRebuild]
                @ (if forceRebuild then [] else [LogInfo])
                @ [CloseDB, FreeOSMemoryAndGC]
                @ (if \<not> forceRebuild \<or> DBPath u \<in> files w
                   then removal_events u (fs_faults w)
                        @ (if length (removed_paths u (fs_faults w)) = 3 then []
                           else [LogError, PushClearProgress])
                   else [])
                @ [CloseDB, FreeOSMemoryAndGC, LogDatabaseSize, OpenDB, LogInfo, EnableCache]
           \<and> ((\<not> forceRebuild \<or> DBPath u \<in> files w) \<and> next_fault (fs_faults w) = None \<longrightarrow>
                disk w' = \<lparr>tables = map_of (fresh_tables u), indexes = map_of schema_indexes\<rparr>)
           \<and> (forceRebuild \<and> DBPath u \<notin> files w \<or> next_fault (fs_faults w) \<noteq> None \<longrightarrow>
                (\<forall>t. t \<notin> set (map fst (fresh_tables u)) \<longrightarrow>
                     tables (disk w') t = tables (disk w) t))
       | Exit code w' \<Rightarrow> code = ExitCodeReadOnlyDatabase u"
    by (rule InitDatabase_rebuild)
next
  assume a: "conn_faults w = []
       \<and> (\<not> forceRebuild \<and> stored_version (disk w) = DatabaseVer u
          \<or> exec_faults w = []
             \<and> ((\<not> forceRebuild \<or> DBPath u \<in> files w) \<and> next_fault (fs_faults w) = None
                \<or> indexes (disk w) = Map.empty))"
  from InitDatabase_runs[OF conjunct1[OF a] conjunct2[OF a]]
  show "returned (InitDatabase u forceRebuild w) = Some None" by auto
qed

lemma boot_world_fields:
  "disk (boot_world s fs) = s" "conn_faults (boot_world s fs) = []"
  "exec_faults (boot_world s fs) = []" "fs_faults (boot_world s fs) = fs"
  "files (boot_world s fs)
     = {''/conf/siyuan.db'', ''/conf/siyuan.db-shm'', ''/conf/siyuan.db-wal''}"
  "db (boot_world s fs) = None" "trace (boot_world s fs) = []"
  by (simp_all add: boot_world_def)

lemma versioned_store_ver: "stored_version versioned_store = DatabaseVer example_settings"
  by (rule stored_version_stat) (simp add: versioned_store_def)

lemma example_store_files:
  "store_files example_settings
     = {''/conf/siyuan.db'', ''/conf/siyuan.db-shm'', ''/conf/siyuan.db-wal''}"
  by (simp add: store_files_def side_files_def example_settings_def)

text \<open>The call on a store of the expected version leaves the store and the three files and
  removes nothing; the forced call on the same store closes, removes the three files,
  opens and leaves a store of the schema alone.\<close>

theorem InitDatabase_reuses_or_rebuilds_witness:
  "stored_version (disk (boot_world versioned_store [])) = DatabaseVer example_settings
   \<and> returned (InitDatabase example_settings False (boot_world versioned_store [])) = Some None
   \<and> disk (world_of (InitDatabase example_settings False (boot_world versioned_store [])))
       = versioned_store
   \<and> files (world_of (InitDatabase example_settings False (boot_world versioned_store [])))
       = {''/conf/siyuan.db'', ''/conf/siyuan.db-shm'', ''/conf/siyuan.db-wal''}
   \<and> trace (world_of (InitDatabase example_settings False (boot_world versioned_store [])))
       = [ClearCache, DisableCache, IncBootProgress, LogDatabaseSize, OpenDB,
          InitBlockTree False, EnableCache]
   \<and> returned (InitDatabase example_settings True (boot_world versioned_store [])) = Some None
   \<and> disk (world_of (InitDatabase example_settings True (boot_world versioned_store [])))
       = \<lparr>tables = map_of (fresh_tables example_settings), indexes = map_of schema_indexes\<rparr>
   \<and> files (world_of (InitDatabase example_settings True (boot_world versioned_store [])))
       = {''/conf/siyuan.db'', ''/conf/siyuan.db-shm'', ''/conf/siyuan.db-wal''}
   \<and> trace (world_of (InitDatabase example_settings True (boot_world versioned_store [])))
       = [ClearCache, DisableCache, IncBootProgress, ClearQueue, LogDatabaseSize, OpenDB,
          InitBlockTree True, CloseDB, FreeOSMemoryAndGC,
          RemoveAll ''/conf/siyuan.db'' True, RemoveAll ''/conf/siyuan.db-shm'' True,
          RemoveAll ''/conf/siyuan.db-wal'' True,
          CloseDB, FreeOSMemoryAndGC, LogDatabaseSize, OpenDB, LogInfo, EnableCache]"
proof -
  let ?w = "boot_world versioned_store []"
  note t1 = InitDatabase_reuses_or_rebuilds[of False ?w example_settings]
  note t2 = InitDatabase_reuses_or_rebuilds[of True ?w example_settings]
  have v: "stored_version (disk ?w) = DatabaseVer example_settings"
    by (simp add: boot_world_fields versioned_store_ver)
  have p: "DBPath example_settings \<in> files ?w" "next_fault (fs_faults ?w) = None"
    by (simp_all add: boot_world_fields example_settings_def next_fault_def)
  have ev: "removal_events example_settings []
      = [RemoveAll ''/conf/siyuan.db'' True, RemoveAll ''/conf/siyuan.db-shm'' True,
         RemoveAll ''/conf/siyuan.db-wal'' True]"
    "length (removed_paths example_settings []) = 3"
    by (simp_all add: removal_events_eq removed_paths_eq example_settings_def next_fault_def)
  from t1 v have r1: "returned (InitDatabase example_settings False ?w) = Some None"
    by (simp add: boot_world_fields)
  from t2 p have r2: "returned (InitDatabase example_settings True ?w) = Some None"
    by (simp add: boot_world_fields)
  from r1 obtain w1 where e1: "InitDatabase example_settings False ?w = Return None w1"
    by (cases "InitDatabase example_settings False ?w") simp_all
  from r2 obtain w2 where e2: "InitDatabase example_settings True ?w = Return None w2"
    by (cases "InitDatabase example_settings True ?w") simp_all
  from t1 v have a: "disk w1 = versioned_store
     \<and> files w1 = {''/conf/siyuan.db'', ''/conf/siyuan.db-shm'', ''/conf/siyuan.db-wal''}
     \<and> trace w1 = [ClearCache, DisableCache, IncBootProgress, LogDatabaseSize, OpenDB,
          InitBlockTree False, EnableCache]"
    unfolding e1 by (simp add: boot_world_fields example_store_files)
  from t2 p have b: "disk w2
       = \<lparr>tables = map_of (fresh_tables example_settings), indexes = map_of schema_indexes\<rparr>
     \<and> files w2 = {''/conf/siyuan.db'', ''/conf/siyuan.db-shm'', ''/conf/siyuan.db-wal''}
     \<and> trace w2 = [ClearCache, DisableCache, IncBootProgress, ClearQueue, LogDatabaseSize, OpenDB,
          InitBlockTree True, CloseDB, FreeOSMemoryAndGC,
          RemoveAll ''/conf/siyuan.db'' True, RemoveAll ''/conf/siyuan.db-shm'' True,
          RemoveAll ''/conf/siyuan.db-wal'' True,
          CloseDB, FreeOSMemoryAndGC, LogDatabaseSize, OpenDB, LogInfo, EnableCache]"
    unfolding e2 by (simp add: ev boot_world_fields example_store_files)
  from v a b show ?thesis unfolding e1 e2 by simp
qed

text \<open>The removal of the store's file fails: the forced call returns no error after one
  removal that failed, the removal of the other two files is not tried, and a table of the
  earlier schema is still in the store.\<close>

theorem InitDatabase_removal_fails_counterexample:
  "returned (InitDatabase example_settings True
               (boot_world legacy_store [Some ''permission denied''])) = Some None
   \<and> trace (world_of (InitDatabase example_settings True
               (boot_world legacy_store [Some ''permission denied''])))
       = [ClearCache, DisableCache, IncBootProgress, ClearQueue, LogDatabaseSize, OpenDB,
          InitBlockTree True, CloseDB, FreeOSMemoryAndGC,
          RemoveAll ''/conf/siyuan.db'' False, LogError, PushClearProgress,
          CloseDB, FreeOSMemoryAndGC, LogDatabaseSize, OpenDB, LogInfo, EnableCache]
   \<and> tables (disk (world_of (InitDatabase example_settings True
               (boot_world legacy_store [Some ''permission denied''])))) ''blocks_v1''
       = Some example_table"
proof -
  let ?w = "boot_world legacy_store [Some ''permission denied'']"
  have "\<exists>w'. InitDatabase example_settings True ?w = Return None w'"
    by (rule InitDatabase_runs)
       (simp_all add: boot_world_fields legacy_store_def example_store_def)
  then obtain w' where e: "InitDatabase example_settings True ?w = Return None w'" by blast
  have ev: "removal_events example_settings (fs_faults ?w) = [RemoveAll ''/conf/siyuan.db'' False]"
    "length (removed_paths example_settings (fs_faults ?w)) = 0"
    "next_fault (fs_faults ?w) \<noteq> None" "DBPath example_settings \<in> files ?w"
    by (simp_all add: removal_events_eq removed_paths_eq boot_world_fields example_settings_def
          next_fault_def)
  have out: "''blocks_v1'' \<notin> set (map fst (fresh_tables example_settings))"
    by (simp add: fresh_tables_def)
  note rb = InitDatabase_rebuild[of True ?w example_settings, unfolded e]
  from rb ev have "trace w'
       = [ClearCache, DisableCache, IncBootProgress, ClearQueue, LogDatabaseSize, OpenDB,
          InitBlockTree True, CloseDB, FreeOSMemoryAndGC,
          RemoveAll ''/conf/siyuan.db'' False, LogError, PushClearProgress,
          CloseDB, FreeOSMemoryAndGC, LogDatabaseSize, OpenDB, LogInfo, EnableCache]"
    by (simp add: boot_world_fields(6,7))
  moreover from rb ev(3) out have "tables (disk w') ''blocks_v1'' = tables (disk ?w) ''blocks_v1''"
    by simp
  then have "tables (disk w') ''blocks_v1'' = Some example_table"
    by (simp add: boot_world_fields legacy_store_def)
  ultimately show ?thesis unfolding e by simp
qed



end
